(* ===== verification/Rpg_Prelude.thy ===== *)
theory Rpg_Prelude
  imports Main
begin

text \<open>
  Shared ground of the development: Go errors as a tree of wrapped sentinels with
  \<open>errors.Is\<close>, the result type of fallible Go functions, the two sequencing
  combinators that stand for the \<open>if err != nil { return ..., err }\<close> idiom (with and
  without a threaded state), and the generic list lemmas the components use.
\<close>

section \<open>Go errors\<close>

text \<open>
  The sentinel error variables of the repository (\<open>internal/domain/errors.go\<close>,
  \<open>internal/cache\<close>, \<open>internal/db\<close>) and the two sentinels of the drivers that
  the code compares against (\<open>goredis.Nil\<close>, \<open>pgx.ErrNoRows\<close>).
\<close>

datatype sentinel =
    ErrInvalidArgument | ErrUnauthenticated | ErrPermissionDenied | ErrAlreadyExists
  | ErrNotFound | ErrConflict | ErrUnavailable | ErrInternal
  | ErrEmptyPrefix | ErrInvalidSegment | ErrNilClient | ErrNilPoolStats
  | ErrNilPool | ErrNilTxFunc
  | RedisNil | ErrNoRows

text \<open>
  An error value is a sentinel, a \<open>fmt.Errorf\<close> value that wraps the operands of its
  \<open>%w\<close> verbs, a PostgreSQL error with its SQLSTATE code, or an error the code never
  looks into.
\<close>

datatype gerr =
    Sentinel sentinel
  | Wrap string "gerr list"
  | PgError string
  | Opaque string

fun errors_is :: "gerr \<Rightarrow> sentinel \<Rightarrow> bool" where
  "errors_is (Sentinel s) t = (s = t)"
| "errors_is (Wrap m es) t = list_ex (\<lambda>e. errors_is e t) es"
| "errors_is (PgError c) t = False"
| "errors_is (Opaque m) t = False"

text \<open>\<open>errors.As(err, &pgErr)\<close>: the first PostgreSQL error in the tree, in depth-first order.\<close>

fun errors_as_pg :: "gerr \<Rightarrow> string option" where
  "errors_as_pg (Sentinel s) = None"
| "errors_as_pg (Wrap m es) =
     (case filter (\<lambda>r. r \<noteq> None) (map errors_as_pg es) of [] \<Rightarrow> None | r # _ \<Rightarrow> r)"
| "errors_as_pg (PgError c) = Some c"
| "errors_as_pg (Opaque m) = None"

type_synonym 'a result = "gerr + 'a"

text \<open>A call that may also panic.\<close>

datatype 'a outcome = Returned 'a | Panicked

text \<open>\<open>x, err := r; if err != nil { return zero, err }\<close>, then the rest of the function.\<close>

definition bindE :: "'a result \<Rightarrow> ('a \<Rightarrow> 'b result) \<Rightarrow> 'b result" where
  "bindE r k = (case r of Inl e \<Rightarrow> Inl e | Inr x \<Rightarrow> k x)"

text \<open>The same for a call that changed the state before it failed or returned.\<close>

definition bindS ::
  "'a result \<times> 's \<Rightarrow> ('a \<Rightarrow> 's \<Rightarrow> 'b result \<times> 's) \<Rightarrow> 'b result \<times> 's" where
  "bindS r k = (case r of (Inl e, s) \<Rightarrow> (Inl e, s) | (Inr x, s) \<Rightarrow> k x s)"

text \<open>A pure fallible call inside a function that threads a state.\<close>

definition bindP :: "'a result \<Rightarrow> 's \<Rightarrow> ('a \<Rightarrow> 'b result \<times> 's) \<Rightarrow> 'b result \<times> 's" where
  "bindP r s k = (case r of Inl e \<Rightarrow> (Inl e, s) | Inr x \<Rightarrow> k x)"

text \<open>\<open>if err != nil { return ..., f(err) }\<close>: the error is rewritten on its way out.\<close>

definition mapErr :: "(gerr \<Rightarrow> gerr) \<Rightarrow> 'a result \<Rightarrow> 'a result" where
  "mapErr f r = (case r of Inl e \<Rightarrow> Inl (f e) | Inr x \<Rightarrow> Inr x)"

definition mapErrS :: "(gerr \<Rightarrow> gerr) \<Rightarrow> 'a result \<times> 's \<Rightarrow> 'a result \<times> 's" where
  "mapErrS f r = (mapErr f (fst r), snd r)"

section \<open>Laws of the combinators\<close>

named_theorems go_defs \<open>definitions that a component proof unfolds\<close>

lemma bindE_simps [simp]:
  "bindE (Inl e) k = Inl e"
  "bindE (Inr x) k = k x"
  by (simp_all add: bindE_def)

lemma bindS_simps [simp]:
  "bindS (Inl e, s) k = (Inl e, s)"
  "bindS (Inr x, s) k = k x s"
  by (simp_all add: bindS_def)

lemma bindP_simps [simp]:
  "bindP (Inl e) s k = (Inl e, s)"
  "bindP (Inr x) s k = k x"
  by (simp_all add: bindP_def)

lemma mapErr_simps [simp]:
  "mapErr f (Inl e) = Inl (f e)"
  "mapErr f (Inr x) = Inr x"
  by (simp_all add: mapErr_def)

lemma mapErr_eq_Inr [simp]: "mapErr f r = Inr x \<longleftrightarrow> r = Inr x"
  by (cases r) auto

lemma mapErr_eq_Inl: "mapErr f r = Inl e \<longleftrightarrow> (\<exists>e'. r = Inl e' \<and> e = f e')"
  by (cases r) auto

lemma mapErrS_simps [simp]: "mapErrS f (r, s) = (mapErr f r, s)"
  by (simp add: mapErrS_def)

lemma bindE_eq_Inr: "bindE r k = Inr y \<longleftrightarrow> (\<exists>x. r = Inr x \<and> k x = Inr y)"
  by (cases r) auto

lemma bindE_eq_Inl:
  "bindE r k = Inl e \<longleftrightarrow> r = Inl e \<or> (\<exists>x. r = Inr x \<and> k x = Inl e)"
  by (cases r) auto

lemma bindP_eq_Inr:
  "bindP r s k = (Inr y, t) \<longleftrightarrow> (\<exists>x. r = Inr x \<and> k x = (Inr y, t))"
  by (cases r) auto

lemma bindP_eq_Inl:
  "bindP r s k = (Inl e, t) \<longleftrightarrow>
     (r = Inl e \<and> t = s) \<or> (\<exists>x. r = Inr x \<and> k x = (Inl e, t))"
  by (cases r) auto

lemma bindS_eq_Inr:
  "bindS r k = (Inr y, t) \<longleftrightarrow> (\<exists>x s. r = (Inr x, s) \<and> k x s = (Inr y, t))"
  by (cases r; cases "fst r") auto

lemma bindS_eq_Inl:
  "bindS r k = (Inl e, t) \<longleftrightarrow>
     r = (Inl e, t) \<or> (\<exists>x s. r = (Inr x, s) \<and> k x s = (Inl e, t))"
  by (cases r; cases "fst r") auto

lemma mapErrS_eq_Inr [simp]: "mapErrS f r = (Inr x, s) \<longleftrightarrow> r = (Inr x, s)"
  by (cases r) auto

lemma mapErrS_eq_Inl: "mapErrS f r = (Inl e, s) \<longleftrightarrow> (\<exists>e'. r = (Inl e', s) \<and> e = f e')"
  by (cases r) (auto simp: mapErr_eq_Inl)

lemmas bind_eq_Inr = bindE_eq_Inr bindP_eq_Inr bindS_eq_Inr
lemmas bind_eq_Inl = bindE_eq_Inl bindP_eq_Inl bindS_eq_Inl

section \<open>Lists\<close>

text \<open>A list of a separator-free head, the separator and a rest determines its parts.\<close>

lemma append_sep_inject:
  assumes "xs @ c # ys = xs' @ c # ys'" and "c \<notin> set xs" and "c \<notin> set xs'"
  shows "xs = xs' \<and> ys = ys'"
  using assms by (induction xs arbitrary: xs') (auto simp: Cons_eq_append_conv append_eq_Cons_conv)

lemma append_sep_neq:
  assumes "xs @ c # ys = zs" and "c \<notin> set zs"
  shows False
  using assms by auto

lemma set_map_filter: "set (List.map_filter f xs) = {y. \<exists>x \<in> set xs. f x = Some y}"
  by (induction xs) (auto simp: map_filter_simps split: option.splits)

section \<open>Two stores side by side\<close>

text \<open>An operation on one of two stores, as an operation on the pair.\<close>

definition on_fst :: "('s \<Rightarrow> 'a \<times> 's) \<Rightarrow> 's \<times> 'd \<Rightarrow> 'a \<times> 's \<times> 'd" where
  "on_fst f sd = (case f (fst sd) of (r, s') \<Rightarrow> (r, s', snd sd))"

definition on_snd :: "('d \<Rightarrow> 'a \<times> 'd) \<Rightarrow> 's \<times> 'd \<Rightarrow> 'a \<times> 's \<times> 'd" where
  "on_snd f sd = (case f (snd sd) of (r, d') \<Rightarrow> (r, fst sd, d'))"

lemma on_fst_eq: "on_fst f (s, d) = (r, x) \<longleftrightarrow> (\<exists>s'. f s = (r, s') \<and> x = (s', d))"
  by (auto simp: on_fst_def split: prod.splits)

lemma on_snd_eq: "on_snd f (s, d) = (r, x) \<longleftrightarrow> (\<exists>d'. f d = (r, d') \<and> x = (s, d'))"
  by (auto simp: on_snd_def split: prod.splits)

end
