(* ===== verification/Go_Strings.thy ===== *)
theory Go_Strings
  imports Rpg_Prelude
begin

text \<open>
  The part of Go's \<open>strings\<close>, \<open>strconv\<close> and \<open>unicode/utf8\<close> packages that
  the program calls, on Go strings as byte lists (\<open>string\<close>, one \<open>char\<close> per
  byte). White space is Unicode white space, recognised by its UTF-8 encodings; case
  mapping of non-ASCII text is left to a parameter where a component needs it.
\<close>

section \<open>White space and trimming\<close>

text \<open>
  The UTF-8 encodings of the runes for which \<open>unicode.IsSpace\<close> holds: the six ASCII
  ones, U+0085, U+00A0, U+1680, U+2000 to U+200A, U+2028, U+2029, U+202F, U+205F, U+3000.
\<close>

definition space_encodings :: "string list" where
  "space_encodings =
     [[CHR 0x09], [CHR 0x0A], [CHR 0x0B], [CHR 0x0C], [CHR 0x0D], [CHR 0x20],
      [CHR 0xC2, CHR 0x85], [CHR 0xC2, CHR 0xA0], [CHR 0xE1, CHR 0x9A, CHR 0x80],
      [CHR 0xE2, CHR 0x80, CHR 0x80], [CHR 0xE2, CHR 0x80, CHR 0x81],
      [CHR 0xE2, CHR 0x80, CHR 0x82], [CHR 0xE2, CHR 0x80, CHR 0x83],
      [CHR 0xE2, CHR 0x80, CHR 0x84], [CHR 0xE2, CHR 0x80, CHR 0x85],
      [CHR 0xE2, CHR 0x80, CHR 0x86], [CHR 0xE2, CHR 0x80, CHR 0x87],
      [CHR 0xE2, CHR 0x80, CHR 0x88], [CHR 0xE2, CHR 0x80, CHR 0x89],
      [CHR 0xE2, CHR 0x80, CHR 0x8A], [CHR 0xE2, CHR 0x80, CHR 0xA8],
      [CHR 0xE2, CHR 0x80, CHR 0xA9], [CHR 0xE2, CHR 0x80, CHR 0xAF],
      [CHR 0xE2, CHR 0x81, CHR 0x9F], [CHR 0xE3, CHR 0x80, CHR 0x80]]"

text \<open>The number of bytes of the white-space rune the string starts with, 0 if it starts with none.\<close>

definition has_prefix :: "string \<Rightarrow> string \<Rightarrow> bool" where
  "has_prefix s p = (take (length p) s = p)"

definition lead_space :: "string list \<Rightarrow> string \<Rightarrow> nat" where
  "lead_space encs s = (case find (has_prefix s) encs of None \<Rightarrow> 0 | Some p \<Rightarrow> length p)"

text \<open>The fuel is the length of the string: each round drops at least one byte.\<close>

fun trim_left_fuel :: "nat \<Rightarrow> string list \<Rightarrow> string \<Rightarrow> string" where
  "trim_left_fuel 0 encs s = s"
| "trim_left_fuel (Suc n) encs s =
     (if lead_space encs s = 0 then s else trim_left_fuel n encs (drop (lead_space encs s) s))"

definition trim_left :: "string \<Rightarrow> string" where
  "trim_left s = trim_left_fuel (length s) space_encodings s"

definition trim_right :: "string \<Rightarrow> string" where
  "trim_right s = rev (trim_left_fuel (length s) (map rev space_encodings) (rev s))"

definition TrimSpace :: "string \<Rightarrow> string" where
  "TrimSpace s = trim_right (trim_left s)"

section \<open>Searching, cutting, joining\<close>

definition ContainsAny :: "string \<Rightarrow> string \<Rightarrow> bool" where
  "ContainsAny s cs = list_ex (\<lambda>c. c \<in> set cs) s"

definition contains_byte :: "string \<Rightarrow> char \<Rightarrow> bool" where
  "contains_byte s c = (c \<in> set s)"

text \<open>\<open>strings.Cut\<close> at the first occurrence of a one-byte separator.\<close>

definition Cut :: "string \<Rightarrow> char \<Rightarrow> string \<times> string \<times> bool" where
  "Cut s c =
     (if c \<in> set s then (takeWhile (\<lambda>x. x \<noteq> c) s, tl (dropWhile (\<lambda>x. x \<noteq> c) s), True)
      else (s, [], False))"

definition CutPrefix :: "string \<Rightarrow> string \<Rightarrow> string \<times> bool" where
  "CutPrefix s p = (if has_prefix s p then (drop (length p) s, True) else (s, False))"

text \<open>\<open>strings.Split\<close> at a one-byte separator: one more part than separators.\<close>

fun Split :: "string \<Rightarrow> char \<Rightarrow> string list" where
  "Split [] c = [[]]"
| "Split (x # xs) c =
     (if x = c then [] # Split xs c
      else (case Split xs c of [] \<Rightarrow> [[x]] | p # ps \<Rightarrow> (x # p) # ps))"

fun Join :: "string list \<Rightarrow> string \<Rightarrow> string" where
  "Join [] sep = []"
| "Join [p] sep = p"
| "Join (p # q # ps) sep = p @ sep @ Join (q # ps) sep"

text \<open>\<open>strings.ReplaceAll\<close> of a one-byte string.\<close>

definition ReplaceAll :: "string \<Rightarrow> char \<Rightarrow> string \<Rightarrow> string" where
  "ReplaceAll s c r = concat (map (\<lambda>x. if x = c then r else [x]) s)"

text \<open>\<open>strings.Trim(s, cutset)\<close> for a one-byte cut set.\<close>

definition Trim :: "string \<Rightarrow> char \<Rightarrow> string" where
  "Trim s c = rev (dropWhile (\<lambda>x. x = c) (rev (dropWhile (\<lambda>x. x = c) s)))"

section \<open>Case\<close>

definition is_ascii :: "string \<Rightarrow> bool" where
  "is_ascii s = list_all (\<lambda>c. of_char c < (128::nat)) s"

definition ascii_lower :: "char \<Rightarrow> char" where
  "ascii_lower c =
     (if 65 \<le> (of_char c :: nat) \<and> (of_char c :: nat) \<le> 90 then char_of ((of_char c :: nat) + 32) else c)"

text \<open>
  \<open>strings.ToLower\<close>: bytewise on ASCII strings; a string with a non-ASCII byte goes to
  the Unicode case mapping, the parameter \<open>uni\<close>.
\<close>

definition ToLower :: "(string \<Rightarrow> string) \<Rightarrow> string \<Rightarrow> string" where
  "ToLower uni s = (if is_ascii s then map ascii_lower s else uni s)"

text \<open>
  \<open>strings.EqualFold\<close>: bytewise when both strings are ASCII, otherwise simple Unicode
  folding, the parameter \<open>uni\<close>.
\<close>

definition EqualFold :: "(string \<Rightarrow> string \<Rightarrow> bool) \<Rightarrow> string \<Rightarrow> string \<Rightarrow> bool" where
  "EqualFold uni s t =
     (if is_ascii s \<and> is_ascii t then map ascii_lower s = map ascii_lower t else uni s t)"

section \<open>Numbers\<close>

definition is_digit :: "char \<Rightarrow> bool" where
  "is_digit c = (48 \<le> (of_char c :: nat) \<and> (of_char c :: nat) \<le> 57)"

definition digit_val :: "char \<Rightarrow> nat" where
  "digit_val c = of_char c - 48"

definition digit_char :: "nat \<Rightarrow> char" where
  "digit_char d = char_of (48 + d)"

fun nat_to_dec :: "nat \<Rightarrow> string" where
  "nat_to_dec n = (if n < 10 then [digit_char n] else nat_to_dec (n div 10) @ [digit_char (n mod 10)])"

declare nat_to_dec.simps [simp del]

text \<open>\<open>strconv.Itoa\<close>, \<open>strconv.FormatInt(_, 10)\<close> and the verb \<open>%d\<close>.\<close>

definition Itoa :: "int \<Rightarrow> string" where
  "Itoa i = (if i < 0 then CHR ''-'' # nat_to_dec (nat (- i)) else nat_to_dec (nat i))"

definition dec_to_nat :: "string \<Rightarrow> nat" where
  "dec_to_nat s = foldl (\<lambda>n c. 10 * n + digit_val c) 0 s"

text \<open>\<open>strconv.ParseUint(s, 10, bits)\<close>: digits only, no sign, within the width.\<close>

definition ParseUint :: "string \<Rightarrow> nat \<Rightarrow> nat option" where
  "ParseUint s bits =
     (if s \<noteq> [] \<and> list_all is_digit s \<and> dec_to_nat s < 2 ^ bits then Some (dec_to_nat s) else None)"

text \<open>\<open>strconv.Atoi\<close>: an optional sign, then digits, within 64-bit \<open>int\<close>.\<close>

definition Atoi :: "string \<Rightarrow> int option" where
  "Atoi s =
     (let neg = (s \<noteq> [] \<and> hd s = CHR ''-'');
          ds = (if s \<noteq> [] \<and> (hd s = CHR ''-'' \<or> hd s = CHR ''+'') then tl s else s)
      in if ds = [] \<or> \<not> list_all is_digit ds then None
         else if neg then (if dec_to_nat ds \<le> 2 ^ 63 then Some (- int (dec_to_nat ds)) else None)
         else (if dec_to_nat ds < 2 ^ 63 then Some (int (dec_to_nat ds)) else None))"

section \<open>Runes\<close>

text \<open>
  \<open>utf8.DecodeRuneInString\<close>: the rune at the front and its width in bytes; an invalid
  encoding (overlong forms, surrogates and values past U+10FFFF included) is U+FFFD of
  width 1.
\<close>

definition cont :: "nat \<Rightarrow> bool" where
  "cont b = (128 \<le> b \<and> b < 192)"

fun decode_rune :: "nat list \<Rightarrow> nat \<times> nat" where
  "decode_rune [] = (65533, 0)"
| "decode_rune (a # bs) =
     (if a < 128 then (a, 1)
      else if 194 \<le> a \<and> a < 224 then
        (case bs of b # _ \<Rightarrow> if cont b then ((a - 192) * 64 + (b - 128), 2) else (65533, 1) | _ \<Rightarrow> (65533, 1))
      else if 224 \<le> a \<and> a < 240 then
        (case bs of b # c # _ \<Rightarrow>
           if cont b \<and> cont c \<and> (a = 224 \<longrightarrow> 160 \<le> b) \<and> (a = 237 \<longrightarrow> b < 160)
           then ((a - 224) * 4096 + (b - 128) * 64 + (c - 128), 3) else (65533, 1)
         | _ \<Rightarrow> (65533, 1))
      else if 240 \<le> a \<and> a < 245 then
        (case bs of b # c # d # _ \<Rightarrow>
           if cont b \<and> cont c \<and> cont d \<and> (a = 240 \<longrightarrow> 144 \<le> b) \<and> (a = 244 \<longrightarrow> b < 144)
           then ((a - 240) * 262144 + (b - 128) * 4096 + (c - 128) * 64 + (d - 128), 4) else (65533, 1)
         | _ \<Rightarrow> (65533, 1))
      else (65533, 1))"

fun runes_fuel :: "nat \<Rightarrow> nat list \<Rightarrow> nat list" where
  "runes_fuel 0 bs = []"
| "runes_fuel (Suc n) bs =
     (if bs = [] then [] else fst (decode_rune bs) # runes_fuel n (drop (snd (decode_rune bs)) bs))"

text \<open>\<open>for _, r := range s\<close>: the runes of a string.\<close>

definition runes :: "string \<Rightarrow> nat list" where
  "runes s = runes_fuel (length s) (map of_char s)"

definition RuneCountInString :: "string \<Rightarrow> nat" where
  "RuneCountInString s = length (runes s)"

section \<open>Lemmas: trimming\<close>

definition all_nonempty :: "string list \<Rightarrow> bool" where
  "all_nonempty encs = list_all (\<lambda>p. p \<noteq> []) encs"

lemma all_nonempty_space [simp]:
  "all_nonempty space_encodings" "all_nonempty (map rev space_encodings)"
  by (simp_all add: all_nonempty_def space_encodings_def)

lemma lead_space_le: "lead_space encs s \<le> length s"
proof (cases "find (has_prefix s) encs")
  case (Some p)
  then have "has_prefix s p" by (auto simp: find_Some_iff)
  then have "length p \<le> length s"
    by (metis has_prefix_def nat_le_linear take_all)
  with Some show ?thesis by (simp add: lead_space_def)
qed (simp add: lead_space_def)

lemma lead_space_0:
  assumes "all_nonempty encs"
  shows "lead_space encs s = 0 \<longleftrightarrow> \<not> list_ex (has_prefix s) encs"
proof (cases "find (has_prefix s) encs")
  case None
  then have "\<not> list_ex (has_prefix s) encs" by (auto simp: find_None_iff list_ex_iff)
  with None show ?thesis by (simp add: lead_space_def)
next
  case (Some p)
  then have "p \<in> set encs" and "has_prefix s p"
    by (metis find_Some_iff nth_mem)+
  moreover from this assms have "p \<noteq> []" by (auto simp: all_nonempty_def list_all_iff)
  ultimately show ?thesis using Some by (auto simp: lead_space_def list_ex_iff)
qed

lemma trim_left_fuel_suffix: "\<exists>p. s = p @ trim_left_fuel n encs s"
proof (induction n arbitrary: s)
  case (Suc n)
  show ?case
  proof (cases "lead_space encs s = 0")
    case False
    from Suc obtain p where
      "drop (lead_space encs s) s = p @ trim_left_fuel n encs (drop (lead_space encs s) s)" by blast
    then have "s = (take (lead_space encs s) s @ p) @ trim_left_fuel n encs (drop (lead_space encs s) s)"
      by (metis append.assoc append_take_drop_id)
    with False show ?thesis by (metis trim_left_fuel.simps(2))
  qed simp
qed simp

text \<open>Enough fuel: what is left does not start with white space.\<close>

lemma trim_left_fuel_done:
  "length s \<le> n \<Longrightarrow> lead_space encs (trim_left_fuel n encs s) = 0"
proof (induction n arbitrary: s)
  case 0
  then show ?case using lead_space_le [of encs "[]"] by simp
next
  case (Suc n)
  show ?case
  proof (cases "lead_space encs s = 0")
    case False
    then have "length (drop (lead_space encs s) s) \<le> n"
      using Suc.prems by simp
    with False Suc.IH show ?thesis by simp
  qed simp
qed

lemma trim_left_fuel_id: "lead_space encs s = 0 \<Longrightarrow> trim_left_fuel n encs s = s"
  by (cases n) auto

lemma trim_left_suffix: "\<exists>p. s = p @ trim_left s"
  unfolding trim_left_def by (rule trim_left_fuel_suffix)

lemma trim_right_prefix: "\<exists>q. s = trim_right s @ q"
proof -
  obtain p where "rev s = p @ trim_left_fuel (length s) (map rev space_encodings) (rev s)"
    using trim_left_fuel_suffix by blast
  then have "s = rev (trim_left_fuel (length s) (map rev space_encodings) (rev s)) @ rev p"
    by (metis rev_append rev_rev_ident)
  then show ?thesis unfolding trim_right_def by blast
qed

lemma TrimSpace_infix: "\<exists>p q. s = p @ TrimSpace s @ q"
  unfolding TrimSpace_def by (metis trim_left_suffix trim_right_prefix)

lemma set_TrimSpace: "set (TrimSpace s) \<subseteq> set s"
proof -
  obtain p q where "s = p @ TrimSpace s @ q" using TrimSpace_infix by blast
  then have "set s = set p \<union> set (TrimSpace s) \<union> set q" by (metis Un_assoc set_append)
  then show ?thesis by blast
qed

lemma length_TrimSpace: "length (TrimSpace s) \<le> length s"
proof -
  obtain p q where "s = p @ TrimSpace s @ q" using TrimSpace_infix by blast
  then have "length s = length (p @ TrimSpace s @ q)" by (rule arg_cong)
  then show ?thesis by simp
qed

lemma TrimSpace_Nil [simp]: "TrimSpace [] = []"
  by (simp add: TrimSpace_def trim_left_def trim_right_def)

text \<open>A prefix of a string that starts with no white space starts with none either.\<close>

lemma has_prefix_append: "has_prefix s p \<Longrightarrow> has_prefix (s @ t) p"
  unfolding has_prefix_def
  by (metis append_take_drop_id append_eq_conv_conj append.assoc)

lemma trim_left_id: "lead_space space_encodings s = 0 \<Longrightarrow> trim_left s = s"
  unfolding trim_left_def by (rule trim_left_fuel_id)

lemma trim_right_id: "lead_space (map rev space_encodings) (rev s) = 0 \<Longrightarrow> trim_right s = s"
  unfolding trim_right_def by (simp add: trim_left_fuel_id)

lemma lead_space_trim_right:
  assumes "lead_space space_encodings s = 0"
  shows "lead_space space_encodings (trim_right s) = 0"
proof -
  obtain q where q: "s = trim_right s @ q" using trim_right_prefix by blast
  have "\<not> list_ex (has_prefix s) space_encodings"
    using assms lead_space_0 by simp
  then have "\<not> list_ex (has_prefix (trim_right s)) space_encodings"
    using q has_prefix_append by (metis list_ex_iff)
  then show ?thesis using lead_space_0 by simp
qed

lemma TrimSpace_lead:
  "lead_space space_encodings (TrimSpace s) = 0"
  "lead_space (map rev space_encodings) (rev (TrimSpace s)) = 0"
proof -
  have "lead_space space_encodings (trim_left s) = 0"
    unfolding trim_left_def by (rule trim_left_fuel_done) simp
  then show "lead_space space_encodings (TrimSpace s) = 0"
    unfolding TrimSpace_def by (rule lead_space_trim_right)
  show "lead_space (map rev space_encodings) (rev (TrimSpace s)) = 0"
    unfolding TrimSpace_def trim_right_def by (simp add: trim_left_fuel_done)
qed

lemma TrimSpace_idem [simp]: "TrimSpace (TrimSpace s) = TrimSpace s"
  unfolding TrimSpace_def [of "TrimSpace s"]
  using TrimSpace_lead [of s] by (simp add: trim_left_id trim_right_id)

text \<open>A string without bytes of white-space encodings is untouched.\<close>

definition plain_byte :: "char \<Rightarrow> bool" where
  "plain_byte c = (33 \<le> (of_char c :: nat) \<and> (of_char c :: nat) < 128)"

lemma plain_lead_space:
  assumes "list_all plain_byte s"
  shows "lead_space space_encodings s = 0" "lead_space (map rev space_encodings) s = 0"
proof -
  have np: "has_prefix s (c # p) \<Longrightarrow> plain_byte c" for c p
    using assms by (cases s) (auto simp: has_prefix_def)
  have "\<not> list_ex (has_prefix s) space_encodings"
    by (auto simp: space_encodings_def plain_byte_def dest!: np)
  then show "lead_space space_encodings s = 0"
    by (simp add: lead_space_0)
  have "\<not> list_ex (has_prefix s) (map rev space_encodings)"
    by (auto simp: space_encodings_def plain_byte_def dest!: np)
  then show "lead_space (map rev space_encodings) s = 0"
    by (simp add: lead_space_0)
qed

lemma TrimSpace_plain: "list_all plain_byte s \<Longrightarrow> TrimSpace s = s"
  unfolding TrimSpace_def
  by (simp add: trim_left_id trim_right_id plain_lead_space list_all_iff)

lemma Split_free [simp]: "c \<notin> set p \<Longrightarrow> Split p c = [p]"
  by (induction p) auto

lemma Split_append [simp]: "c \<notin> set p \<Longrightarrow> Split (p @ c # r) c = p # Split r c"
  by (induction p) auto

text \<open>Joining separator-free parts and splitting again gives the parts.\<close>

lemma Split_Join:
  assumes "ps \<noteq> []" and "list_all (\<lambda>p. c \<notin> set p) ps"
  shows "Split (Join ps [c]) c = ps"
  using assms by (induction ps "[c]" rule: Join.induct) auto

section \<open>Evaluation of decimals\<close>

text \<open>The same conversions on binary integers, which is what evaluation uses.\<close>

function int_to_dec :: "int \<Rightarrow> string" where
  "int_to_dec n =
     (if n < 10 then [digit_char (nat n)] else int_to_dec (n div 10) @ [digit_char (nat (n mod 10))])"
  by auto
termination by (relation "measure nat") auto

declare int_to_dec.simps [simp del]

definition dec_to_int :: "string \<Rightarrow> int" where
  "dec_to_int s = foldl (\<lambda>n c. 10 * n + int (digit_val c)) 0 s"

lemma nat_to_dec_int: "0 \<le> n \<Longrightarrow> nat_to_dec (nat n) = int_to_dec n"
proof (induction n rule: int_to_dec.induct)
  case (1 n)
  then show ?case
    by (subst nat_to_dec.simps, subst int_to_dec.simps)
       (simp add: nat_less_iff nat_div_distrib nat_mod_distrib)
qed

lemma Itoa_code [code]:
  "Itoa i = (if i < 0 then CHR ''-'' # int_to_dec (- i) else int_to_dec i)"
  by (simp add: Itoa_def nat_to_dec_int)

lemma dec_to_nat_int: "int (dec_to_nat s) = dec_to_int s"
  by (induction s rule: rev_induct) (simp_all add: dec_to_nat_def dec_to_int_def)

lemma dec_to_nat_bounds:
  "dec_to_nat s < 2 ^ n \<longleftrightarrow> dec_to_int s < 2 ^ n"
  "dec_to_nat s \<le> 2 ^ n \<longleftrightarrow> dec_to_int s \<le> 2 ^ n"
  by (simp_all flip: dec_to_nat_int)

lemma Atoi_code [code]:
  "Atoi s =
     (let neg = (s \<noteq> [] \<and> hd s = CHR ''-'');
          ds = (if s \<noteq> [] \<and> (hd s = CHR ''-'' \<or> hd s = CHR ''+'') then tl s else s)
      in if ds = [] \<or> \<not> list_all is_digit ds then None
         else if neg then (if dec_to_int ds \<le> 2 ^ 63 then Some (- dec_to_int ds) else None)
         else (if dec_to_int ds < 2 ^ 63 then Some (dec_to_int ds) else None))"
  unfolding Atoi_def Let_def dec_to_nat_bounds dec_to_nat_int ..

end
