(* ===== verification/Go_Base64.thy ===== *)
theory Go_Base64
  imports Go_Strings
begin

text \<open>
  Go's \<open>encoding/base64\<close> without padding, in the standard and in the URL alphabet. The
  decoder is the lenient one: line breaks are skipped and unused trailing bits ignored.
\<close>

section \<open>Definitions\<close>

definition b64_std :: string where
  "b64_std = ''ABCDEFGHIJKLMNOPQRSTUVWXYZabcdefghijklmnopqrstuvwxyz0123456789+/''"

definition b64_url :: string where
  "b64_url = ''ABCDEFGHIJKLMNOPQRSTUVWXYZabcdefghijklmnopqrstuvwxyz0123456789-_''"

text \<open>Bytes as numbers, three of them in four sextets.\<close>

fun sextets :: "nat list \<Rightarrow> nat list" where
  "sextets (a # b # c # bs) =
     a div 4 # ((a mod 4) * 16 + b div 16) # ((b mod 16) * 4 + c div 64) # (c mod 64) # sextets bs"
| "sextets [a, b] = [a div 4, (a mod 4) * 16 + b div 16, (b mod 16) * 4]"
| "sextets [a] = [a div 4, (a mod 4) * 16]"
| "sextets [] = []"

definition EncodeToString :: "string \<Rightarrow> string \<Rightarrow> string" where
  "EncodeToString alphabet s = map (\<lambda>i. alphabet ! i) (sextets (map of_char s))"

fun unsextets :: "nat list \<Rightarrow> nat list option" where
  "unsextets (w # x # y # z # is) =
     map_option (\<lambda>bs. (w * 4 + x div 16) # ((x mod 16) * 16 + y div 4) # ((y mod 4) * 64 + z) # bs) (unsextets is)"
| "unsextets [w, x, y] = Some [w * 4 + x div 16, (x mod 16) * 16 + y div 4]"
| "unsextets [w, x] = Some [w * 4 + x div 16]"
| "unsextets [w] = None"
| "unsextets [] = Some []"

fun index_of :: "string \<Rightarrow> char \<Rightarrow> nat option" where
  "index_of [] c = None"
| "index_of (a # as) c = (if a = c then Some 0 else map_option Suc (index_of as c))"

definition DecodeString :: "string \<Rightarrow> string \<Rightarrow> string option" where
  "DecodeString alphabet s =
     (let cs = filter (\<lambda>c. c \<noteq> CHR 0x0A \<and> c \<noteq> CHR 0x0D) s; is = map (index_of alphabet) cs
      in if None \<in> set is then None
         else map_option (map char_of) (unsextets (map the is)))"

section \<open>Lemmas\<close>

lemma sextets_bound: "list_all (\<lambda>b. b < 256) bs \<Longrightarrow> list_all (\<lambda>i. i < 64) (sextets bs)"
proof (induction bs rule: sextets.induct)
  case (1 a b c bs)
  then have "a div 4 < 64" "b div 16 < 16" "c div 64 < 4" by (simp_all add: div_less_iff_less_mult)
  moreover have "a mod 4 < 4" "b mod 16 < 16" "c mod 64 < 64" by simp_all
  ultimately have "a mod 4 * 16 + b div 16 < 64" "b mod 16 * 4 + c div 64 < 64" by linarith+
  with 1 \<open>a div 4 < 64\<close> show ?case by simp
next
  case (2 a b)
  then have "b div 16 < 16" by (simp add: div_less_iff_less_mult)
  moreover have "a mod 4 < 4" "b mod 16 < 16" by simp_all
  ultimately have "a mod 4 * 16 + b div 16 < 64" "b mod 16 * 4 < 64" by linarith+
  with 2 show ?case by (simp add: div_less_iff_less_mult)
next
  case (3 a)
  have "a mod 4 < 4" by simp
  with 3 show ?case by (simp add: div_less_iff_less_mult)
qed simp

lemma sextet_parts:
  fixes a b :: nat
  shows "(a mod 4 * 16 + b div 16) mod 16 = b div 16 mod 16" "(a mod 4 * 16 + b div 16) div 16 = a mod 4 + b div 16 div 16"
    "(a mod 16 * 4 + b div 64) mod 4 = b div 64 mod 4" "(a mod 16 * 4 + b div 64) div 4 = a mod 16 + b div 64 div 4"
  by (simp_all add: mod_add_eq div_add1_eq)

lemma unsextets_sextets: "list_all (\<lambda>b. b < 256) bs \<Longrightarrow> unsextets (sextets bs) = Some bs"
proof (induction bs rule: sextets.induct)
  case (1 a b c bs)
  then have "b div 16 < 16" "c div 64 < 4" by (simp_all add: div_less_iff_less_mult)
  then show ?case using 1 by (simp add: sextet_parts)
next
  case (2 a b)
  then have "b div 16 < 16" by (simp add: div_less_iff_less_mult)
  then show ?case using 2 by (simp add: sextet_parts)
qed simp_all

lemma length_sextets: "length (sextets bs) = (4 * length bs + 2) div 3"
  by (induction bs rule: sextets.induct) simp_all

lemma index_of_nth: "distinct as \<Longrightarrow> i < length as \<Longrightarrow> index_of as (as ! i) = Some i"
  by (induction as arbitrary: i) (auto simp: nth_Cons split: nat.splits)

lemma alphabets:
  "distinct b64_std" "distinct b64_url" "length b64_std = 64" "length b64_url = 64"
  "list_all plain_byte b64_std" "list_all plain_byte b64_url"
  by code_simp+

lemma bytes_small: "list_all (\<lambda>b. b < (256 :: nat)) (map of_char (s :: string))"
  by (simp add: list_all_iff)

lemma set_EncodeToString:
  assumes "length al = 64"
  shows "set (EncodeToString al s) \<subseteq> set al"
  using sextets_bound [OF bytes_small, of s] assms by (auto simp: EncodeToString_def list_all_iff)

lemma length_EncodeToString: "length (EncodeToString al s) = (4 * length s + 2) div 3"
  by (simp add: EncodeToString_def length_sextets)

lemma Decode_Encode:
  assumes "distinct al" and "length al = 64" and "list_all plain_byte al"
  shows "DecodeString al (EncodeToString al s) = Some s"
proof -
  let ?is = "sextets (map of_char s)"
  have b: "list_all (\<lambda>i. i < 64) ?is" by (rule sextets_bound [OF bytes_small])
  have "c \<noteq> CHR 0x0A \<and> c \<noteq> CHR 0x0D" if "c \<in> set al" for c
    using assms(3) that by (auto simp: list_all_iff plain_byte_def)
  then have f: "filter (\<lambda>c. c \<noteq> CHR 0x0A \<and> c \<noteq> CHR 0x0D) (EncodeToString al s) = EncodeToString al s"
    using set_EncodeToString [OF assms(2), of s] by (intro filter_True) blast
  have "map (index_of al) (EncodeToString al s) = map Some ?is"
    using b assms(1,2) by (simp add: EncodeToString_def list_all_iff index_of_nth)
  then show ?thesis
    unfolding DecodeString_def f Let_def by (simp add: unsextets_sextets [OF bytes_small] o_def)
qed

end
