(* ===== verification/Go_Float64.thy ===== *)
theory Go_Float64
  imports Rpg_Prelude
begin

text \<open>
  Go's \<open>float64\<close>: IEEE 754 binary64 with round-to-nearest-even. A finite value is a
  sign and a magnitude counted in units of \<open>2 ^ -1074\<close> (the smallest subnormal), so
  that every finite double is an exact natural number of units; the operations compute
  exactly and round to 53 significant bits.
\<close>

section \<open>Values and rounding\<close>

datatype f64 = NaN | Inf bool | Fin bool nat

text \<open>In \<open>Inf neg\<close> and \<open>Fin neg n\<close> the flag is the sign bit.\<close>

fun bitlen :: "nat \<Rightarrow> nat" where
  "bitlen n = (if n = 0 then 0 else Suc (bitlen (n div 2)))"

declare bitlen.simps [simp del]

text \<open>Round \<open>p / 2 ^ t\<close> to the nearest natural number, ties to even.\<close>

definition rne :: "nat \<Rightarrow> nat \<Rightarrow> nat" where
  "rne p t =
     (let q = p div 2 ^ t; r = p mod 2 ^ t
      in if 2 * r < 2 ^ t then q
         else if 2 ^ t < 2 * r then Suc q
         else if even q then q else Suc q)"

text \<open>
  Round \<open>p / 2 ^ d\<close> units to 53 significant bits. Below \<open>2 ^ 53\<close> units (subnormals
  and the first normals) the unit itself is the last place.
\<close>

definition round_units :: "nat \<Rightarrow> nat \<Rightarrow> nat" where
  "round_units p d =
     (let sh = bitlen (p div 2 ^ d) - 53 in rne p (d + sh) * 2 ^ sh)"

text \<open>Magnitudes from \<open>2 ^ 1024\<close> on overflow to infinity.\<close>

definition pack :: "bool \<Rightarrow> nat \<Rightarrow> f64" where
  "pack neg n = (if 2 ^ 2098 \<le> n then Inf neg else Fin neg n)"

definition signed :: "bool \<Rightarrow> nat \<Rightarrow> int" where
  "signed neg n = (if neg then - int n else int n)"

section \<open>Arithmetic and comparison\<close>

fun f64_add :: "f64 \<Rightarrow> f64 \<Rightarrow> f64" where
  "f64_add NaN y = NaN"
| "f64_add x NaN = NaN"
| "f64_add (Inf a) (Inf b) = (if a = b then Inf a else NaN)"
| "f64_add (Inf a) y = Inf a"
| "f64_add x (Inf b) = Inf b"
| "f64_add (Fin a m) (Fin b n) =
     (let z = signed a m + signed b n
      in if z = 0 then Fin (a \<and> b) 0
         else pack (z < 0) (round_units (nat \<bar>z\<bar>) 0))"

fun f64_mul :: "f64 \<Rightarrow> f64 \<Rightarrow> f64" where
  "f64_mul NaN y = NaN"
| "f64_mul x NaN = NaN"
| "f64_mul (Inf a) (Inf b) = Inf (a \<noteq> b)"
| "f64_mul (Inf a) (Fin b n) = (if n = 0 then NaN else Inf (a \<noteq> b))"
| "f64_mul (Fin a m) (Inf b) = (if m = 0 then NaN else Inf (a \<noteq> b))"
| "f64_mul (Fin a m) (Fin b n) = pack (a \<noteq> b) (round_units (m * n) 1074)"

text \<open>\<open><\<close> is false as soon as one operand is NaN; the two zeros are equal.\<close>

fun f64_lt :: "f64 \<Rightarrow> f64 \<Rightarrow> bool" where
  "f64_lt NaN y = False"
| "f64_lt x NaN = False"
| "f64_lt (Inf a) (Inf b) = (a \<and> \<not> b)"
| "f64_lt (Inf a) (Fin b n) = a"
| "f64_lt (Fin a m) (Inf b) = (\<not> b)"
| "f64_lt (Fin a m) (Fin b n) = (signed a m < signed b n)"

definition f64_gt :: "f64 \<Rightarrow> f64 \<Rightarrow> bool" where
  "f64_gt x y = f64_lt y x"

text \<open>\<open><=\<close>: false on NaN.\<close>

definition f64_le :: "f64 \<Rightarrow> f64 \<Rightarrow> bool" where
  "f64_le x y = (x \<noteq> NaN \<and> y \<noteq> NaN \<and> \<not> f64_lt y x)"

definition f64_zero :: f64 where
  "f64_zero = Fin False 0"

definition f64_one :: f64 where
  "f64_one = Fin False (2 ^ 1074)"

definition f64_neg_one :: f64 where
  "f64_neg_one = Fin True (2 ^ 1074)"

text \<open>The double nearest to 0.05 is \<open>7205759403792794 * 2 ^ -57\<close>.\<close>

definition f64_0_05 :: f64 where
  "f64_0_05 = Fin False (7205759403792794 * 2 ^ 1017)"

text \<open>The magnitudes a double can have: a multiple of its last place, below the overflow bound.\<close>

definition representable :: "nat \<Rightarrow> bool" where
  "representable n = (n < 2 ^ 2098 \<and> 2 ^ (bitlen n - 53) dvd n)"

fun wf_f64 :: "f64 \<Rightarrow> bool" where
  "wf_f64 NaN = True"
| "wf_f64 (Inf a) = True"
| "wf_f64 (Fin a n) = representable n"

fun is_finite :: "f64 \<Rightarrow> bool" where
  "is_finite (Fin a n) = True"
| "is_finite x = False"

section \<open>Lemmas: bit length\<close>

lemma bitlen_0 [simp]: "bitlen 0 = 0"
  by (subst bitlen.simps) simp

lemma bitlen_double: "0 < n \<Longrightarrow> bitlen n = Suc (bitlen (n div 2))"
  by (subst bitlen.simps) simp

lemma bitlen_bounds: "0 < n \<Longrightarrow> 2 ^ (bitlen n - 1) \<le> n \<and> n < 2 ^ bitlen n"
proof (induction n rule: bitlen.induct)
  case (1 n)
  show ?case
  proof (cases "n div 2 = 0")
    case True
    with "1.prems" have "n = 1" by simp
    then show ?thesis by (simp add: bitlen_double)
  next
    case False
    let ?b = "bitlen (n div 2)"
    from False have "0 < n div 2" by simp
    with "1.IH" "1.prems" have ih: "2 ^ (?b - 1) \<le> n div 2 \<and> n div 2 < 2 ^ ?b" by simp
    have "0 < ?b" using False by (subst bitlen.simps) simp
    then have "(2::nat) ^ ?b = 2 * 2 ^ (?b - 1)" by (simp add: power_eq_if)
    moreover have "2 * (n div 2) \<le> n" and "n < 2 * (n div 2) + 2" by simp_all
    ultimately have "2 ^ ?b \<le> n" and "n < 2 * 2 ^ ?b" using ih by linarith+
    moreover have "bitlen n = Suc ?b" using "1.prems" by (rule bitlen_double)
    ultimately show ?thesis by simp
  qed
qed

lemma less_power_bitlen: "n < 2 ^ bitlen n"
  using bitlen_bounds [of n] by (cases "n = 0") auto

lemma bitlen_le_iff: "bitlen n \<le> k \<longleftrightarrow> n < 2 ^ k"
proof
  assume "bitlen n \<le> k"
  then have "(2::nat) ^ bitlen n \<le> 2 ^ k" by simp
  with less_power_bitlen [of n] show "n < 2 ^ k" by (rule less_le_trans)
next
  assume less: "n < 2 ^ k"
  show "bitlen n \<le> k"
  proof (rule ccontr)
    assume "\<not> bitlen n \<le> k"
    then have "k \<le> bitlen n - 1" and pos: "0 < n" by (auto intro: Nat.gr0I)
    then have "(2::nat) ^ k \<le> 2 ^ (bitlen n - 1)" by simp
    also have "\<dots> \<le> n" using bitlen_bounds [OF pos] by simp
    finally show False using less by simp
  qed
qed

lemma bitlen_mono: "m \<le> n \<Longrightarrow> bitlen m \<le> bitlen n"
  using less_power_bitlen [of n] by (simp add: bitlen_le_iff)

section \<open>Lemmas: rounding\<close>

lemma rne_exact [simp]: "rne (q * 2 ^ t) t = q"
  by (simp add: rne_def)

lemma rne_0 [simp]: "rne p 0 = p"
  by (simp add: rne_def)

text \<open>A value below a whole number rounds to at most that number.\<close>

lemma rne_le:
  assumes "p \<le> q * 2 ^ t"
  shows "rne p t \<le> q"
proof (cases "p div 2 ^ t = q")
  case True
  have "p = p div 2 ^ t * 2 ^ t + p mod 2 ^ t" by (rule div_mult_mod_eq [symmetric])
  with assms True have "p mod 2 ^ t = 0" by (metis add_le_same_cancel1 le_zero_eq)
  with True show ?thesis by (simp add: rne_def)
next
  case False
  moreover have "p div 2 ^ t \<le> q * 2 ^ t div 2 ^ t" using assms by (rule div_le_mono)
  ultimately have "p div 2 ^ t < q" by simp
  then show ?thesis by (simp add: rne_def Let_def)
qed

text \<open>Rounding never passes a representable bound: the monotonicity the simulation relies on.\<close>

lemma round_units_le:
  assumes "representable r" and "p \<le> r * 2 ^ d"
  shows "round_units p d \<le> r"
proof -
  let ?sh = "bitlen (p div 2 ^ d) - 53"
  have "p div 2 ^ d \<le> r" using assms(2)
    by (metis div_le_mono nonzero_mult_div_cancel_right power_not_zero zero_neq_numeral)
  then have "bitlen (p div 2 ^ d) \<le> bitlen r" by (rule bitlen_mono)
  then have "?sh \<le> bitlen r - 53" by simp
  then have "(2::nat) ^ ?sh dvd 2 ^ (bitlen r - 53)" by (rule le_imp_power_dvd)
  then have "2 ^ ?sh dvd r" using assms(1) by (auto simp: representable_def intro: dvd_trans)
  then obtain q where r: "r = q * 2 ^ ?sh" by (metis dvd_def mult.commute)
  with assms(2) have "p \<le> q * 2 ^ (d + ?sh)" by (simp add: power_add mult_ac)
  then have "rne p (d + ?sh) \<le> q" by (rule rne_le)
  then show ?thesis by (simp add: round_units_def Let_def r)
qed

text \<open>Representable values are fixed points of rounding.\<close>

lemma round_units_exact:
  assumes "representable r"
  shows "round_units (r * 2 ^ d) d = r"
proof -
  obtain q where r: "r = q * 2 ^ (bitlen r - 53)"
    using assms by (metis representable_def dvd_def mult.commute)
  have "r * 2 ^ d = q * 2 ^ (d + (bitlen r - 53))"
    by (subst r) (simp add: power_add mult_ac)
  then have "rne (r * 2 ^ d) (d + (bitlen r - 53)) = q" by simp
  then show ?thesis using r by (simp add: round_units_def Let_def)
qed

text \<open>The result of rounding is a multiple of its last place.\<close>

lemma round_units_representable:
  assumes "round_units p d < 2 ^ 2098"
  shows "representable (round_units p d)"
proof -
  let ?n = "p div 2 ^ d" and ?sh = "bitlen (p div 2 ^ d) - 53"
  let ?m = "rne p (d + ?sh)"
  have m: "?m \<le> 2 ^ 53"
  proof (rule rne_le)
    have "p < 2 ^ d + ?n * 2 ^ d" by (rule dividend_less_div_times) simp
    then have "p \<le> (?n + 1) * 2 ^ d" by simp
    also have "\<dots> \<le> 2 ^ bitlen ?n * 2 ^ d"
      using less_power_bitlen [of ?n] by (intro mult_le_mono1) simp
    also have "\<dots> \<le> 2 ^ (53 + ?sh) * 2 ^ d"
      by (intro mult_le_mono1 power_increasing) auto
    also have "\<dots> = 2 ^ 53 * 2 ^ (d + ?sh)" by (simp only: power_add mult_ac)
    finally show "p \<le> 2 ^ 53 * 2 ^ (d + ?sh)" .
  qed
  have dvd: "2 ^ (bitlen (?m * 2 ^ ?sh) - 53) dvd ?m * 2 ^ ?sh"
  proof (cases "?m = 2 ^ 53")
    case True
    then have e: "?m * 2 ^ ?sh = 2 ^ (53 + ?sh)" by (simp add: power_add)
    have "bitlen (2 ^ (53 + ?sh)) \<le> Suc (53 + ?sh)" by (simp add: bitlen_le_iff)
    then show ?thesis unfolding e by (intro le_imp_power_dvd) simp
  next
    case False
    with m have "?m * 2 ^ ?sh < 2 ^ 53 * 2 ^ ?sh" by simp
    then have "bitlen (?m * 2 ^ ?sh) \<le> 53 + ?sh" by (simp add: bitlen_le_iff power_add)
    then have "(2::nat) ^ (bitlen (?m * 2 ^ ?sh) - 53) dvd 2 ^ ?sh"
      by (intro le_imp_power_dvd) simp
    then show ?thesis by simp
  qed
  with assms show ?thesis by (simp add: representable_def round_units_def Let_def)
qed

section \<open>Lemmas: the operations stay inside binary64\<close>

lemma wf_pack: "wf_f64 (pack neg (round_units p d))"
  by (simp add: pack_def round_units_representable)

lemma representable_0 [simp]: "representable 0"
  by (simp add: representable_def)

lemma wf_f64_add: "wf_f64 x \<Longrightarrow> wf_f64 y \<Longrightarrow> wf_f64 (f64_add x y)"
  by (induction x y rule: f64_add.induct) (auto simp: Let_def wf_pack)

lemma wf_f64_mul: "wf_f64 x \<Longrightarrow> wf_f64 y \<Longrightarrow> wf_f64 (f64_mul x y)"
  by (induction x y rule: f64_mul.induct) (auto simp: wf_pack)

text \<open>NaN absorbs: once a coordinate is NaN, no sum leaves it.\<close>

lemma f64_add_NaN_right [simp]: "f64_add x NaN = NaN"
  by (cases x) auto

lemma f64_mul_NaN_right [simp]: "f64_mul x NaN = NaN"
  by (cases x) auto

lemma f64_lt_NaN_right [simp]: "\<not> f64_lt x NaN"
  by (cases x) auto

text \<open>Multiplying by a factor of magnitude at most one does not increase the magnitude.\<close>

lemma f64_mul_unit_bound:
  assumes "m \<le> 2 ^ 1074" and "representable n"
  shows "\<exists>k. f64_mul (Fin a m) (Fin b n) = Fin (a \<noteq> b) k \<and> k \<le> n"
proof -
  have "m * n \<le> n * 2 ^ 1074" using assms(1) by (simp add: mult.commute)
  then have "round_units (m * n) 1074 \<le> n" by (rule round_units_le [OF assms(2)])
  moreover from this have "round_units (m * n) 1074 < 2 ^ 2098"
    using assms(2) by (auto simp: representable_def)
  ultimately show ?thesis by (auto simp: pack_def)
qed

lemma f64_mul_one:
  assumes "representable n"
  shows "f64_mul (Fin a (2 ^ 1074)) (Fin b n) = Fin (a \<noteq> b) n"
proof -
  have "round_units (n * 2 ^ 1074) 1074 = n" using assms by (rule round_units_exact)
  then show ?thesis using assms by (simp add: pack_def representable_def mult.commute)
qed

lemma f64_add_zero:
  assumes "representable n" and "0 < n"
  shows "f64_add (Fin a 0) (Fin b n) = Fin b n" "f64_add (Fin b n) (Fin a 0) = Fin b n"
proof -
  have "round_units n 0 = n" using round_units_exact [OF assms(1), of 0] by simp
  with assms show "f64_add (Fin a 0) (Fin b n) = Fin b n" "f64_add (Fin b n) (Fin a 0) = Fin b n"
    by (auto simp: signed_def pack_def representable_def Let_def)
qed

lemma representable_small_shift:
  assumes "m < 2 ^ 53" and "k \<le> 2045"
  shows "representable (m * 2 ^ k)"
proof (cases "m = 0")
  case False
  have "m * 2 ^ k < 2 ^ 53 * 2 ^ k" using assms(1) by simp
  then have b: "m * 2 ^ k < 2 ^ (53 + k)" by (simp add: power_add)
  then have "bitlen (m * 2 ^ k) \<le> 53 + k" by (simp add: bitlen_le_iff)
  then have "(2::nat) ^ (bitlen (m * 2 ^ k) - 53) dvd 2 ^ k" by (intro le_imp_power_dvd) simp
  moreover have "(2::nat) ^ (53 + k) \<le> 2 ^ 2098" using assms(2) by (intro power_increasing) auto
  then have "m * 2 ^ k < 2 ^ 2098" using b by (rule less_le_trans [rotated])
  ultimately show ?thesis by (simp add: representable_def)
qed simp

lemma representable_one: "representable (2 ^ 1074)"
  using representable_small_shift [of 1 1074] by simp

lemma wf_f64_consts [simp]:
  "wf_f64 f64_zero" "wf_f64 f64_one" "wf_f64 f64_neg_one" "wf_f64 f64_0_05"
proof -
  show "wf_f64 f64_0_05"
    unfolding f64_0_05_def wf_f64.simps by (rule representable_small_shift) simp_all
qed (simp_all add: f64_zero_def f64_one_def f64_neg_one_def representable_one
      del: power_numeral)

end
