(* ===== verification/Domain.thy ===== *)
theory Domain
  imports Go_Strings Go_Float64
begin

text \<open>
  The domain models of \<open>internal/domain/models.go\<close> as records, and Go time: an
  instant is a number of nanoseconds since the Unix epoch, a duration a number of
  nanoseconds.
\<close>

section \<open>Time\<close>

type_synonym time = int
type_synonym duration = int

definition Millisecond :: duration where
  "Millisecond = 1000000"

definition Second :: duration where
  "Second = 1000000000"

text \<open>The zero \<open>time.Time\<close> is 1 January of year 1; \<open>IsZero\<close> tests for it.\<close>

definition zero_time :: time where
  "zero_time = - 62135596800 * 1000000000"

text \<open>\<open>time.Until(t)\<close> read at the instant \<open>now\<close>: the difference, saturated to 64 bits.\<close>

definition Until :: "time \<Rightarrow> time \<Rightarrow> duration" where
  "Until now t = max (- (2 ^ 63)) (min (2 ^ 63 - 1) (t - now))"

lemma Until_pos [simp]: "0 < Until now t \<longleftrightarrow> now < t"
  by (simp add: Until_def less_max_iff_disj)

lemma Until_exact: "now \<le> t \<Longrightarrow> t - now < 2 ^ 63 \<Longrightarrow> Until now t = t - now"
  by (simp add: Until_def)

text \<open>Integer division of Go: it truncates towards zero.\<close>

definition go_div :: "int \<Rightarrow> int \<Rightarrow> int" where
  "go_div a b = sgn a * sgn b * (\<bar>a\<bar> div \<bar>b\<bar>)"

section \<open>Models\<close>

record User =
  user_ID :: string
  user_Email :: string
  user_PasswordHash :: string
  user_CreatedAt :: time
  user_UpdatedAt :: time

record Vec2 =
  X :: f64
  Y :: f64

record Character =
  char_ID :: string
  char_UserID :: string
  char_Name :: string
  char_MapID :: string
  char_Position :: Vec2
  char_CreatedAt :: time
  char_UpdatedAt :: time

record JoinToken =
  jt_Token :: string
  jt_UserID :: string
  jt_CharacterID :: string
  jt_ServerID :: string
  jt_ServerAddr :: string
  jt_ExpiresAt :: time

record GameServer =
  gs_ID :: string
  gs_Addr :: string
  gs_ExpiresAt :: time

end
