(* ===== verification/Validate.thy ===== *)
theory Validate
  imports Domain
begin

text \<open>
  Input validation, \<open>internal/validate/validate.go\<close>: identifiers, tokens, server
  addresses, email addresses and character names, with every branch of the source.
  The Unicode tables and the two parsers the package calls (IDNA, RFC 5322) are the
  fields of \<open>text_lib\<close>.
\<close>

section \<open>Definitions\<close>

text \<open>
  \<open>lower_uni\<close>: \<open>strings.ToLower\<close> on non-ASCII text; \<open>idna_to_ascii\<close>:
  \<open>idna.Lookup.ToASCII\<close>; \<open>parse_address\<close>: the \<open>Address\<close> field that
  \<open>mail.ParseAddress\<close> returns; \<open>nfc\<close>: \<open>norm.NFC.String\<close>;
  \<open>letter_or_number\<close>: the classes L and N on runes from U+0080 on.
\<close>

record text_lib =
  lower_uni :: "string \<Rightarrow> string"
  idna_to_ascii :: "string \<Rightarrow> string option"
  parse_address :: "string \<Rightarrow> string option"
  nfc :: "string \<Rightarrow> string"
  letter_or_number :: "nat \<Rightarrow> bool"

definition MaxEmailBytes :: nat where
  "MaxEmailBytes = 320"

definition MinCharacterNameRunes :: nat where
  "MinCharacterNameRunes = 3"

definition MaxCharacterNameRunes :: nat where
  "MaxCharacterNameRunes = 24"

definition maxIDBytes :: nat where
  "maxIDBytes = 64"

definition maxTokenBytes :: nat where
  "maxTokenBytes = 128"

definition maxAddressBytes :: nat where
  "maxAddressBytes = 255"

definition invalid :: "string \<Rightarrow> 'a result" where
  "invalid msg = Inl (Wrap msg [Sentinel ErrInvalidArgument])"

definition control_whitespace :: string where
  "control_whitespace = [CHR 0x09, CHR 0x0D, CHR 0x0A]"

definition requiredKeySegment :: "string \<Rightarrow> string \<Rightarrow> nat \<Rightarrow> string result" where
  "requiredKeySegment field val maxBytes =
     (let v = TrimSpace val
      in if v = [] then invalid (field @ '' is required'')
         else if length v > maxBytes then
           invalid (field @ '' must be at most '' @ nat_to_dec maxBytes @ '' bytes'')
         else if ContainsAny v (CHR 0x20 # control_whitespace) then
           invalid (field @ '' must not contain whitespace'')
         else if contains_byte v (CHR 0x3A) then
           invalid (field @ '' must not contain colon'')
         else Inr v)"

definition RequiredID :: "string \<Rightarrow> string \<Rightarrow> string result" where
  "RequiredID field val = requiredKeySegment field val maxIDBytes"

definition UserID :: "string \<Rightarrow> string result" where
  "UserID val = requiredKeySegment ''user ID'' val maxIDBytes"

definition CharacterID :: "string \<Rightarrow> string result" where
  "CharacterID val = requiredKeySegment ''character ID'' val maxIDBytes"

definition GameServerID :: "string \<Rightarrow> string result" where
  "GameServerID val = requiredKeySegment ''game server ID'' val maxIDBytes"

definition OptionalGameServerID :: "string \<Rightarrow> string result" where
  "OptionalGameServerID val =
     (let v = TrimSpace val in if v = [] then Inr [] else GameServerID v)"

definition SessionToken :: "string \<Rightarrow> string result" where
  "SessionToken val = requiredKeySegment ''session token'' val maxTokenBytes"

definition JoinTokenID :: "string \<Rightarrow> string result" where
  "JoinTokenID val = requiredKeySegment ''join token'' val maxTokenBytes"

definition ServerAddress :: "string \<Rightarrow> string result" where
  "ServerAddress val =
     (let v = TrimSpace val
      in if v = [] then invalid ''server address is required''
         else if length v > maxAddressBytes then
           invalid (''server address must be at most '' @ nat_to_dec maxAddressBytes @ '' bytes'')
         else if ContainsAny v control_whitespace then
           invalid ''server address must not contain control whitespace''
         else Inr v)"

text \<open>The second half of \<open>Email\<close>, from the IDNA conversion of the domain on.\<close>

definition emailFinish :: "text_lib \<Rightarrow> string \<Rightarrow> string \<Rightarrow> string result" where
  "emailFinish lib local_part rawDomain =
     (case idna_to_ascii lib rawDomain of
        None \<Rightarrow> invalid ''email domain is invalid''
      | Some asciiDomain \<Rightarrow>
          let email = local_part @ CHR ''@'' # asciiDomain
          in if length email > MaxEmailBytes then
               invalid (''email must be at most '' @ nat_to_dec MaxEmailBytes @ '' bytes'')
             else case parse_address lib email of
               None \<Rightarrow> invalid ''email is invalid''
             | Some addr \<Rightarrow> if addr \<noteq> email then invalid ''email is invalid'' else Inr email)"

definition Email :: "text_lib \<Rightarrow> string \<Rightarrow> string result" where
  "Email lib email0 =
     (let email = TrimSpace (ToLower (lower_uni lib) email0)
      in if email = [] then invalid ''email is required''
         else case Cut email (CHR ''@'') of (local_part, rawDomain, ok) \<Rightarrow>
           if \<not> ok \<or> local_part = [] \<or> rawDomain = [] \<or> contains_byte rawDomain (CHR ''@'')
           then invalid ''email is invalid''
           else emailFinish lib local_part rawDomain)"

text \<open>The class \<open>[\p{L}\p{N} ._'\-]\<close> of \<open>characterNamePattern\<close> on one rune.\<close>

definition name_rune :: "text_lib \<Rightarrow> nat \<Rightarrow> bool" where
  "name_rune lib r =
     (if r < 128 then
        (48 \<le> r \<and> r \<le> 57) \<or> (65 \<le> r \<and> r \<le> 90) \<or> (97 \<le> r \<and> r \<le> 122) \<or>
        r \<in> {32, 46, 95, 39, 45}
      else letter_or_number lib r)"

definition characterNamePattern :: "text_lib \<Rightarrow> string \<Rightarrow> bool" where
  "characterNamePattern lib s = (runes s \<noteq> [] \<and> list_all (name_rune lib) (runes s))"

definition CharacterName :: "text_lib \<Rightarrow> string \<Rightarrow> string result" where
  "CharacterName lib name0 =
     (let name = nfc lib (TrimSpace name0)
      in if name = [] then invalid ''character name is required''
         else let runeCount = RuneCountInString name
         in if runeCount < MinCharacterNameRunes then
              invalid (''character name must be at least '' @ nat_to_dec MinCharacterNameRunes @ '' characters'')
            else if runeCount > MaxCharacterNameRunes then
              invalid (''character name must be at most '' @ nat_to_dec MaxCharacterNameRunes @ '' characters'')
            else if ContainsAny name control_whitespace then
              invalid ''character name must not contain control whitespace''
            else if \<not> characterNamePattern lib name then
              invalid ''character name contains unsupported characters''
            else Inr name)"

section \<open>Lemmas\<close>

lemma errors_is_invalid:
  "invalid msg = Inl e \<Longrightarrow> errors_is e t \<longleftrightarrow> t = ErrInvalidArgument"
  by (auto simp: invalid_def)

lemma invalid_not_Inr [simp]: "invalid msg \<noteq> Inr v"
  by (simp add: invalid_def)

text \<open>What an accepted identifier looks like, whatever the field and the bound.\<close>

definition key_segment :: "nat \<Rightarrow> string \<Rightarrow> bool" where
  "key_segment n v =
     (v \<noteq> [] \<and> length v \<le> n \<and> TrimSpace v = v \<and>
      \<not> ContainsAny v (CHR 0x20 # control_whitespace) \<and> \<not> contains_byte v (CHR 0x3A))"

lemma requiredKeySegment_Inr:
  "requiredKeySegment f v n = Inr w \<longleftrightarrow> w = TrimSpace v \<and> key_segment n w"
  by (auto simp: requiredKeySegment_def key_segment_def Let_def)

lemma requiredKeySegment_Inl:
  "requiredKeySegment f v n = Inl e \<Longrightarrow> errors_is e t \<longleftrightarrow> t = ErrInvalidArgument"
  by (auto simp: invalid_def requiredKeySegment_def Let_def split: if_splits)

lemma requiredKeySegment_id: "key_segment n v \<Longrightarrow> requiredKeySegment f v n = Inr v"
  by (simp add: requiredKeySegment_Inr key_segment_def)

lemma key_segment_trim: "key_segment n v \<Longrightarrow> TrimSpace v = v"
  by (simp add: key_segment_def)

lemma key_segment_mono: "key_segment m v \<Longrightarrow> m \<le> n \<Longrightarrow> key_segment n v"
  by (simp add: key_segment_def)

lemma ids_Inr:
  "RequiredID f v = Inr w \<longleftrightarrow> w = TrimSpace v \<and> key_segment maxIDBytes w"
  "UserID v = Inr w \<longleftrightarrow> w = TrimSpace v \<and> key_segment maxIDBytes w"
  "CharacterID v = Inr w \<longleftrightarrow> w = TrimSpace v \<and> key_segment maxIDBytes w"
  "GameServerID v = Inr w \<longleftrightarrow> w = TrimSpace v \<and> key_segment maxIDBytes w"
  "SessionToken v = Inr w \<longleftrightarrow> w = TrimSpace v \<and> key_segment maxTokenBytes w"
  "JoinTokenID v = Inr w \<longleftrightarrow> w = TrimSpace v \<and> key_segment maxTokenBytes w"
  by (simp_all add: RequiredID_def UserID_def CharacterID_def GameServerID_def
      SessionToken_def JoinTokenID_def requiredKeySegment_Inr)

lemma ids_id [simp]:
  "key_segment maxIDBytes v \<Longrightarrow> RequiredID f v = Inr v"
  "key_segment maxIDBytes v \<Longrightarrow> UserID v = Inr v"
  "key_segment maxIDBytes v \<Longrightarrow> CharacterID v = Inr v"
  "key_segment maxIDBytes v \<Longrightarrow> GameServerID v = Inr v"
  "key_segment maxTokenBytes v \<Longrightarrow> SessionToken v = Inr v"
  "key_segment maxTokenBytes v \<Longrightarrow> JoinTokenID v = Inr v"
  by (simp_all add: RequiredID_def UserID_def CharacterID_def GameServerID_def
      SessionToken_def JoinTokenID_def requiredKeySegment_id)

lemma ids_required: "key_segment maxIDBytes (TrimSpace v) \<Longrightarrow> RequiredID f v = Inr (TrimSpace v)"
  by (simp add: ids_Inr)

lemma ids_Inl:
  "RequiredID f v = Inl e \<Longrightarrow> errors_is e t \<longleftrightarrow> t = ErrInvalidArgument"
  "UserID v = Inl e \<Longrightarrow> errors_is e t \<longleftrightarrow> t = ErrInvalidArgument"
  "CharacterID v = Inl e \<Longrightarrow> errors_is e t \<longleftrightarrow> t = ErrInvalidArgument"
  "GameServerID v = Inl e \<Longrightarrow> errors_is e t \<longleftrightarrow> t = ErrInvalidArgument"
  "SessionToken v = Inl e \<Longrightarrow> errors_is e t \<longleftrightarrow> t = ErrInvalidArgument"
  "JoinTokenID v = Inl e \<Longrightarrow> errors_is e t \<longleftrightarrow> t = ErrInvalidArgument"
  unfolding RequiredID_def UserID_def CharacterID_def GameServerID_def
      SessionToken_def JoinTokenID_def
  by (blast dest: requiredKeySegment_Inl)+

lemma OptionalGameServerID_Inr:
  "OptionalGameServerID v = Inr w \<longleftrightarrow>
     w = TrimSpace v \<and> (w = [] \<or> key_segment maxIDBytes w)"
  by (auto simp: OptionalGameServerID_def Let_def ids_Inr key_segment_def)

lemma ServerAddress_Inr_iff:
  "ServerAddress v = Inr w \<longleftrightarrow>
     w = TrimSpace v \<and> w \<noteq> [] \<and> length w \<le> maxAddressBytes \<and> \<not> ContainsAny w control_whitespace"
  by (auto simp: ServerAddress_def Let_def)

lemma ServerAddress_Inl:
  "ServerAddress v = Inl e \<Longrightarrow> errors_is e t \<longleftrightarrow> t = ErrInvalidArgument"
  by (auto simp: invalid_def ServerAddress_def Let_def split: if_splits)

text \<open>Strings of printable ASCII without space and colon are their own validated form.\<close>

lemma plain_byte_not_space: "plain_byte c \<Longrightarrow> c \<notin> set (CHR 0x20 # control_whitespace)"
  by (auto simp: control_whitespace_def plain_byte_def)

lemma key_segment_plain:
  assumes "list_all (\<lambda>c. plain_byte c \<and> c \<noteq> CHR 0x3A) v" and "v \<noteq> []" and "length v \<le> n"
  shows "key_segment n v"
proof -
  have "list_all plain_byte v" using assms(1) by (auto simp: list_all_iff)
  then have "TrimSpace v = v" by (rule TrimSpace_plain)
  moreover have "\<not> ContainsAny v (CHR 0x20 # control_whitespace)"
    using \<open>list_all plain_byte v\<close> plain_byte_not_space
    unfolding ContainsAny_def list_ex_iff list_all_iff by blast
  ultimately show ?thesis
    using assms by (auto simp: key_segment_def contains_byte_def list_all_iff)
qed

lemma emailFinish_Inr:
  "emailFinish lib l d = Inr w \<longleftrightarrow>
     (\<exists>a. idna_to_ascii lib d = Some a \<and> w = l @ CHR ''@'' # a) \<and>
     length w \<le> MaxEmailBytes \<and> parse_address lib w = Some w"
proof (cases "idna_to_ascii lib d")
  case None
  then show ?thesis by (simp add: emailFinish_def)
next
  case (Some a)
  show ?thesis
  proof (cases "parse_address lib (l @ CHR ''@'' # a)")
    case None
    with Some show ?thesis by (auto simp: emailFinish_def Let_def)
  next
    case (Some b)
    with \<open>idna_to_ascii lib d = Some a\<close> show ?thesis
      by (auto simp: emailFinish_def Let_def)
  qed
qed

lemma emailFinish_Inl:
  "emailFinish lib l d = Inl e \<Longrightarrow> errors_is e t \<longleftrightarrow> t = ErrInvalidArgument"
  by (auto simp: invalid_def emailFinish_def Let_def split: option.splits if_splits)

lemma Cut_True:
  assumes "Cut s c = (l, d, True)"
  shows "s = l @ c # d" and "c \<notin> set l"
proof -
  from assms have c: "c \<in> set s" and l: "l = takeWhile (\<lambda>x. x \<noteq> c) s"
    and d: "d = tl (dropWhile (\<lambda>x. x \<noteq> c) s)"
    by (auto simp: Cut_def split: if_splits)
  have "dropWhile (\<lambda>x. x \<noteq> c) s = c # d"
    using c unfolding d
    by (metis (mono_tags, lifting) dropWhile_eq_Nil_conv hd_dropWhile list.collapse)
  then show "s = l @ c # d" using l by (metis takeWhile_dropWhile_id)
  show "c \<notin> set l" unfolding l by (auto dest: set_takeWhileD)
qed

lemma Email_Inr:
  assumes "Email lib e = Inr w"
  obtains l d where "TrimSpace (ToLower (lower_uni lib) e) = l @ CHR ''@'' # d"
    and "l \<noteq> []" and "d \<noteq> []" and "CHR ''@'' \<notin> set l" and "CHR ''@'' \<notin> set d"
    and "emailFinish lib l d = Inr w"
proof -
  obtain l d ok where c: "Cut (TrimSpace (ToLower (lower_uni lib) e)) (CHR ''@'') = (l, d, ok)"
    by (metis prod_cases3)
  with assms have "ok" "l \<noteq> []" "d \<noteq> []" "CHR ''@'' \<notin> set d" "emailFinish lib l d = Inr w"
    unfolding Email_def Let_def contains_byte_def
    by (simp_all split: if_splits)
  moreover from this c have "TrimSpace (ToLower (lower_uni lib) e) = l @ CHR ''@'' # d"
    and "CHR ''@'' \<notin> set l"
    by (simp_all add: Cut_True)
  ultimately show ?thesis using that by blast
qed

lemma CharacterName_Inr:
  assumes "CharacterName lib s = Inr w"
  shows "w = nfc lib (TrimSpace s)"
    and "MinCharacterNameRunes \<le> RuneCountInString w"
    and "RuneCountInString w \<le> MaxCharacterNameRunes"
    and "list_all (name_rune lib) (runes w)"
    and "\<not> ContainsAny w control_whitespace"
  using assms by (auto simp: CharacterName_def Let_def characterNamePattern_def split: if_splits)

lemma Email_Inl: "Email lib v = Inl e \<Longrightarrow> errors_is e t \<longleftrightarrow> t = ErrInvalidArgument"
  unfolding Email_def Let_def
  by (simp split: if_splits prod.splits) (auto simp: invalid_def dest: emailFinish_Inl)

lemma CharacterName_Inl:
  "CharacterName lib v = Inl e \<Longrightarrow> errors_is e t \<longleftrightarrow> t = ErrInvalidArgument"
  by (auto simp: invalid_def CharacterName_def Let_def split: if_splits)

end
