(* ===== verification/Cache_Keys.thy ===== *)
theory Cache_Keys
  imports Validate
begin

text \<open>
  Redis key construction, \<open>internal/cache/keys.go\<close>: the \<open>KeyBuilder\<close>, its
  validation of segments and the key families. The lemmas show that keys determine the
  namespace and the segments they were built from, so that no two families, identifiers
  or environments can collide.
\<close>

section \<open>Definitions\<close>

definition keySeparator :: char where
  "keySeparator = CHR 0x3A"

definition DefaultJoinTokenTTL :: duration where
  "DefaultJoinTokenTTL = 60 * Second"

definition DefaultServerTTL :: duration where
  "DefaultServerTTL = 10 * Second"

definition DefaultCharacterLockTTL :: duration where
  "DefaultCharacterLockTTL = 20 * Second"

definition DefaultSessionTTL :: duration where
  "DefaultSessionTTL = 2 * 3600 * Second"

record KeyBuilder =
  kb_prefix :: string

definition validateSegment :: "string \<Rightarrow> unit result" where
  "validateSegment seg =
     (if TrimSpace seg = [] \<or> contains_byte seg keySeparator \<or>
         ContainsAny seg (CHR 0x20 # control_whitespace)
      then Inl (Sentinel ErrInvalidSegment) else Inr ())"

definition NewKeyBuilder :: "string \<Rightarrow> string \<Rightarrow> KeyBuilder result" where
  "NewKeyBuilder app env =
     bindE (mapErr (\<lambda>e. Wrap ''app segment'' [e]) (validateSegment app)) (\<lambda>_.
     bindE (mapErr (\<lambda>e. Wrap ''env segment'' [e]) (validateSegment env)) (\<lambda>_.
     Inr \<lparr>kb_prefix = app @ keySeparator # env\<rparr>))"

definition MustNewKeyBuilder :: "string \<Rightarrow> string \<Rightarrow> KeyBuilder outcome" where
  "MustNewKeyBuilder app env = (case NewKeyBuilder app env of Inl err \<Rightarrow> Panicked | Inr kb \<Rightarrow> Returned kb)"

definition Prefix :: "KeyBuilder \<Rightarrow> string" where
  "Prefix k = kb_prefix k"

text \<open>The loop over the parts returns at the first invalid one.\<close>

fun validateParts :: "string list \<Rightarrow> unit result" where
  "validateParts [] = Inr ()"
| "validateParts (p # ps) =
     bindE (mapErr (\<lambda>e. Wrap (''segment '' @ p) [e]) (validateSegment p)) (\<lambda>_. validateParts ps)"

definition build :: "KeyBuilder \<Rightarrow> string list \<Rightarrow> string result" where
  "build k parts =
     (if kb_prefix k = [] then Inl (Sentinel ErrEmptyPrefix)
      else if parts = [] then Inl (Sentinel ErrInvalidSegment)
      else bindE (validateParts parts) (\<lambda>_.
        Inr (kb_prefix k @ keySeparator # Join parts [keySeparator])))"

definition key_JoinToken :: "KeyBuilder \<Rightarrow> string \<Rightarrow> string result" where
  "key_JoinToken k tokenID = build k [''join_token'', tokenID]"

definition key_Session :: "KeyBuilder \<Rightarrow> string \<Rightarrow> string result" where
  "key_Session k sessionID = build k [''session'', sessionID]"

definition SessionPrefix :: "KeyBuilder \<Rightarrow> string result" where
  "SessionPrefix k = bindE (build k [''session'']) (\<lambda>base. Inr (base @ [keySeparator]))"

definition UserSessions :: "KeyBuilder \<Rightarrow> string \<Rightarrow> string result" where
  "UserSessions k userID = build k [''user_sessions'', userID]"

definition JoinTokenPrefix :: "KeyBuilder \<Rightarrow> string result" where
  "JoinTokenPrefix k = bindE (build k [''join_token'']) (\<lambda>base. Inr (base @ [keySeparator]))"

definition key_Server :: "KeyBuilder \<Rightarrow> string \<Rightarrow> string result" where
  "key_Server k serverID = build k [''server'', serverID]"

definition ServerPrefix :: "KeyBuilder \<Rightarrow> string result" where
  "ServerPrefix k = bindE (build k [''server'']) (\<lambda>base. Inr (base @ [keySeparator]))"

definition ServerSessions :: "KeyBuilder \<Rightarrow> string \<Rightarrow> string result" where
  "ServerSessions k serverID = build k [''server_sessions'', serverID]"

definition ServersIndex :: "KeyBuilder \<Rightarrow> string result" where
  "ServersIndex k = build k [''servers'']"

definition CharacterLock :: "KeyBuilder \<Rightarrow> string \<Rightarrow> string result" where
  "CharacterLock k characterID = build k [''character_lock'', characterID]"

definition RateLimit :: "KeyBuilder \<Rightarrow> string list \<Rightarrow> string result" where
  "RateLimit k parts = build k (''rate_limit'' # parts)"

section \<open>Lemmas\<close>

definition seg_ok :: "string \<Rightarrow> bool" where
  "seg_ok seg =
     (TrimSpace seg \<noteq> [] \<and> keySeparator \<notin> set seg \<and>
      \<not> ContainsAny seg (CHR 0x20 # control_whitespace))"

lemma validateSegment_Inr [simp]: "validateSegment seg = Inr u \<longleftrightarrow> seg_ok seg"
  by (auto simp: validateSegment_def seg_ok_def contains_byte_def)

lemma validateSegment_Inl:
  "validateSegment seg = Inl e \<longleftrightarrow> \<not> seg_ok seg \<and> e = Sentinel ErrInvalidSegment"
  by (auto simp: validateSegment_def seg_ok_def contains_byte_def)

lemma validateParts_Inr: "validateParts ps = Inr u \<longleftrightarrow> list_all seg_ok ps"
  by (induction ps) (auto simp: bindE_eq_Inr)

lemma validateParts_Inl:
  "validateParts ps = Inl e \<Longrightarrow> errors_is e t \<longleftrightarrow> t = ErrInvalidSegment"
  by (induction ps) (auto simp: bindE_eq_Inl mapErr_eq_Inl validateSegment_Inl)

lemma build_Inr:
  "build k parts = Inr key \<longleftrightarrow>
     kb_prefix k \<noteq> [] \<and> parts \<noteq> [] \<and> list_all seg_ok parts \<and>
     key = kb_prefix k @ keySeparator # Join parts [keySeparator]"
  by (auto simp: build_def bindE_eq_Inr validateParts_Inr)

text \<open>\<open>MustNewKeyBuilder\<close> panics exactly on segments that no key may contain.\<close>

lemma MustNewKeyBuilder_cases:
  "MustNewKeyBuilder app env = (if seg_ok app \<and> seg_ok env then Returned \<lparr>kb_prefix = app @ keySeparator # env\<rparr> else Panicked)"
proof -
  have "validateSegment s = (if seg_ok s then Inr () else Inl (Sentinel ErrInvalidSegment))" for s
    by (simp add: validateSegment_Inl)
  then show ?thesis by (simp add: MustNewKeyBuilder_def NewKeyBuilder_def)
qed

lemma seg_ok_no_sep: "seg_ok s \<Longrightarrow> keySeparator \<notin> set s"
  by (simp add: seg_ok_def)

lemma seg_ok_nonempty: "seg_ok s \<Longrightarrow> s \<noteq> []"
  by (auto simp: seg_ok_def)

text \<open>A validated identifier is always an acceptable key segment.\<close>

lemma key_segment_seg_ok: "key_segment n v \<Longrightarrow> seg_ok v"
  by (auto simp: key_segment_def seg_ok_def contains_byte_def keySeparator_def)

lemma seg_ok_plain:
  "list_all (\<lambda>c. plain_byte c \<and> c \<noteq> CHR 0x3A) v \<Longrightarrow> v \<noteq> [] \<Longrightarrow> seg_ok v"
  by (rule key_segment_seg_ok [of "length v"]) (simp add: key_segment_plain)

lemma families_ok [simp]:
  "seg_ok ''join_token''" "seg_ok ''session''" "seg_ok ''user_sessions''" "seg_ok ''server''"
  "seg_ok ''server_sessions''" "seg_ok ''servers''" "seg_ok ''character_lock''"
  "seg_ok ''rate_limit''" "seg_ok ''auth''"
  by (rule seg_ok_plain; simp add: plain_byte_def)+

text \<open>Joining with a separator that no part contains can be undone.\<close>

lemma Join_Cons: "ps \<noteq> [] \<Longrightarrow> Join (p # ps) sep = p @ sep @ Join ps sep"
  by (cases ps) auto

lemma Join_inject:
  assumes "Join ps [c] = Join qs [c]"
    and "ps \<noteq> []" "qs \<noteq> []" "\<forall>p\<in>set ps. c \<notin> set p" "\<forall>q\<in>set qs. c \<notin> set q"
  shows "ps = qs"
  using assms
proof (induction ps arbitrary: qs)
  case (Cons p ps)
  then obtain q qs' where qs: "qs = q # qs'" by (cases qs) auto
  consider (one_one) "ps = []" "qs' = []" | (one_many) "ps = []" "qs' \<noteq> []"
    | (many_one) "ps \<noteq> []" "qs' = []" | (many) "ps \<noteq> []" "qs' \<noteq> []" by blast
  then show ?case
  proof cases
    case one_one
    with Cons.prems qs show ?thesis by simp
  next
    case one_many
    with Cons.prems qs show ?thesis by (auto simp: Join_Cons)
  next
    case many_one
    with Cons.prems qs show ?thesis by (auto simp: Join_Cons)
  next
    case many
    with Cons.prems(1) qs have "p @ c # Join ps [c] = q @ c # Join qs' [c]"
      by (simp add: Join_Cons)
    then have "p = q \<and> Join ps [c] = Join qs' [c]"
      using Cons.prems qs by (intro append_sep_inject) auto
    with Cons.IH [of qs'] Cons.prems many qs show ?thesis by simp
  qed
qed simp

lemma build_as_Join:
  assumes "NewKeyBuilder app env = Inr k" and "build k parts = Inr key"
  shows "key = Join (app # env # parts) [keySeparator]"
    and "\<forall>p\<in>set (app # env # parts). keySeparator \<notin> set p"
proof -
  from assms(1) have k: "kb_prefix k = app @ keySeparator # env" "seg_ok app" "seg_ok env"
    by (auto simp: NewKeyBuilder_def bindE_eq_Inr)
  from assms(2) have b: "parts \<noteq> []" "list_all seg_ok parts"
    "key = kb_prefix k @ keySeparator # Join parts [keySeparator]"
    by (auto simp: build_Inr)
  show "key = Join (app # env # parts) [keySeparator]" using k b by (simp add: Join_Cons)
  show "\<forall>p\<in>set (app # env # parts). keySeparator \<notin> set p"
    using k b by (auto simp: list_all_iff seg_ok_no_sep)
qed

text \<open>Within one builder: equal keys have equal segments.\<close>

lemma build_inject:
  assumes "build k ps = Inr key" and "build k qs = Inr key"
  shows "ps = qs"
proof (rule Join_inject)
  from assms show "Join ps [keySeparator] = Join qs [keySeparator]" by (auto simp: build_Inr)
qed (use assms in \<open>auto simp: build_Inr list_all_iff seg_ok_no_sep\<close>)

lemma build_eq_iff:
  assumes "build k ps = Inr key" and "build k qs = Inr key'"
  shows "key = key' \<longleftrightarrow> ps = qs"
  using assms build_inject by auto

lemma build_error:
  "build k parts = Inl e \<Longrightarrow>
     errors_is e ErrInvalidSegment \<or> errors_is e ErrEmptyPrefix"
  by (auto simp: build_def bindE_eq_Inl validateParts_Inl split: if_splits)

lemma build_ok:
  "kb_prefix k \<noteq> [] \<Longrightarrow> list_all seg_ok parts \<Longrightarrow> parts \<noteq> [] \<Longrightarrow>
     build k parts = Inr (kb_prefix k @ keySeparator # Join parts [keySeparator])"
  by (simp add: build_Inr)

lemmas key_defs = key_JoinToken_def key_Session_def UserSessions_def key_Server_def
  ServerSessions_def ServersIndex_def CharacterLock_def RateLimit_def

text \<open>
  The keys that the bulk-revocation script forms by appending a session identifier to
  \<open>SessionPrefix\<close> are the keys \<open>Session\<close> builds for valid identifiers.
\<close>

lemma session_key_prefix:
  "SessionPrefix k = Inr pre \<Longrightarrow> key_Session k sid = Inr key \<Longrightarrow> key = pre @ sid"
  by (auto simp: SessionPrefix_def key_Session_def build_Inr bindE_eq_Inr)

section \<open>Properties\<close>

text \<open>
  C8. Namespace isolation: two keys that any two builders produce are equal only if they
  have the same application, the same environment and the same segments. Keys of
  different families, identifiers or environments therefore never collide.
\<close>

theorem key_namespace_isolation:
  assumes "NewKeyBuilder app env = Inr k" and "NewKeyBuilder app' env' = Inr k'"
    and "build k parts = Inr key" and "build k' parts' = Inr key"
  shows "app = app' \<and> env = env' \<and> parts = parts'"
proof -
  have "app # env # parts = app' # env' # parts'"
    by (rule Join_inject [where c = keySeparator])
       (use build_as_Join [OF assms(1,3)] build_as_Join [OF assms(2,4)] in auto)
  then show ?thesis by simp
qed

theorem key_namespace_isolation_witness:
  "NewKeyBuilder ''rpg'' ''local'' = Inr \<lparr>kb_prefix = ''rpg:local''\<rparr> \<and>
   build \<lparr>kb_prefix = ''rpg:local''\<rparr> [''session'', ''a1''] = Inr ''rpg:local:session:a1'' \<and>
   ''rpg'' = ''rpg'' \<and> ''local'' = ''local'' \<and> [''session'', ''a1''] = [''session'', ''a1'']"
proof -
  have so: "seg_ok ''rpg''" "seg_ok ''local''" "seg_ok ''a1''"
    by (rule seg_ok_plain; simp add: plain_byte_def)+
  have k: "NewKeyBuilder ''rpg'' ''local'' = Inr \<lparr>kb_prefix = ''rpg:local''\<rparr>"
    using so by (auto simp: NewKeyBuilder_def bindE_eq_Inr keySeparator_def)
  have b: "build \<lparr>kb_prefix = ''rpg:local''\<rparr> [''session'', ''a1''] = Inr ''rpg:local:session:a1''"
    using so by (simp add: build_Inr keySeparator_def)
  show ?thesis using k b key_namespace_isolation [OF k k b b] by blast
qed

end
