(* ===== verification/Redis_Client.thy ===== *)
theory Redis_Client
  imports Cache_Keys
begin

text \<open>
  The Redis client interface the stores are written against
  (\<open>internal/cache/redis.go\<close>, interface \<open>Client\<close>) and the error mapping of the
  stores (\<open>internal/store/redis/errors.go\<close>). Redis itself and the go-redis driver
  are not part of the repository: they are the fields of the record \<open>redis\<close>, and the
  locale \<open>redis_server\<close> states the documented behaviour of the commands through a
  view of the live keys with their remaining time to live. The last section interprets
  the locale with an in-memory server that has a clock, expiry and a network that may be
  down.
\<close>

section \<open>The interface\<close>

text \<open>Commands as the server sees them; expiry times are in milliseconds.\<close>

datatype command =
    GET string
  | SET string string int
  | SETNX string string int
  | GETDEL string
  | DEL string
  | SADD string string
  | SREM string string
  | SMEMBERS string
  | PEXPIRE string int
  | INCR string

datatype reply = RStatus | RNil | RInt int | RBulk string | RArray "string list" | RErr string

text \<open>
  \<open>rcall\<close> runs one command on the server (\<open>redis.call\<close> of a script);
  \<open>rexec\<close> sends a command or a script through the driver and returns its reply or a
  transport error; \<open>px_ms\<close> and \<open>ex_ms\<close> are the driver's conversions of a
  \<open>time.Duration\<close> for \<open>SET\<close> and for \<open>EXPIRE\<close>; the \<open>as_\<close> fields
  are the driver's readings of a reply by the result type of the method that was called.
\<close>

record 's redis =
  rcall :: "command \<Rightarrow> 's \<Rightarrow> reply \<times> 's"
  rexec :: "('s \<Rightarrow> reply \<times> 's) \<Rightarrow> 's \<Rightarrow> reply result \<times> 's"
  px_ms :: "duration \<Rightarrow> int"
  ex_ms :: "duration \<Rightarrow> int"
  as_status :: "reply \<Rightarrow> unit result"
  as_string :: "reply \<Rightarrow> string result"
  as_int :: "reply \<Rightarrow> int result"
  as_bool :: "reply \<Rightarrow> bool result"
  as_strings :: "reply \<Rightarrow> string list result"
  as_any :: "reply \<Rightarrow> reply result"

definition run_with :: "(reply \<Rightarrow> 'a result) \<Rightarrow> 's redis \<Rightarrow> ('s \<Rightarrow> reply \<times> 's) \<Rightarrow> 's \<Rightarrow> 'a result \<times> 's" where
  "run_with dec rc f s = (case rexec rc f s of (r, s') \<Rightarrow> (bindE r dec, s'))"

definition c_Set :: "'s redis \<Rightarrow> string \<Rightarrow> string \<Rightarrow> duration \<Rightarrow> 's \<Rightarrow> unit result \<times> 's" where
  "c_Set rc k v ttl = run_with (as_status rc) rc (rcall rc (SET k v (px_ms rc ttl)))"

definition c_SetNX :: "'s redis \<Rightarrow> string \<Rightarrow> string \<Rightarrow> duration \<Rightarrow> 's \<Rightarrow> bool result \<times> 's" where
  "c_SetNX rc k v ttl = run_with (as_bool rc) rc (rcall rc (SETNX k v (px_ms rc ttl)))"

definition c_Get :: "'s redis \<Rightarrow> string \<Rightarrow> 's \<Rightarrow> string result \<times> 's" where
  "c_Get rc k = run_with (as_string rc) rc (rcall rc (GET k))"

definition c_GetDel :: "'s redis \<Rightarrow> string \<Rightarrow> 's \<Rightarrow> string result \<times> 's" where
  "c_GetDel rc k = run_with (as_string rc) rc (rcall rc (GETDEL k))"

definition c_Del :: "'s redis \<Rightarrow> string \<Rightarrow> 's \<Rightarrow> int result \<times> 's" where
  "c_Del rc k = run_with (as_int rc) rc (rcall rc (DEL k))"

definition c_Eval :: "'s redis \<Rightarrow> ('s \<Rightarrow> reply \<times> 's) \<Rightarrow> 's \<Rightarrow> reply result \<times> 's" where
  "c_Eval rc script = run_with (as_any rc) rc script"

definition c_SAdd :: "'s redis \<Rightarrow> string \<Rightarrow> string \<Rightarrow> 's \<Rightarrow> int result \<times> 's" where
  "c_SAdd rc k m = run_with (as_int rc) rc (rcall rc (SADD k m))"

definition c_SMembers :: "'s redis \<Rightarrow> string \<Rightarrow> 's \<Rightarrow> string list result \<times> 's" where
  "c_SMembers rc k = run_with (as_strings rc) rc (rcall rc (SMEMBERS k))"

definition c_Expire :: "'s redis \<Rightarrow> string \<Rightarrow> duration \<Rightarrow> 's \<Rightarrow> bool result \<times> 's" where
  "c_Expire rc k ttl = run_with (as_bool rc) rc (rcall rc (PEXPIRE k (ex_ms rc ttl)))"

definition c_Incr :: "'s redis \<Rightarrow> string \<Rightarrow> 's \<Rightarrow> int result \<times> 's" where
  "c_Incr rc k = run_with (as_int rc) rc (rcall rc (INCR k))"

text \<open>\<open>redis.call\<close> in a script: an error reply aborts the script.\<close>

definition lua_do :: "reply \<times> 's \<Rightarrow> (reply \<Rightarrow> 's \<Rightarrow> reply \<times> 's) \<Rightarrow> reply \<times> 's" where
  "lua_do rs k = (case rs of (RErr m, s) \<Rightarrow> (RErr m, s) | (r, s) \<Rightarrow> k r s)"

section \<open>Error mapping of the stores\<close>

definition redisUnavailable :: "string \<Rightarrow> gerr option \<Rightarrow> gerr" where
  "redisUnavailable operation err =
     (case err of None \<Rightarrow> Sentinel ErrUnavailable
      | Some e \<Rightarrow> Wrap operation [Sentinel ErrUnavailable, e])"

definition redisInternal :: "string \<Rightarrow> gerr option \<Rightarrow> gerr" where
  "redisInternal operation err =
     (case err of None \<Rightarrow> Sentinel ErrInternal
      | Some e \<Rightarrow> Wrap operation [Sentinel ErrInternal, e])"

definition redisKeyError :: "string \<Rightarrow> gerr \<Rightarrow> gerr" where
  "redisKeyError operation e =
     (if errors_is e ErrInvalidSegment then Wrap operation [Sentinel ErrInvalidArgument]
      else if errors_is e ErrEmptyPrefix then Wrap operation [Sentinel ErrUnavailable]
      else redisUnavailable operation (Some e))"

fun truthy :: "reply \<Rightarrow> bool" where
  "truthy (RInt v) = (v > 0)"
| "truthy (RBulk v) = (v \<noteq> [] \<and> v \<noteq> ''0'')"
| "truthy r = False"

lemma redisKeyError_build:
  assumes "build k parts = Inl e"
  shows "errors_is (redisKeyError op e) ErrInvalidArgument \<or> errors_is (redisKeyError op e) ErrUnavailable"
  using build_error [OF assms] by (auto simp: redisKeyError_def)

lemma redisUnavailable_is [simp]: "errors_is (redisUnavailable op (Some e)) ErrUnavailable"
  by (simp add: redisUnavailable_def)

lemma lua_do_simps [simp]:
  "lua_do (RErr m, s) k = (RErr m, s)"
  "lua_do (RStatus, s) k = k RStatus s"
  "lua_do (RNil, s) k = k RNil s"
  "lua_do (RInt i, s) k = k (RInt i) s"
  "lua_do (RBulk v, s) k = k (RBulk v) s"
  "lua_do (RArray xs, s) k = k (RArray xs) s"
  by (simp_all add: lua_do_def)

section \<open>Documented behaviour of the server\<close>

datatype rval = RStr string | RSet "string set"

text \<open>The live keys: value and remaining time to live in milliseconds, if the key expires.\<close>

type_synonym kv = "string \<Rightarrow> (rval \<times> int option) option"

text \<open>A key that is free or holds a string.\<close>

definition str_key :: "kv \<Rightarrow> string \<Rightarrow> bool" where
  "str_key m k = (case m k of Some (RSet A, t) \<Rightarrow> False | _ \<Rightarrow> True)"

lemma str_key_cases:
  assumes "str_key m k"
  obtains (None) "m k = None" | (Str) v t where "m k = Some (RStr v, t)"
  using assms by (auto simp: str_key_def split: option.splits rval.splits)

text \<open>The documented reading of a reply; a nil reply is the error \<open>goredis.Nil\<close>.\<close>

definition decode_ok :: "reply \<Rightarrow> unit result" where
  "decode_ok r = (case r of RErr m \<Rightarrow> Inl (Opaque m) | RNil \<Rightarrow> Inl (Sentinel RedisNil) | _ \<Rightarrow> Inr ())"

definition decode_str :: "reply \<Rightarrow> string result" where
  "decode_str r = (case r of RErr m \<Rightarrow> Inl (Opaque m) | RNil \<Rightarrow> Inl (Sentinel RedisNil)
     | RBulk v \<Rightarrow> Inr v | RStatus \<Rightarrow> Inr ''OK'' | RInt i \<Rightarrow> Inr (Itoa i)
     | RArray xs \<Rightarrow> Inl (Opaque ''unexpected type''))"

definition decode_int :: "reply \<Rightarrow> int result" where
  "decode_int r = (case r of RErr m \<Rightarrow> Inl (Opaque m) | RNil \<Rightarrow> Inl (Sentinel RedisNil)
     | RInt i \<Rightarrow> Inr i | _ \<Rightarrow> Inl (Opaque ''unexpected type''))"

text \<open>\<open>SET .. NX\<close> answers OK when the key was set and nil when it was not.\<close>

definition decode_bool :: "reply \<Rightarrow> bool result" where
  "decode_bool r = (case r of RErr m \<Rightarrow> Inl (Opaque m) | RNil \<Rightarrow> Inr False | RStatus \<Rightarrow> Inr True
     | RInt i \<Rightarrow> Inr (i = 1) | _ \<Rightarrow> Inl (Opaque ''unexpected type''))"

definition decode_strs :: "reply \<Rightarrow> string list result" where
  "decode_strs r = (case r of RErr m \<Rightarrow> Inl (Opaque m) | RNil \<Rightarrow> Inl (Sentinel RedisNil)
     | RArray xs \<Rightarrow> Inr xs | _ \<Rightarrow> Inl (Opaque ''unexpected type''))"

definition decode_any :: "reply \<Rightarrow> reply result" where
  "decode_any r = (case r of RErr m \<Rightarrow> Inl (Opaque m) | RNil \<Rightarrow> Inl (Sentinel RedisNil) | _ \<Rightarrow> Inr r)"

locale redis_server =
  fixes rc :: "'s redis"
    and view :: "'s \<Rightarrow> kv"
  assumes get_none: "view s k = None \<Longrightarrow> fst (rcall rc (GET k) s) = RNil"
    and get_str: "view s k = Some (RStr v, t) \<Longrightarrow> fst (rcall rc (GET k) s) = RBulk v"
    and get_view: "view (snd (rcall rc (GET k) s)) = view s"
    and set_reply: "0 < px \<Longrightarrow> fst (rcall rc (SET k v px) s) = RStatus"
    and set_view: "0 < px \<Longrightarrow> view (snd (rcall rc (SET k v px) s)) = (view s)(k \<mapsto> (RStr v, Some px))"
    and setnx_free: "view s k = None \<Longrightarrow> 0 < px \<Longrightarrow> fst (rcall rc (SETNX k v px) s) = RStatus"
    and setnx_free_view: "view s k = None \<Longrightarrow> 0 < px \<Longrightarrow>
          view (snd (rcall rc (SETNX k v px) s)) = (view s)(k \<mapsto> (RStr v, Some px))"
    and setnx_taken: "view s k = Some x \<Longrightarrow> fst (rcall rc (SETNX k v px) s) = RNil"
    and setnx_taken_view: "view s k = Some x \<Longrightarrow> view (snd (rcall rc (SETNX k v px) s)) = view s"
    and getdel_none: "view s k = None \<Longrightarrow> fst (rcall rc (GETDEL k) s) = RNil"
    and getdel_str: "view s k = Some (RStr v, t) \<Longrightarrow> fst (rcall rc (GETDEL k) s) = RBulk v"
    and getdel_view: "str_key (view s) k \<Longrightarrow>
          view (snd (rcall rc (GETDEL k) s)) = (view s)(k := None)"
    and del_reply: "fst (rcall rc (DEL k) s) = RInt (if view s k = None then 0 else 1)"
    and del_view: "view (snd (rcall rc (DEL k) s)) = (view s)(k := None)"
    and sadd_none: "view s k = None \<Longrightarrow>
          (\<exists>n. fst (rcall rc (SADD k m) s) = RInt n) \<and>
          view (snd (rcall rc (SADD k m) s)) = (view s)(k \<mapsto> (RSet {m}, None))"
    and sadd_set: "view s k = Some (RSet A, t) \<Longrightarrow>
          (\<exists>n. fst (rcall rc (SADD k m) s) = RInt n) \<and>
          view (snd (rcall rc (SADD k m) s)) = (view s)(k \<mapsto> (RSet (insert m A), t))"
    and srem_none: "view s k = None \<Longrightarrow>
          (\<exists>n. fst (rcall rc (SREM k m) s) = RInt n) \<and> view (snd (rcall rc (SREM k m) s)) = view s"
    and srem_set: "view s k = Some (RSet A, t) \<Longrightarrow>
          (\<exists>n. fst (rcall rc (SREM k m) s) = RInt n) \<and>
          view (snd (rcall rc (SREM k m) s)) =
            (view s)(k := (if A - {m} = {} then None else Some (RSet (A - {m}), t)))"
    and smembers_none: "view s k = None \<Longrightarrow> fst (rcall rc (SMEMBERS k) s) = RArray []"
    and smembers_set: "view s k = Some (RSet A, t) \<Longrightarrow>
          \<exists>xs. fst (rcall rc (SMEMBERS k) s) = RArray xs \<and> set xs = A \<and> distinct xs"
    and smembers_view: "view (snd (rcall rc (SMEMBERS k) s)) = view s"
    and pexpire_none: "view s k = None \<Longrightarrow>
          fst (rcall rc (PEXPIRE k px) s) = RInt 0 \<and> view (snd (rcall rc (PEXPIRE k px) s)) = view s"
    and pexpire_some: "view s k = Some (y, t) \<Longrightarrow> 0 < px \<Longrightarrow>
          fst (rcall rc (PEXPIRE k px) s) = RInt 1 \<and>
          view (snd (rcall rc (PEXPIRE k px) s)) = (view s)(k \<mapsto> (y, Some px))"
    and incr_none: "view s k = None \<Longrightarrow>
          fst (rcall rc (INCR k) s) = RInt 1 \<and>
          view (snd (rcall rc (INCR k) s)) = (view s)(k \<mapsto> (RStr ''1'', None))"
    and incr_some: "view s k = Some (RStr (Itoa n), t) \<Longrightarrow> 0 \<le> n \<Longrightarrow> n < 2 ^ 63 - 1 \<Longrightarrow>
          fst (rcall rc (INCR k) s) = RInt (n + 1) \<and>
          view (snd (rcall rc (INCR k) s)) = (view s)(k \<mapsto> (RStr (Itoa (n + 1)), t))"
    and exec_reply: "rexec rc f s = (Inr r, s') \<Longrightarrow> f s = (r, s')"
    and exec_fail: "rexec rc f s = (Inl e, s') \<Longrightarrow> view s' = view s \<or> view s' = view (snd (f s))"
    and exec_fail_err: "rexec rc f s = (Inl e, s') \<Longrightarrow> \<not> errors_is e sen"
    and px_ms: "0 < d \<Longrightarrow> px_ms rc d = max 1 (d div Millisecond)"
    and ex_ms: "0 < d \<Longrightarrow> ex_ms rc d = 1000 * max 1 (d div Second)"
    and reads: "as_status rc = decode_ok" "as_string rc = decode_str" "as_int rc = decode_int"
      "as_bool rc = decode_bool" "as_strings rc = decode_strs" "as_any rc = decode_any"
begin

lemmas client_defs = c_Set_def c_SetNX_def c_Get_def c_GetDel_def c_Del_def c_Eval_def
  c_SAdd_def c_SMembers_def c_Expire_def c_Incr_def reads

lemma px_pos: "0 < d \<Longrightarrow> 0 < px_ms rc d"
  by (simp add: px_ms)

lemma ex_pos: "0 < d \<Longrightarrow> 0 < ex_ms rc d"
  by (simp add: ex_ms)

text \<open>A call that returned a value ran its command exactly once.\<close>

lemma run_with_Inr:
  assumes "run_with dec rc f s = (Inr x, s')"
  shows "snd (f s) = s' \<and> dec (fst (f s)) = Inr x"
proof -
  obtain r s'' where r: "rexec rc f s = (r, s'')" by force
  with assms obtain y where "r = Inr y" "dec y = Inr x" "s'' = s'"
    by (auto simp: run_with_def bindE_eq_Inr)
  with exec_reply [of f s y s'] r show ?thesis by simp
qed

text \<open>A call that returned an error either had no effect or the effect of its command.\<close>

lemma run_with_Inl:
  assumes "run_with dec rc f s = (Inl e, s')"
  shows "(view s' = view s \<or> view s' = view (snd (f s))) \<and>
         ((\<forall>t. \<not> errors_is e t) \<or> (s' = snd (f s) \<and> dec (fst (f s)) = Inl e))"
proof -
  obtain r s'' where r: "rexec rc f s = (r, s'')" by force
  with assms have s: "s'' = s'" by (simp add: run_with_def)
  show ?thesis
  proof (cases r)
    case (Inl e')
    with r s assms have "e' = e" by (simp add: run_with_def)
    with r s Inl exec_fail exec_fail_err show ?thesis by blast
  next
    case (Inr y)
    with exec_reply r s have "f s = (y, s')" by blast
    with assms r s Inr show ?thesis by (simp add: run_with_def)
  qed
qed

lemma c_Get_view:
  assumes "c_Get rc k s = (r, s')"
  shows "view s' = view s"
proof (cases r)
  case (Inl e)
  with assms have "run_with decode_str rc (rcall rc (GET k)) s = (Inl e, s')"
    by (simp add: client_defs)
  from run_with_Inl [OF this] show ?thesis by (simp add: get_view)
next
  case (Inr v)
  with assms have "run_with decode_str rc (rcall rc (GET k)) s = (Inr v, s')"
    by (simp add: client_defs)
  from run_with_Inr [OF this] show ?thesis using get_view [of k s] by simp
qed

lemma c_Get_Inr:
  assumes "c_Get rc k s = (Inr v, s')" and "str_key (view s) k"
  shows "\<exists>t. view s k = Some (RStr v, t)"
proof -
  note r = run_with_Inr [OF assms(1) [unfolded client_defs]]
  show ?thesis using assms(2)
  proof (cases rule: str_key_cases)
    case None
    with r get_none show ?thesis by (simp add: decode_str_def)
  next
    case (Str w t)
    with r show ?thesis by (simp add: get_str [OF Str] decode_str_def)
  qed
qed

lemma c_Get_nil:
  assumes "c_Get rc k s = (Inl e, s')" and "errors_is e RedisNil" and "str_key (view s) k"
  shows "view s k = None"
  using assms(3)
proof (cases rule: str_key_cases)
  case (Str w t)
  then have "decode_str (fst (rcall rc (GET k) s)) = Inr w"
    by (simp add: get_str [OF Str] decode_str_def)
  with run_with_Inl [OF assms(1) [unfolded client_defs]] assms(2) show ?thesis by simp
qed

text \<open>A delivered \<open>SET NX\<close> tells whether the key was free, and takes it if it was.\<close>

lemma c_SetNX_Inr:
  assumes "c_SetNX rc k v ttl s = (Inr b, s')" and "0 < ttl"
  shows "(b \<longleftrightarrow> view s k = None) \<and>
    view s' = (if b then (view s)(k \<mapsto> (RStr v, Some (px_ms rc ttl))) else view s)"
proof -
  note r = run_with_Inr [OF assms(1) [unfolded client_defs]]
  have px: "0 < px_ms rc ttl" using assms(2) by (rule px_pos)
  show ?thesis
  proof (cases "view s k")
    case None
    show ?thesis
      using r setnx_free [OF None px, of v] setnx_free_view [OF None px, of v] None
      by (auto simp: decode_bool_def)
  next
    case (Some x)
    show ?thesis
      using r setnx_taken [OF Some, of v "px_ms rc ttl"]
        setnx_taken_view [OF Some, of v "px_ms rc ttl"] Some
      by (auto simp: decode_bool_def)
  qed
qed

lemma c_SetNX_Inl_view:
  assumes "c_SetNX rc k v ttl s = (Inl e, s')" and "0 < ttl"
  shows "view s' = view s \<or>
    (view s k = None \<and> view s' = (view s)(k \<mapsto> (RStr v, Some (px_ms rc ttl))))"
proof -
  note r = run_with_Inl [OF assms(1) [unfolded client_defs]]
  show ?thesis
  proof (cases "view s k")
    case None
    then show ?thesis using r setnx_free_view [OF None px_pos [OF assms(2)], of v] by auto
  next
    case (Some x)
    then show ?thesis using r setnx_taken_view [OF Some, of v "px_ms rc ttl"] by auto
  qed
qed

lemma c_Set_Inr:
  assumes "c_Set rc k v ttl s = (Inr u, s')" and "0 < ttl"
  shows "view s' = (view s)(k \<mapsto> (RStr v, Some (px_ms rc ttl)))"
  using run_with_Inr [OF assms(1) [unfolded client_defs]]
    set_view [OF px_pos [OF assms(2)], of k v s] by simp

lemma c_Set_view:
  assumes "c_Set rc k v ttl s = (r, s')" and "0 < ttl"
  shows "view s' = view s \<or> view s' = (view s)(k \<mapsto> (RStr v, Some (px_ms rc ttl)))"
proof (cases r)
  case (Inl e)
  then show ?thesis
    using run_with_Inl [OF assms(1) [unfolded client_defs Inl]] set_view [OF px_pos [OF assms(2)], of k v s]
    by auto
next
  case (Inr u)
  then show ?thesis using c_Set_Inr assms by simp
qed

lemma c_GetDel_Inr:
  assumes "c_GetDel rc k s = (Inr v, s')" and "str_key (view s) k"
  shows "view s' = (view s)(k := None) \<and> (\<exists>t. view s k = Some (RStr v, t))"
proof -
  note r = run_with_Inr [OF assms(1) [unfolded client_defs]]
  have v: "view s' = (view s)(k := None)" using r getdel_view [OF assms(2)] by simp
  show ?thesis using assms(2)
  proof (cases rule: str_key_cases)
    case None
    with r getdel_none show ?thesis by (simp add: decode_str_def)
  next
    case (Str w t)
    with r v show ?thesis by (simp add: getdel_str [OF Str] decode_str_def)
  qed
qed

lemma c_GetDel_Inl_view:
  assumes "c_GetDel rc k s = (Inl e, s')" and "str_key (view s) k"
  shows "view s' = view s \<or> view s' = (view s)(k := None)"
  using run_with_Inl [OF assms(1) [unfolded client_defs]] getdel_view [OF assms(2)] by simp

lemma c_GetDel_nil:
  assumes "c_GetDel rc k s = (Inl e, s')" and "errors_is e RedisNil" and "str_key (view s) k"
  shows "view s k = None"
  using assms(3)
proof (cases rule: str_key_cases)
  case (Str w t)
  then have "decode_str (fst (rcall rc (GETDEL k) s)) = Inr w"
    by (simp add: getdel_str [OF Str] decode_str_def)
  with run_with_Inl [OF assms(1) [unfolded client_defs]] assms(2) show ?thesis by simp
qed

text \<open>A script call that reported an error had no effect or the whole effect of the script.\<close>

lemma c_Eval_Inl_view:
  assumes "c_Eval rc f s = (Inl e, s')"
  shows "view s' = view s \<or> view s' = view (snd (f s))"
  using run_with_Inl [OF assms [unfolded client_defs]] by blast

lemma c_Eval_Inr:
  assumes "c_Eval rc f s = (Inr x, s')"
  shows "f s = (x, s')"
  using run_with_Inr [OF assms [unfolded client_defs]]
  by (cases "f s") (auto simp: decode_any_def split: reply.splits)

end

text \<open>The passage of time: keys lose the time that passed and disappear when none is left.\<close>

definition age :: "int \<Rightarrow> kv \<Rightarrow> kv" where
  "age d m k = (case m k of None \<Rightarrow> None
     | Some (x, None) \<Rightarrow> Some (x, None)
     | Some (x, Some t) \<Rightarrow> if t \<le> d then None else Some (x, Some (t - d)))"

locale redis_clock = redis_server +
  fixes pass :: "int \<Rightarrow> 's \<Rightarrow> 's"
  assumes pass_view: "0 \<le> d \<Longrightarrow> view (pass d s) = age d (view s)"
begin

lemma pass_expired: "view s k = Some (x, Some t) \<Longrightarrow> 0 \<le> d \<Longrightarrow> t \<le> d \<Longrightarrow> view (pass d s) k = None"
  by (simp add: pass_view age_def)

lemma pass_alive:
  "view s k = Some (x, Some t) \<Longrightarrow> 0 \<le> d \<Longrightarrow> d < t \<Longrightarrow> view (pass d s) k = Some (x, Some (t - d))"
  by (simp add: pass_view age_def)

end

section \<open>An in-memory server\<close>

datatype mval = MStr string | MSet "string list"

record mem =
  mem_db :: "string \<Rightarrow> (mval \<times> int option) option"
  mem_clock :: int
  mem_down :: bool

text \<open>An entry carries its absolute expiry; it is live while the clock is before it.\<close>

fun live_entry :: "int \<Rightarrow> (mval \<times> int option) option \<Rightarrow> (mval \<times> int option) option" where
  "live_entry c None = None"
| "live_entry c (Some (x, None)) = Some (x, None)"
| "live_entry c (Some (x, Some t)) = (if c < t then Some (x, Some t) else None)"

definition mem_live :: "mem \<Rightarrow> string \<Rightarrow> (mval \<times> int option) option" where
  "mem_live s k = live_entry (mem_clock s) (mem_db s k)"

definition mem_put :: "string \<Rightarrow> (mval \<times> int option) option \<Rightarrow> mem \<Rightarrow> mem" where
  "mem_put k e s = s\<lparr>mem_db := (mem_db s)(k := e)\<rparr>"

definition wrong_type :: reply where
  "wrong_type = RErr ''WRONGTYPE Operation against a key holding the wrong kind of value''"

fun mem_call :: "command \<Rightarrow> mem \<Rightarrow> reply \<times> mem" where
  "mem_call (GET k) s = (case mem_live s k of None \<Rightarrow> (RNil, s)
     | Some (MStr v, _) \<Rightarrow> (RBulk v, s) | Some (MSet _, _) \<Rightarrow> (wrong_type, s))"
| "mem_call (SET k v px) s =
     (if px \<le> 0 then (RErr ''ERR invalid expire time'', s)
      else (RStatus, mem_put k (Some (MStr v, Some (mem_clock s + px))) s))"
| "mem_call (SETNX k v px) s = (case mem_live s k of Some _ \<Rightarrow> (RNil, s)
     | None \<Rightarrow> if px \<le> 0 then (RErr ''ERR invalid expire time'', s)
               else (RStatus, mem_put k (Some (MStr v, Some (mem_clock s + px))) s))"
| "mem_call (GETDEL k) s = (case mem_live s k of None \<Rightarrow> (RNil, s)
     | Some (MStr v, _) \<Rightarrow> (RBulk v, mem_put k None s) | Some (MSet _, _) \<Rightarrow> (wrong_type, s))"
| "mem_call (DEL k) s = (case mem_live s k of None \<Rightarrow> (RInt 0, s) | Some _ \<Rightarrow> (RInt 1, mem_put k None s))"
| "mem_call (SADD k m) s = (case mem_live s k of
       None \<Rightarrow> (RInt 1, mem_put k (Some (MSet [m], None)) s)
     | Some (MSet xs, t) \<Rightarrow> (RInt (if m \<in> set xs then 0 else 1), mem_put k (Some (MSet (List.insert m xs), t)) s)
     | Some (MStr _, _) \<Rightarrow> (wrong_type, s))"
| "mem_call (SREM k m) s = (case mem_live s k of
       None \<Rightarrow> (RInt 0, s)
     | Some (MSet xs, t) \<Rightarrow> (RInt (if m \<in> set xs then 1 else 0),
         mem_put k (if removeAll m xs = [] then None else Some (MSet (removeAll m xs), t)) s)
     | Some (MStr _, _) \<Rightarrow> (wrong_type, s))"
| "mem_call (SMEMBERS k) s = (case mem_live s k of None \<Rightarrow> (RArray [], s)
     | Some (MSet xs, _) \<Rightarrow> (RArray (remdups xs), s) | Some (MStr _, _) \<Rightarrow> (wrong_type, s))"
| "mem_call (PEXPIRE k px) s = (case mem_live s k of None \<Rightarrow> (RInt 0, s)
     | Some (x, _) \<Rightarrow> (RInt 1, mem_put k (if px \<le> 0 then None else Some (x, Some (mem_clock s + px))) s))"
| "mem_call (INCR k) s = (case mem_live s k of
       None \<Rightarrow> (RInt 1, mem_put k (Some (MStr ''1'', None)) s)
     | Some (MStr v, t) \<Rightarrow> (case Atoi v of None \<Rightarrow> (RErr ''ERR value is not an integer'', s)
         | Some n \<Rightarrow> if n + 1 < 2 ^ 63 then (RInt (n + 1), mem_put k (Some (MStr (Itoa (n + 1)), t)) s)
                     else (RErr ''ERR increment would overflow'', s))
     | Some (MSet _, _) \<Rightarrow> (wrong_type, s))"

definition mem_exec :: "(mem \<Rightarrow> reply \<times> mem) \<Rightarrow> mem \<Rightarrow> reply result \<times> mem" where
  "mem_exec f s = (if mem_down s then (Inl (Opaque ''dial tcp: connection refused''), s)
     else (case f s of (r, s') \<Rightarrow> (Inr r, s')))"

definition mem_redis :: "mem redis" where
  "mem_redis = \<lparr>rcall = mem_call, rexec = mem_exec,
     px_ms = (\<lambda>d. max 1 (d div Millisecond)), ex_ms = (\<lambda>d. 1000 * max 1 (d div Second)),
     as_status = decode_ok, as_string = decode_str, as_int = decode_int, as_bool = decode_bool,
     as_strings = decode_strs, as_any = decode_any\<rparr>"

fun mval_abs :: "mval \<Rightarrow> rval" where
  "mval_abs (MStr v) = RStr v"
| "mval_abs (MSet xs) = RSet (set xs)"

fun abs_entry :: "int \<Rightarrow> (mval \<times> int option) option \<Rightarrow> (rval \<times> int option) option" where
  "abs_entry c None = None"
| "abs_entry c (Some (x, None)) = Some (mval_abs x, None)"
| "abs_entry c (Some (x, Some t)) = (if c < t then Some (mval_abs x, Some (t - c)) else None)"

definition mem_view :: "mem \<Rightarrow> kv" where
  "mem_view s k = abs_entry (mem_clock s) (mem_db s k)"

definition mem_pass :: "int \<Rightarrow> mem \<Rightarrow> mem" where
  "mem_pass d s = s\<lparr>mem_clock := mem_clock s + d\<rparr>"

definition mem_empty :: mem where
  "mem_empty = \<lparr>mem_db = (\<lambda>_. None), mem_clock = 0, mem_down = False\<rparr>"

section \<open>Decimal round trip\<close>

lemma digit_char_props:
  assumes "d < 10"
  shows "is_digit (digit_char d)" "digit_val (digit_char d) = d"
  using assms by (simp_all add: is_digit_def digit_val_def digit_char_def of_char_of take_bit_eq_mod)

lemma nat_to_dec_nonempty [simp]: "nat_to_dec n \<noteq> []"
  by (subst nat_to_dec.simps) simp

lemma nat_to_dec_digits: "list_all is_digit (nat_to_dec n)"
proof (induction n rule: nat_to_dec.induct)
  case (1 n)
  show ?case
    by (cases "n < 10") (simp_all add: nat_to_dec.simps [of n] digit_char_props 1)
qed

lemma dec_to_nat_snoc [simp]: "dec_to_nat (s @ [c]) = 10 * dec_to_nat s + digit_val c"
  by (simp add: dec_to_nat_def)

lemma dec_to_nat_to_dec [simp]: "dec_to_nat (nat_to_dec n) = n"
proof (induction n rule: nat_to_dec.induct)
  case (1 n)
  show ?case
  proof (cases "n < 10")
    case True
    then show ?thesis by (simp add: nat_to_dec.simps [of n] digit_char_props dec_to_nat_def)
  next
    case False
    then show ?thesis using 1 by (simp add: nat_to_dec.simps [of n] digit_char_props)
  qed
qed

lemma hd_nat_to_dec: "is_digit (hd (nat_to_dec n))"
  using nat_to_dec_digits [of n] nat_to_dec_nonempty [of n] by (cases "nat_to_dec n") auto

lemma Atoi_Itoa: "0 \<le> n \<Longrightarrow> n < 2 ^ 63 \<Longrightarrow> Atoi (Itoa n) = Some n"
proof -
  assume n: "0 \<le> n" "n < 2 ^ 63"
  have "hd (nat_to_dec (nat n)) \<noteq> CHR ''-''" "hd (nat_to_dec (nat n)) \<noteq> CHR ''+''"
    using hd_nat_to_dec [of "nat n"] by (auto simp: is_digit_def)
  with n show ?thesis
    by (simp add: Atoi_def Itoa_def nat_to_dec_digits Let_def nat_less_iff)
qed

section \<open>The in-memory server meets the contract\<close>

lemma abs_entry_live:
  "abs_entry c e = (case live_entry c e of None \<Rightarrow> None
     | Some (x, t) \<Rightarrow> Some (mval_abs x, map_option (\<lambda>t. t - c) t))"
  by (cases "(c, e)" rule: live_entry.cases) auto

lemma mem_view_live:
  "mem_view s k = (case mem_live s k of None \<Rightarrow> None
     | Some (x, t) \<Rightarrow> Some (mval_abs x, map_option (\<lambda>t. t - mem_clock s) t))"
  by (simp add: mem_view_def mem_live_def abs_entry_live)

lemma mval_abs_eq [simp]:
  "mval_abs x = RStr v \<longleftrightarrow> x = MStr v"
  "mval_abs x = RSet A \<longleftrightarrow> (\<exists>xs. x = MSet xs \<and> A = set xs)"
  "RStr v = mval_abs x \<longleftrightarrow> x = MStr v"
  "RSet A = mval_abs x \<longleftrightarrow> (\<exists>xs. x = MSet xs \<and> A = set xs)"
  by (cases x; auto)+

lemma mem_view_None [simp]: "mem_view s k = None \<longleftrightarrow> mem_live s k = None"
  by (simp add: mem_view_live split: option.splits prod.splits)

lemma mem_view_Some:
  "mem_view s k = Some (y, t) \<longleftrightarrow>
     (\<exists>x t'. mem_live s k = Some (x, t') \<and> y = mval_abs x \<and> t = map_option (\<lambda>t. t - mem_clock s) t')"
  by (auto simp: mem_view_live split: option.splits)

lemma mem_view_put [simp]:
  "mem_view (mem_put k e s) = (mem_view s)(k := abs_entry (mem_clock s) e)"
  by (simp add: mem_view_def mem_put_def fun_eq_iff)

lemma abs_entry_same:
  assumes "mem_live s k = Some (y, t)"
  shows "abs_entry (mem_clock s) (Some (x, t)) =
    Some (mval_abs x, map_option (\<lambda>t. t - mem_clock s) t)"
  using assms unfolding mem_live_def
  by (cases "(mem_clock s, mem_db s k)" rule: live_entry.cases) (auto split: if_splits)

lemma fun_upd_None_id: "m k = None \<Longrightarrow> m(k := None) = m"
  by auto

lemma removeAll_empty: "removeAll m xs = [] \<longleftrightarrow> set xs - {m} = {}"
  by (metis set_empty set_removeAll)

lemmas mem_simps = mem_redis_def mem_view_Some wrong_type_def

interpretation mem_server: redis_server mem_redis mem_view
proof (unfold_locales, goal_cases)
  case (8 s k x v px)
  then show ?case by (cases x) (auto simp: mem_simps)
next
  case (9 s k x v px)
  then show ?case by (cases x) (auto simp: mem_simps)
next
  case (12 s k)
  then show ?case
  proof (cases rule: str_key_cases)
    case None
    then show ?thesis by (simp add: mem_redis_def fun_upd_None_id)
  next
    case (Str v t)
    then show ?thesis by (auto simp: mem_simps)
  qed
next
  case (14 k s)
  then show ?case by (auto simp: mem_simps fun_upd_None_id split: option.splits)
next
  case (16 s k A t m)
  then show ?case by (auto simp: mem_simps abs_entry_same)
next
  case (18 s k A t m)
  then obtain xs t' where "mem_live s k = Some (MSet xs, t')" "A = set xs"
      "t = map_option (\<lambda>t. t - mem_clock s) t'"
    by (auto simp: mem_view_Some)
  then show ?case by (simp add: mem_redis_def abs_entry_same removeAll_empty)
next
  case (23 s k x t px)
  then show ?case by (auto simp: mem_simps)
next
  case (25 s k n t)
  then show ?case by (auto simp: mem_simps abs_entry_same Atoi_Itoa)
qed (auto simp: mem_simps mem_exec_def split: if_splits prod.splits option.splits mval.splits)

lemma abs_entry_age:
  "0 \<le> d \<Longrightarrow> abs_entry (c + d) e =
     (case abs_entry c e of None \<Rightarrow> None | Some (x, None) \<Rightarrow> Some (x, None)
      | Some (x, Some t) \<Rightarrow> if t \<le> d then None else Some (x, Some (t - d)))"
  by (cases "(c, e)" rule: live_entry.cases) auto

interpretation mem_clocked: redis_clock mem_redis mem_view mem_pass
proof (unfold_locales, goal_cases)
  case (1 d s)
  then show ?case
    by (simp add: fun_eq_iff age_def mem_view_def mem_pass_def abs_entry_age)
qed

end
