(* ===== verification/Auth.thy ===== *)
theory Auth
  imports Go_Base64 Redis_Client
begin

text \<open>
  Passwords and tokens, \<open>internal/auth\<close>: validation, hashing, the encoded hash format
  with its parser, verification, and opaque tokens. Argon2id and the random source are
  parameters. Go's \<open>uint32\<close> and \<open>uint8\<close> fields are integers in range; the two
  conversions from a length wrap modulo \<open>2 ^ 32\<close> as in the code.
\<close>

section \<open>Definitions: passwords\<close>

definition MinPasswordBytes :: int where
  "MinPasswordBytes = 12"

definition MaxPasswordBytes :: int where
  "MaxPasswordBytes = 1024"

definition minSaltBytes :: int where
  "minSaltBytes = 16"

definition minKeyBytes :: int where
  "minKeyBytes = 32"

record PasswordParams =
  MemoryKiB :: int
  Iterations :: int
  Parallelism :: int
  SaltBytes :: int
  KeyBytes :: int

definition DefaultPasswordParams :: PasswordParams where
  "DefaultPasswordParams =
     \<lparr>MemoryKiB = 64 * 1024, Iterations = 3, Parallelism = 1, SaltBytes = 16, KeyBytes = 32\<rparr>"

record ParsedPasswordHash =
  pph_Params :: PasswordParams
  pph_Salt :: string
  pph_Hash :: string

definition bad_argument :: "string \<Rightarrow> 'a result" where
  "bad_argument m = Inl (Wrap m [Sentinel ErrInvalidArgument])"

definition ValidatePassword :: "string \<Rightarrow> unit result" where
  "ValidatePassword password =
     (if TrimSpace password = [] then bad_argument ''password is required''
      else if int (length password) < MinPasswordBytes then bad_argument ''password must be at least 12 bytes''
      else if MaxPasswordBytes < int (length password) then bad_argument ''password must be at most 1024 bytes''
      else Inr ())"

definition validatePasswordParams :: "PasswordParams \<Rightarrow> unit result" where
  "validatePasswordParams params =
     (if MemoryKiB params < 19 * 1024 then bad_argument ''argon2 memory must be at least 19456 KiB''
      else if Iterations params < 2 then bad_argument ''argon2 iterations must be at least 2''
      else if Parallelism params < 1 then bad_argument ''argon2 parallelism must be at least 1''
      else if SaltBytes params < minSaltBytes then bad_argument ''argon2 salt must be at least 16 bytes''
      else if KeyBytes params < minKeyBytes then bad_argument ''argon2 key must be at least 32 bytes''
      else Inr ())"

text \<open>\<open>rand.Read\<close> on a fresh buffer of a size: the bytes it holds afterwards, or an error.\<close>

type_synonym random = "int \<Rightarrow> string result"

definition randomBytes :: "random \<Rightarrow> int \<Rightarrow> string result" where
  "randomBytes rand n = mapErr (\<lambda>e. Wrap ''generate random bytes'' [e]) (rand n)"

text \<open>\<open>argon2.IDKey\<close>: password, salt, time, memory, threads and key length to the key.\<close>

type_synonym argon = "string \<Rightarrow> string \<Rightarrow> int \<Rightarrow> int \<Rightarrow> int \<Rightarrow> int \<Rightarrow> string"

definition argon2_Version :: int where
  "argon2_Version = 19"

definition encodePasswordHash :: "PasswordParams \<Rightarrow> string \<Rightarrow> string \<Rightarrow> string" where
  "encodePasswordHash params salt hash =
     ''$argon2id$v='' @ Itoa argon2_Version @ ''$m='' @ Itoa (MemoryKiB params) @ '',t='' @ Itoa (Iterations params) @
     '',p='' @ Itoa (Parallelism params) @ CHR ''$'' # EncodeToString b64_std salt @
     CHR ''$'' # EncodeToString b64_std hash"

definition HashPasswordWithParams :: "argon \<Rightarrow> random \<Rightarrow> string \<Rightarrow> PasswordParams \<Rightarrow> string result" where
  "HashPasswordWithParams idkey rand password params =
     bindE (ValidatePassword password) (\<lambda>_.
     bindE (validatePasswordParams params) (\<lambda>_.
     bindE (randomBytes rand (SaltBytes params)) (\<lambda>salt.
     Inr (encodePasswordHash params salt
       (idkey password salt (Iterations params) (MemoryKiB params) (Parallelism params) (KeyBytes params))))))"

definition HashPassword :: "argon \<Rightarrow> random \<Rightarrow> string \<Rightarrow> string result" where
  "HashPassword idkey rand password = HashPasswordWithParams idkey rand password DefaultPasswordParams"

section \<open>Definitions: parsing hashes\<close>

definition parseVersion :: "string \<Rightarrow> int result" where
  "parseVersion raw =
     (case CutPrefix raw ''v='' of (value, ok) \<Rightarrow>
        if \<not> ok then bad_argument ''password hash version is invalid''
        else (case Atoi value of None \<Rightarrow> bad_argument ''password hash version is invalid'' | Some n \<Rightarrow> Inr n))"

text \<open>\<open>strconv.ParseUint(raw, 10, bits)\<close> with its result as an integer.\<close>

definition ParseUintInt :: "string \<Rightarrow> nat \<Rightarrow> int option" where
  "ParseUintInt raw bits = map_option int (ParseUint raw bits)"

lemma ParseUintInt_code [code]:
  "ParseUintInt s bits =
     (if s \<noteq> [] \<and> list_all is_digit s \<and> dec_to_int s < 2 ^ bits then Some (dec_to_int s) else None)"
  unfolding ParseUintInt_def ParseUint_def dec_to_nat_bounds by (simp add: dec_to_nat_int)

text \<open>The map of the parts; a later part with the same key replaces an earlier one.\<close>

fun parseParts :: "string list \<Rightarrow> (string \<Rightarrow> string option) \<Rightarrow> (string \<Rightarrow> string option) result" where
  "parseParts [] values = Inr values"
| "parseParts (part # parts) values =
     (case Cut part (CHR ''='') of (key, value, ok) \<Rightarrow>
        if \<not> ok \<or> key = [] \<or> value = [] then bad_argument ''password hash params are invalid''
        else parseParts parts (values(key \<mapsto> value)))"

definition parseUint32Param :: "(string \<Rightarrow> string option) \<Rightarrow> string \<Rightarrow> int result" where
  "parseUint32Param values key =
     (case values key of None \<Rightarrow> bad_argument ''password hash param is missing''
      | Some raw \<Rightarrow> (case ParseUintInt raw 32 of None \<Rightarrow> bad_argument ''password hash param is invalid'' | Some v \<Rightarrow> Inr v))"

definition parseUint8Param :: "(string \<Rightarrow> string option) \<Rightarrow> string \<Rightarrow> int result" where
  "parseUint8Param values key =
     (case values key of None \<Rightarrow> bad_argument ''password hash param is missing''
      | Some raw \<Rightarrow> (case ParseUintInt raw 8 of None \<Rightarrow> bad_argument ''password hash param is invalid'' | Some v \<Rightarrow> Inr v))"

definition parseParams :: "string \<Rightarrow> PasswordParams result" where
  "parseParams raw =
     (let parts = Split raw (CHR '','') in
      if length parts \<noteq> 3 then bad_argument ''password hash params are invalid''
      else
        bindE (parseParts parts Map.empty) (\<lambda>values.
        bindE (parseUint32Param values ''m'') (\<lambda>memory.
        bindE (parseUint32Param values ''t'') (\<lambda>iterations.
        bindE (parseUint8Param values ''p'') (\<lambda>parallelism.
        Inr \<lparr>MemoryKiB = memory, Iterations = iterations, Parallelism = parallelism, SaltBytes = 0, KeyBytes = 0\<rparr>)))))"

definition decode_or :: "string \<Rightarrow> string \<Rightarrow> string result" where
  "decode_or m s = (case DecodeString b64_std s of None \<Rightarrow> bad_argument m | Some v \<Rightarrow> Inr v)"

definition uint32_len :: "string \<Rightarrow> int" where
  "uint32_len s = int (length s) mod 2 ^ 32"

definition parsePasswordHash :: "string \<Rightarrow> ParsedPasswordHash result" where
  "parsePasswordHash encodedHash =
     (let parts = Split encodedHash (CHR ''$'') in
      if length parts \<noteq> 6 \<or> parts ! 0 \<noteq> [] then bad_argument ''password hash format is invalid''
      else if parts ! 1 \<noteq> ''argon2id'' then bad_argument ''password hash algorithm is unsupported''
      else
        bindE (parseVersion (parts ! 2)) (\<lambda>version.
        if version \<noteq> argon2_Version then bad_argument ''password hash version is unsupported''
        else
          bindE (parseParams (parts ! 3)) (\<lambda>params.
          bindE (decode_or ''password hash salt is invalid'' (parts ! 4)) (\<lambda>salt.
          bindE (decode_or ''password hash value is invalid'' (parts ! 5)) (\<lambda>hash.
          let params = params\<lparr>SaltBytes := uint32_len salt, KeyBytes := uint32_len hash\<rparr> in
          bindE (validatePasswordParams params) (\<lambda>_.
          Inr \<lparr>pph_Params = params, pph_Salt = salt, pph_Hash = hash\<rparr>))))))"

definition VerifyPassword :: "argon \<Rightarrow> string \<Rightarrow> string \<Rightarrow> unit result" where
  "VerifyPassword idkey encodedHash password =
     (if TrimSpace encodedHash = [] then bad_argument ''password hash is required''
      else
        bindE (parsePasswordHash encodedHash) (\<lambda>parsed.
        let hash = idkey password (pph_Salt parsed) (Iterations (pph_Params parsed)) (MemoryKiB (pph_Params parsed))
              (Parallelism (pph_Params parsed)) (uint32_len (pph_Hash parsed))
        in if pph_Hash parsed \<noteq> hash then Inl (Sentinel ErrUnauthenticated) else Inr ()))"

section \<open>Definitions: tokens\<close>

definition SessionTokenBytes :: int where
  "SessionTokenBytes = 32"

definition JoinTokenBytes :: int where
  "JoinTokenBytes = 32"

definition NewOpaqueToken :: "random \<Rightarrow> int \<Rightarrow> string result" where
  "NewOpaqueToken rand numBytes =
     (if numBytes < 16 then bad_argument ''token entropy must be at least 16 bytes''
      else
        bindE (mapErr (\<lambda>e. Wrap ''generate token'' [e]) (rand numBytes)) (\<lambda>buf.
        Inr (EncodeToString b64_url buf)))"

definition NewSessionToken :: "random \<Rightarrow> string result" where
  "NewSessionToken rand = NewOpaqueToken rand SessionTokenBytes"

definition NewJoinToken :: "random \<Rightarrow> string result" where
  "NewJoinToken rand = NewOpaqueToken rand JoinTokenBytes"

section \<open>Documented behaviour of the libraries\<close>

text \<open>The random source fills the buffer; Argon2id returns a key of the requested length.\<close>

definition random_ok :: "random \<Rightarrow> bool" where
  "random_ok rand = (\<forall>n b. 0 \<le> n \<longrightarrow> rand n = Inr b \<longrightarrow> int (length b) = n)"

definition argon_ok :: "argon \<Rightarrow> bool" where
  "argon_ok idkey = (\<forall>p s t m k n. 0 \<le> n \<longrightarrow> int (length (idkey p s t m k n)) = n)"

section \<open>Lemmas: the hash format\<close>

lemma bad_argument_Inr [simp]: "bad_argument m \<noteq> Inr x"
  by (simp add: bad_argument_def)

lemma Itoa_digits: "0 \<le> n \<Longrightarrow> list_all is_digit (Itoa n)"
  by (simp add: Itoa_def nat_to_dec_digits)

lemma Itoa_nonempty [simp]: "Itoa n \<noteq> []"
  by (simp add: Itoa_def)

lemma ParseUintInt_Itoa:
  assumes "0 \<le> n" and "n < 2 ^ b"
  shows "ParseUintInt (Itoa n) b = Some n"
proof -
  have "nat n < 2 ^ b" using assms by (simp add: nat_less_iff)
  with assms show ?thesis by (simp add: ParseUintInt_def ParseUint_def Itoa_def nat_to_dec_digits)
qed

lemma digits_avoid: "list_all is_digit s \<Longrightarrow> \<not> is_digit c \<Longrightarrow> c \<notin> set s"
  by (auto simp: list_all_iff)

lemma not_digits: "\<not> is_digit CHR ''$''" "\<not> is_digit CHR '',''" "\<not> is_digit CHR ''=''"
  by code_simp+

lemma std_no_dollar: "CHR ''$'' \<notin> set (EncodeToString b64_std s)"
proof -
  have "CHR ''$'' \<notin> set b64_std" by code_simp
  then show ?thesis using set_EncodeToString [OF alphabets(3), of s] by blast
qed

definition hash_parts :: "PasswordParams \<Rightarrow> string \<Rightarrow> string \<Rightarrow> string list" where
  "hash_parts ps salt hash = [[], ''argon2id'', ''v='' @ Itoa argon2_Version,
     Join [''m='' @ Itoa (MemoryKiB ps), ''t='' @ Itoa (Iterations ps), ''p='' @ Itoa (Parallelism ps)] '','',
     EncodeToString b64_std salt, EncodeToString b64_std hash]"

lemma encode_as_Join: "encodePasswordHash ps salt hash = Join (hash_parts ps salt hash) [CHR ''$'']"
  by (simp add: encodePasswordHash_def hash_parts_def)

lemma Split_encode:
  assumes "0 \<le> MemoryKiB ps" and "0 \<le> Iterations ps" and "0 \<le> Parallelism ps"
  shows "Split (encodePasswordHash ps salt hash) (CHR ''$'') = hash_parts ps salt hash"
proof -
  have "CHR ''$'' \<notin> set (Itoa n)" if "0 \<le> n" for n
    using digits_avoid [OF Itoa_digits [OF that] not_digits(1)] .
  with assms show ?thesis
    unfolding encode_as_Join
    by (intro Split_Join) (simp_all add: hash_parts_def argon2_Version_def std_no_dollar)
qed

lemma Cut_key: "k \<noteq> CHR ''='' \<Longrightarrow> Cut (k # CHR ''='' # v) (CHR ''='') = ([k], v, True)"
  by (simp add: Cut_def)

lemma parseParams_encode:
  assumes "0 \<le> m" "m < 2 ^ 32" "0 \<le> t" "t < 2 ^ 32" "0 \<le> p" "p < 2 ^ 8"
  shows "parseParams (Join [''m='' @ Itoa m, ''t='' @ Itoa t, ''p='' @ Itoa p] '','') =
    Inr \<lparr>MemoryKiB = m, Iterations = t, Parallelism = p, SaltBytes = 0, KeyBytes = 0\<rparr>"
proof -
  have "CHR '','' \<notin> set (Itoa n)" if "0 \<le> n" for n
    using digits_avoid [OF Itoa_digits [OF that] not_digits(2)] .
  with assms have s: "Split (Join [''m='' @ Itoa m, ''t='' @ Itoa t, ''p='' @ Itoa p] '','') (CHR '','') =
      [''m='' @ Itoa m, ''t='' @ Itoa t, ''p='' @ Itoa p]"
    by (intro Split_Join) simp_all
  show ?thesis
    unfolding parseParams_def s Let_def
    using ParseUintInt_Itoa [OF assms(1,2)] ParseUintInt_Itoa [OF assms(3,4)] ParseUintInt_Itoa [OF assms(5,6)]
    by (simp add: Cut_key parseUint32Param_def parseUint8Param_def)
qed

lemma decode_or_encode: "decode_or m (EncodeToString b64_std s) = Inr s"
  by (simp add: decode_or_def Decode_Encode alphabets)

lemma parseVersion_encode: "parseVersion (''v='' @ Itoa argon2_Version) = Inr argon2_Version"
  by code_simp

definition params_in_range :: "PasswordParams \<Rightarrow> bool" where
  "params_in_range ps = (MemoryKiB ps < 2 ^ 32 \<and> Iterations ps < 2 ^ 32 \<and> Parallelism ps < 2 ^ 8 \<and>
     SaltBytes ps < 2 ^ 32 \<and> KeyBytes ps < 2 ^ 32)"

lemma validatePasswordParams_Inr:
  "validatePasswordParams ps = Inr u \<longleftrightarrow>
     19456 \<le> MemoryKiB ps \<and> 2 \<le> Iterations ps \<and> 1 \<le> Parallelism ps \<and> 16 \<le> SaltBytes ps \<and> 32 \<le> KeyBytes ps"
  by (auto simp: validatePasswordParams_def minSaltBytes_def minKeyBytes_def)

lemma parse_encode:
  assumes "validatePasswordParams ps = Inr ()" and "params_in_range ps"
    and "int (length salt) = SaltBytes ps" and "int (length hash) = KeyBytes ps"
  shows "parsePasswordHash (encodePasswordHash ps salt hash) = Inr \<lparr>pph_Params = ps, pph_Salt = salt, pph_Hash = hash\<rparr>"
proof -
  note v = assms(1) [unfolded validatePasswordParams_Inr]
  note r = assms(2) [unfolded params_in_range_def]
  have s: "Split (encodePasswordHash ps salt hash) (CHR ''$'') = hash_parts ps salt hash"
    by (rule Split_encode) (use v in linarith)+
  have p: "parseParams (Join [''m='' @ Itoa (MemoryKiB ps), ''t='' @ Itoa (Iterations ps), ''p='' @ Itoa (Parallelism ps)] '','') =
      Inr \<lparr>MemoryKiB = MemoryKiB ps, Iterations = Iterations ps, Parallelism = Parallelism ps, SaltBytes = 0, KeyBytes = 0\<rparr>"
    by (rule parseParams_encode) (use v r in linarith)+
  have l: "uint32_len salt = SaltBytes ps" "uint32_len hash = KeyBytes ps"
    using v r assms(3,4) by (simp_all add: uint32_len_def)
  have e: "\<lparr>MemoryKiB = MemoryKiB ps, Iterations = Iterations ps, Parallelism = Parallelism ps,
      SaltBytes = SaltBytes ps, KeyBytes = KeyBytes ps\<rparr> = ps" by simp
  show ?thesis
    unfolding parsePasswordHash_def s Let_def
    using assms(1) by (simp add: e hash_parts_def p [simplified] parseVersion_encode [simplified] decode_or_encode l)
qed

lemma digits_plain: "list_all is_digit s \<Longrightarrow> list_all plain_byte s"
  by (auto simp: list_all_iff is_digit_def plain_byte_def)

lemma hash_not_blank:
  assumes "0 \<le> MemoryKiB ps" and "0 \<le> Iterations ps" and "0 \<le> Parallelism ps"
  shows "TrimSpace (encodePasswordHash ps salt hash) \<noteq> []"
proof -
  have "list_all plain_byte (EncodeToString b64_std x)" for x
    using set_EncodeToString [OF alphabets(3), of x] alphabets(5) by (auto simp: list_all_iff)
  moreover have "list_all plain_byte (Itoa n)" if "0 \<le> n" for n by (rule digits_plain [OF Itoa_digits [OF that]])
  ultimately have "list_all plain_byte (encodePasswordHash ps salt hash)"
    using assms by (simp add: encodePasswordHash_def argon2_Version_def plain_byte_def)
  then show ?thesis by (simp add: TrimSpace_plain encodePasswordHash_def)
qed

lemma HashPasswordWithParams_Inr:
  assumes "HashPasswordWithParams idkey rand p ps = Inr h"
  obtains salt where "ValidatePassword p = Inr ()" and "validatePasswordParams ps = Inr ()"
    and "rand (SaltBytes ps) = Inr salt"
    and "h = encodePasswordHash ps salt (idkey p salt (Iterations ps) (MemoryKiB ps) (Parallelism ps) (KeyBytes ps))"
  using assms by (auto simp: HashPasswordWithParams_def randomBytes_def bindE_eq_Inr)

lemma verify_hash:
  assumes "argon_ok idkey" and "random_ok rand" and "params_in_range ps"
    and "HashPasswordWithParams idkey rand p ps = Inr h"
  shows "\<exists>salt. rand (SaltBytes ps) = Inr salt \<and>
      (\<forall>q. VerifyPassword idkey h q =
        (if idkey q salt (Iterations ps) (MemoryKiB ps) (Parallelism ps) (KeyBytes ps) =
            idkey p salt (Iterations ps) (MemoryKiB ps) (Parallelism ps) (KeyBytes ps)
         then Inr () else Inl (Sentinel ErrUnauthenticated)))"
proof -
  obtain salt where v: "validatePasswordParams ps = Inr ()" and salt: "rand (SaltBytes ps) = Inr salt"
    and h: "h = encodePasswordHash ps salt (idkey p salt (Iterations ps) (MemoryKiB ps) (Parallelism ps) (KeyBytes ps))"
    by (rule HashPasswordWithParams_Inr [OF assms(4)])
  note b = v [unfolded validatePasswordParams_Inr]
  let ?k = "\<lambda>q. idkey q salt (Iterations ps) (MemoryKiB ps) (Parallelism ps) (KeyBytes ps)"
  have l: "int (length salt) = SaltBytes ps" "int (length (?k p)) = KeyBytes ps"
    using assms(1,2) salt b by (auto simp: random_ok_def argon_ok_def)
  have u: "uint32_len (?k p) = KeyBytes ps"
    using l(2) b assms(3) by (simp add: uint32_len_def params_in_range_def)
  have "TrimSpace h \<noteq> []" unfolding h by (rule hash_not_blank) (use b in linarith)+
  then have "VerifyPassword idkey h q = (if ?k q = ?k p then Inr () else Inl (Sentinel ErrUnauthenticated))" for q
    using parse_encode [OF v assms(3) l] u by (auto simp: VerifyPassword_def h Let_def)
  with salt show ?thesis by auto
qed

lemma HashPassword_verifies:
  assumes "argon_ok idkey" and "random_ok rand" and "HashPassword idkey rand p = Inr h"
  shows "VerifyPassword idkey h p = Inr ()"
proof -
  have "params_in_range DefaultPasswordParams" by (simp add: params_in_range_def DefaultPasswordParams_def)
  from verify_hash [OF assms(1,2) this assms(3) [unfolded HashPassword_def]] show ?thesis by auto
qed

section \<open>Lemmas: tokens\<close>

lemma url_token_segment:
  assumes "NewOpaqueToken rand 32 = Inr tok" and "random_ok rand"
  shows "length tok = 43" and "key_segment maxIDBytes tok"
proof -
  from assms(1) obtain buf where b: "rand 32 = Inr buf" "tok = EncodeToString b64_url buf"
    by (auto simp: NewOpaqueToken_def bindE_eq_Inr)
  have "int (length buf) = 32" using assms(2) [unfolded random_ok_def, rule_format, OF _ b(1)] by simp
  then show l: "length tok = 43" by (simp add: b(2) length_EncodeToString)
  have "list_all (\<lambda>c. plain_byte c \<and> c \<noteq> CHR 0x3A) b64_url" by code_simp
  then have "list_all (\<lambda>c. plain_byte c \<and> c \<noteq> CHR 0x3A) tok"
    using set_EncodeToString [OF alphabets(4), of buf] by (auto simp: b(2) list_all_iff)
  with l show "key_segment maxIDBytes tok" by (intro key_segment_plain) (auto simp: maxIDBytes_def)
qed

section \<open>Properties\<close>

text \<open>
  C35. Hashes verify: a password that was hashed verifies against the stored text, and
  another password verifies exactly when Argon2id gives both the same key. The stored
  text carries all parameters, so this holds for every admissible cost.
\<close>

theorem password_roundtrip:
  assumes "argon_ok idkey" and "random_ok rand" and "params_in_range ps"
    and "HashPasswordWithParams idkey rand p ps = Inr h"
  shows "VerifyPassword idkey h p = Inr () \<and>
    (\<exists>salt. rand (SaltBytes ps) = Inr salt \<and>
      (\<forall>q. VerifyPassword idkey h q =
        (if idkey q salt (Iterations ps) (MemoryKiB ps) (Parallelism ps) (KeyBytes ps) =
            idkey p salt (Iterations ps) (MemoryKiB ps) (Parallelism ps) (KeyBytes ps)
         then Inr () else Inl (Sentinel ErrUnauthenticated))))"
  using verify_hash [OF assms] by auto

text \<open>
  Tokens: a session or join token has 43 characters that encode all 32 random
  bytes, and passes the validation that the stores apply to identifiers, unchanged.
\<close>

theorem opaque_token_valid:
  assumes "random_ok rand" and "NewOpaqueToken rand 32 = Inr tok"
  shows "length tok = 43 \<and> SessionToken tok = Inr tok \<and> JoinTokenID tok = Inr tok \<and> RequiredID field tok = Inr tok \<and>
    map_option Inr (DecodeString b64_url tok) = Some (rand 32)"
proof -
  note seg = url_token_segment [OF assms(2,1)]
  have "RequiredID f tok = Inr tok" for f using seg(2) by (simp add: ids_required key_segment_trim)
  moreover have "SessionToken tok = Inr tok" "JoinTokenID tok = Inr tok"
    using key_segment_mono [OF seg(2), of maxTokenBytes] seg(2)
    by (simp_all add: ids_Inr key_segment_trim maxIDBytes_def maxTokenBytes_def)
  moreover from assms(2) obtain buf where "rand 32 = Inr buf" "tok = EncodeToString b64_url buf"
    by (auto simp: NewOpaqueToken_def bindE_eq_Inr)
  then have "map_option Inr (DecodeString b64_url tok) = Some (rand 32)" by (simp add: Decode_Encode alphabets)
  ultimately show ?thesis using seg(1) by blast
qed

section \<open>Witnesses\<close>

definition w_argon :: argon where
  "w_argon p s t m k n = take (nat n) (p @ s @ replicate (nat n) (CHR 0x00))"

definition w_random :: random where
  "w_random n = Inr (replicate (nat n) (CHR 0x00))"

definition w_hash :: string where
  "w_hash = (case HashPassword w_argon w_random ''correct horse'' of Inr h \<Rightarrow> h | Inl _ \<Rightarrow> [])"

lemma w_libraries: "argon_ok w_argon" "random_ok w_random"
  by (auto simp: argon_ok_def w_argon_def random_ok_def w_random_def)

lemma w_hashed: "HashPasswordWithParams w_argon w_random ''correct horse'' DefaultPasswordParams = Inr w_hash"
proof -
  have "\<not> isl (HashPassword w_argon w_random ''correct horse'')" by code_simp
  then show ?thesis by (auto simp: w_hash_def HashPassword_def split: sum.splits)
qed

theorem password_roundtrip_witness:
  "VerifyPassword w_argon w_hash ''correct horse'' = Inr () \<and>
   VerifyPassword w_argon w_hash ''battery staple'' = Inl (Sentinel ErrUnauthenticated)"
proof -
  have r: "params_in_range DefaultPasswordParams" by (simp add: params_in_range_def DefaultPasswordParams_def)
  note p = password_roundtrip [OF w_libraries r w_hashed]
  have k: "KeyBytes DefaultPasswordParams = 32" by (simp add: DefaultPasswordParams_def)
  have "w_argon ''battery staple'' salt t m k 32 \<noteq> w_argon ''correct horse'' salt t m k 32" for salt t m k
    by (simp add: w_argon_def)
  with p show ?thesis unfolding k by auto
qed

theorem opaque_token_valid_witness:
  "\<exists>tok. NewSessionToken w_random = Inr tok \<and> length tok = 43 \<and> SessionToken tok = Inr tok"
proof -
  obtain tok where t: "NewOpaqueToken w_random 32 = Inr tok" by (simp add: NewOpaqueToken_def w_random_def)
  from opaque_token_valid [OF w_libraries(2) t] t show ?thesis
    by (auto simp: NewSessionToken_def SessionTokenBytes_def)
qed

end
