(* ===== verification/Postgres.thy ===== *)
theory Postgres
  imports Domain "HOL-Library.List_Lexorder" "HOL-Library.Char_ord"
begin

text \<open>
  The PostgreSQL stores (\<open>internal/store/postgres\<close>) and the transaction and pool
  helpers of \<open>internal/db\<close>. The database and the pgx driver are parameters: one field
  of the record \<open>pg\<close> per query text. The locale \<open>postgres_db\<close> states what the
  schema of \<open>migrations/\<close> documents of them: UUID keys are compared by value and
  returned in canonical spelling, e-mail addresses and character names are compared
  without case, and the unique constraints reject duplicates with SQLSTATE 23505.
\<close>

section \<open>Definitions: errors\<close>

definition uniqueViolationCode :: string where
  "uniqueViolationCode = ''23505''"

definition mapPostgresError :: "gerr option \<Rightarrow> gerr option" where
  "mapPostgresError err =
     (case err of
        None \<Rightarrow> None
      | Some e \<Rightarrow>
          if errors_is e ErrNoRows then Some (Sentinel ErrNotFound)
          else (case errors_as_pg e of
                  Some code \<Rightarrow> if code = uniqueViolationCode then Some (Sentinel ErrAlreadyExists)
                               else Some (Wrap ''postgres error'' [e])
                | None \<Rightarrow> Some (Wrap ''postgres query'' [e])))"

definition pgErr :: "gerr \<Rightarrow> gerr" where
  "pgErr e = (case mapPostgresError (Some e) of Some e' \<Rightarrow> e' | None \<Rightarrow> e)"

section \<open>Definitions: the stores\<close>

text \<open>
  A query for rows yields an error, or the scan result of each row in order and the error
  that \<open>rows.Err\<close> reports at the end.
\<close>

record 'd pg =
  q_insert_user :: "string \<Rightarrow> string \<Rightarrow> string \<Rightarrow> 'd \<Rightarrow> unit result \<times> 'd"
  q_user_by_email :: "string \<Rightarrow> 'd \<Rightarrow> User result \<times> 'd"
  q_user_by_id :: "string \<Rightarrow> 'd \<Rightarrow> User result \<times> 'd"
  q_insert_character :: "string \<Rightarrow> string \<Rightarrow> string \<Rightarrow> string \<Rightarrow> f64 \<Rightarrow> f64 \<Rightarrow> 'd \<Rightarrow> unit result \<times> 'd"
  q_characters_by_user :: "string \<Rightarrow> 'd \<Rightarrow> (Character result list \<times> gerr option) result \<times> 'd"
  q_character_by_id :: "string \<Rightarrow> 'd \<Rightarrow> Character result \<times> 'd"

text \<open>\<open>UserStore\<close> and \<open>CharacterStore\<close> hold a pool or nil.\<close>

type_synonym 'd UserStore = "'d pg option"
type_synonym 'd CharacterStore = "'d pg option"

definition with_pool :: "'d pg option \<Rightarrow> 'd \<Rightarrow> ('d pg \<Rightarrow> 'a result \<times> 'd) \<Rightarrow> 'a result \<times> 'd" where
  "with_pool st d body = (case st of None \<Rightarrow> (Inl (Sentinel ErrNilPool), d) | Some pg \<Rightarrow> body pg)"

definition scanUser :: "User result \<times> 'd \<Rightarrow> User result \<times> 'd" where
  "scanUser row = mapErrS pgErr row"

definition scanCharacter :: "Character result \<Rightarrow> Character result" where
  "scanCharacter row = mapErr pgErr row"

definition CreateUser :: "'d UserStore \<Rightarrow> User \<Rightarrow> 'd \<Rightarrow> unit result \<times> 'd" where
  "CreateUser st user d =
     with_pool st d (\<lambda>pg. mapErrS pgErr
       (q_insert_user pg (user_ID user) (user_Email user) (user_PasswordHash user) d))"

definition GetUserByEmail :: "'d UserStore \<Rightarrow> string \<Rightarrow> 'd \<Rightarrow> User result \<times> 'd" where
  "GetUserByEmail st email d = with_pool st d (\<lambda>pg. scanUser (q_user_by_email pg email d))"

definition GetUserByID :: "'d UserStore \<Rightarrow> string \<Rightarrow> 'd \<Rightarrow> User result \<times> 'd" where
  "GetUserByID st userID d = with_pool st d (\<lambda>pg. scanUser (q_user_by_id pg userID d))"

definition CreateCharacter :: "'d CharacterStore \<Rightarrow> Character \<Rightarrow> 'd \<Rightarrow> unit result \<times> 'd" where
  "CreateCharacter st character d =
     with_pool st d (\<lambda>pg. mapErrS pgErr
       (q_insert_character pg (char_ID character) (char_UserID character) (char_Name character)
          (char_MapID character) (X (char_Position character)) (Y (char_Position character)) d))"

text \<open>The loop over the rows stops at the first row that does not scan.\<close>

fun scanRows :: "Character result list \<Rightarrow> Character list \<Rightarrow> Character list result" where
  "scanRows [] characters = Inr characters"
| "scanRows (row # rows) characters =
     bindE (scanCharacter row) (\<lambda>character. scanRows rows (characters @ [character]))"

definition ListCharactersByUserID :: "'d CharacterStore \<Rightarrow> string \<Rightarrow> 'd \<Rightarrow> Character list result \<times> 'd" where
  "ListCharactersByUserID st userID d =
     with_pool st d (\<lambda>pg.
       bindS (mapErrS pgErr (q_characters_by_user pg userID d)) (\<lambda>(rows, rows_err) d1.
       bindP (scanRows rows []) d1 (\<lambda>characters.
       case mapPostgresError rows_err of
         Some e \<Rightarrow> (Inl e, d1)
       | None \<Rightarrow> (Inr characters, d1))))"

definition GetCharacterByID :: "'d CharacterStore \<Rightarrow> string \<Rightarrow> 'd \<Rightarrow> Character result \<times> 'd" where
  "GetCharacterByID st characterID d =
     with_pool st d (\<lambda>pg.
       case q_character_by_id pg characterID d of (row, d1) \<Rightarrow> (scanCharacter row, d1))"

section \<open>Definitions: transactions and the pool\<close>

text \<open>
  A transaction works on the state \<open>'t\<close> of the connection; \<open>tx_commit\<close> and
  \<open>tx_rollback\<close> are the driver's.
\<close>

record 't tx =
  tx_commit :: "'t \<Rightarrow> unit result \<times> 't"
  tx_rollback :: "'t \<Rightarrow> 't"

text \<open>The work may also panic; the deferred rollback then runs before the panic goes on.\<close>

definition RunAndCommit ::
  "'t tx \<Rightarrow> ('t \<Rightarrow> unit result outcome \<times> 't) \<Rightarrow> 't \<Rightarrow> unit result outcome \<times> 't" where
  "RunAndCommit tx work t =
     (case work t of
        (Panicked, t1) \<Rightarrow> (Panicked, tx_rollback tx t1)
      | (Returned (Inl e), t1) \<Rightarrow> (Returned (Inl e), tx_rollback tx t1)
      | (Returned (Inr _), t1) \<Rightarrow>
          (case tx_commit tx t1 of
             (Inl e, t2) \<Rightarrow> (Returned (Inl (Wrap ''commit transaction'' [e])), tx_rollback tx t2)
           | (Inr _, t2) \<Rightarrow> (Returned (Inr ()), t2)))"

datatype isoLevel = DefaultLevel | Serializable | ReadCommitted

text \<open>A beginner is nil (an interface or a typed pointer) or the driver's \<open>BeginTx\<close>.\<close>

definition isNilBeginner :: "'b option option \<Rightarrow> bool" where
  "isNilBeginner b = (case b of None \<Rightarrow> True | Some None \<Rightarrow> True | Some (Some _) \<Rightarrow> False)"

definition inTxWithOptions ::
  "(isoLevel \<Rightarrow> 't \<Rightarrow> 't tx result \<times> 't) option option \<Rightarrow> isoLevel \<Rightarrow>
   ('t tx \<Rightarrow> 't \<Rightarrow> unit result outcome \<times> 't) option \<Rightarrow> 't \<Rightarrow> unit result outcome \<times> 't" where
  "inTxWithOptions beginner opts fn t =
     (if isNilBeginner beginner then (Returned (Inl (Sentinel ErrNilPool)), t)
      else case fn of None \<Rightarrow> (Returned (Inl (Sentinel ErrNilTxFunc)), t)
      | Some f \<Rightarrow>
          (case beginner of Some (Some begin_tx) \<Rightarrow>
             (case begin_tx opts t of
                (Inl e, t1) \<Rightarrow> (Returned (Inl (Wrap ''begin transaction'' [e])), t1)
              | (Inr tx, t1) \<Rightarrow> RunAndCommit tx (f tx) t1)
           | _ \<Rightarrow> (Returned (Inl (Sentinel ErrNilPool)), t)))"

definition InTx ::
  "(isoLevel \<Rightarrow> 't \<Rightarrow> 't tx result \<times> 't) option option \<Rightarrow>
   ('t tx \<Rightarrow> 't \<Rightarrow> unit result outcome \<times> 't) option \<Rightarrow> 't \<Rightarrow> unit result outcome \<times> 't" where
  "InTx beginner fn = inTxWithOptions beginner DefaultLevel fn"

definition InSerializableTx ::
  "(isoLevel \<Rightarrow> 't \<Rightarrow> 't tx result \<times> 't) option option \<Rightarrow>
   ('t tx \<Rightarrow> 't \<Rightarrow> unit result outcome \<times> 't) option \<Rightarrow> 't \<Rightarrow> unit result outcome \<times> 't" where
  "InSerializableTx beginner fn = inTxWithOptions beginner Serializable fn"

definition InReadCommittedTx ::
  "(isoLevel \<Rightarrow> 't \<Rightarrow> 't tx result \<times> 't) option option \<Rightarrow>
   ('t tx \<Rightarrow> 't \<Rightarrow> unit result outcome \<times> 't) option \<Rightarrow> 't \<Rightarrow> unit result outcome \<times> 't" where
  "InReadCommittedTx beginner fn = inTxWithOptions beginner ReadCommitted fn"

definition db_Health :: "('d \<Rightarrow> unit result) option \<Rightarrow> 'd \<Rightarrow> unit result" where
  "db_Health ping d =
     (case ping of None \<Rightarrow> Inl (Sentinel ErrNilPool)
      | Some p \<Rightarrow> mapErr (\<lambda>e. Wrap ''postgres ping'' [e]) (p d))"

section \<open>Documented behaviour of the database\<close>

locale postgres_db =
  fixes pg :: "'d pg"
    and users :: "'d \<Rightarrow> User set"
    and chars :: "'d \<Rightarrow> Character set"
    and canon :: "string \<Rightarrow> string option"
    and ci :: "string \<Rightarrow> string"
  assumes insert_user_ok: "q_insert_user pg i em hs d = (Inr ok, d') \<Longrightarrow>
        (\<exists>k c t. canon i = Some k \<and> (\<forall>v \<in> users d. user_ID v \<noteq> k \<and> ci (user_Email v) \<noteq> ci em) \<and>
           users d' = insert \<lparr>user_ID = k, user_Email = em, user_PasswordHash = hs,
             user_CreatedAt = c, user_UpdatedAt = t\<rparr> (users d)) \<and> chars d' = chars d"
    and insert_user_dup: "q_insert_user pg i em hs d = (Inl e, d') \<Longrightarrow> errors_as_pg e = Some ''23505'' \<Longrightarrow>
        users d' = users d \<and> chars d' = chars d \<and>
        (\<exists>v \<in> users d. canon i = Some (user_ID v) \<or> ci (user_Email v) = ci em)"
    and user_by_email: "q_user_by_email pg em d = (Inr u, d') \<Longrightarrow> u \<in> users d \<and> ci (user_Email u) = ci em"
    and user_by_email_none: "q_user_by_email pg em d = (Inl e, d') \<Longrightarrow> errors_is e ErrNoRows \<Longrightarrow>
        (\<forall>v \<in> users d. ci (user_Email v) \<noteq> ci em)"
    and user_by_email_frame: "q_user_by_email pg em d = (ru, d') \<Longrightarrow> users d' = users d \<and> chars d' = chars d"
    and user_by_id: "q_user_by_id pg i d = (Inr u, d') \<Longrightarrow> u \<in> users d \<and> canon i = Some (user_ID u)"
    and user_by_id_frame: "q_user_by_id pg i d = (ru, d') \<Longrightarrow> users d' = users d \<and> chars d' = chars d"
    and insert_char_ok: "q_insert_character pg i ow n m x y d = (Inr ok, d') \<Longrightarrow>
        (\<exists>k o' c t. canon i = Some k \<and> canon ow = Some o' \<and> o' \<in> user_ID ` users d \<and>
           (\<forall>z \<in> chars d. char_ID z \<noteq> k \<and> (char_UserID z = o' \<longrightarrow> ci (char_Name z) \<noteq> ci n)) \<and>
           chars d' = insert \<lparr>char_ID = k, char_UserID = o', char_Name = n, char_MapID = m,
             char_Position = \<lparr>X = x, Y = y\<rparr>, char_CreatedAt = c, char_UpdatedAt = t\<rparr> (chars d)) \<and>
        users d' = users d"
    and chars_by_user: "q_characters_by_user pg ow d = (Inr (rows, None), d') \<Longrightarrow>
        (\<exists>cs. rows = map Inr cs \<and> distinct cs \<and>
           set cs = {z \<in> chars d. canon ow = Some (char_UserID z)} \<and>
           sorted (map (\<lambda>z. (char_CreatedAt z)) cs))"
    and chars_by_user_frame: "q_characters_by_user pg ow d = (rr, d') \<Longrightarrow> users d' = users d \<and> chars d' = chars d"
    and char_by_id: "q_character_by_id pg i d = (Inr z, d') \<Longrightarrow> z \<in> chars d \<and> canon i = Some (char_ID z)"
    and char_by_id_none: "q_character_by_id pg i d = (Inl e, d') \<Longrightarrow> errors_is e ErrNoRows \<Longrightarrow>
        (\<forall>z \<in> chars d. canon i \<noteq> Some (char_ID z))"
    and char_by_id_frame: "q_character_by_id pg i d = (rc, d') \<Longrightarrow> users d' = users d \<and> chars d' = chars d"
    and canon_idem: "canon i = Some k \<Longrightarrow> canon k = Some k"
    and canon_trim: "canon i = Some k \<Longrightarrow> TrimSpace k = k"
begin

text \<open>A character is found under every spelling of its ID, and reported under one.\<close>

lemma get_character_id:
  assumes "GetCharacterByID (Some pg) i d = (Inr z, d')"
  shows "z \<in> chars d \<and> canon i = Some (char_ID z)"
proof -
  obtain r d1 where q: "q_character_by_id pg i d = (r, d1)" by force
  with assms have "r = Inr z" by (cases r) (auto simp: GetCharacterByID_def with_pool_def scanCharacter_def)
  with q char_by_id show ?thesis by blast
qed

lemma get_character_frame:
  assumes "GetCharacterByID (Some pg) i d = (r, d')"
  shows "users d' = users d \<and> chars d' = chars d"
proof -
  obtain q d1 where q: "q_character_by_id pg i d = (q, d1)" by force
  with assms have "d' = d1" by (simp add: GetCharacterByID_def with_pool_def)
  with char_by_id_frame [OF q] show ?thesis by simp
qed

end

section \<open>An in-memory database\<close>

text \<open>Identifiers are hexadecimal text; their canonical spelling is in lower case.\<close>

definition is_hex :: "char \<Rightarrow> bool" where
  "is_hex c = (let n = (of_char (ascii_lower c) :: nat) in (48 \<le> n \<and> n \<le> 57) \<or> (97 \<le> n \<and> n \<le> 102))"

definition mem_canon :: "string \<Rightarrow> string option" where
  "mem_canon s = (if s \<noteq> [] \<and> list_all is_hex s then Some (map ascii_lower s) else None)"

definition mem_ci :: "string \<Rightarrow> string" where
  "mem_ci s = map ascii_lower s"

record mem_db =
  db_users :: "User list"
  db_chars :: "Character list"
  db_clock :: time

definition pg_code :: "string \<Rightarrow> gerr" where
  "pg_code c = PgError c"

definition mem_pg :: "mem_db pg" where
  "mem_pg = \<lparr>
     q_insert_user = (\<lambda>i em hs d. case mem_canon i of None \<Rightarrow> (Inl (pg_code ''22P02''), d)
       | Some k \<Rightarrow>
           if list_ex (\<lambda>u. user_ID u = k \<or> mem_ci (user_Email u) = mem_ci em) (db_users d)
           then (Inl (pg_code ''23505''), d)
           else (Inr (), d\<lparr>db_users := \<lparr>user_ID = k, user_Email = em, user_PasswordHash = hs,
             user_CreatedAt = db_clock d, user_UpdatedAt = db_clock d\<rparr> # db_users d\<rparr>)),
     q_user_by_email = (\<lambda>em d. case find (\<lambda>u. mem_ci (user_Email u) = mem_ci em) (db_users d) of
         None \<Rightarrow> (Inl (Sentinel ErrNoRows), d) | Some u \<Rightarrow> (Inr u, d)),
     q_user_by_id = (\<lambda>i d. case mem_canon i of None \<Rightarrow> (Inl (pg_code ''22P02''), d)
       | Some k \<Rightarrow> (case find (\<lambda>u. user_ID u = k) (db_users d) of
           None \<Rightarrow> (Inl (Sentinel ErrNoRows), d) | Some u \<Rightarrow> (Inr u, d))),
     q_insert_character = (\<lambda>i ow n m x y d. case mem_canon i of None \<Rightarrow> (Inl (pg_code ''22P02''), d)
       | Some k \<Rightarrow> (case mem_canon ow of None \<Rightarrow> (Inl (pg_code ''22P02''), d)
         | Some o' \<Rightarrow>
           if \<not> list_ex (\<lambda>u. user_ID u = o') (db_users d) then (Inl (pg_code ''23503''), d)
           else if list_ex (\<lambda>z. char_ID z = k \<or> (char_UserID z = o' \<and> mem_ci (char_Name z) = mem_ci n)) (db_chars d)
           then (Inl (pg_code ''23505''), d)
           else (Inr (), d\<lparr>db_chars := \<lparr>char_ID = k, char_UserID = o', char_Name = n, char_MapID = m,
             char_Position = \<lparr>X = x, Y = y\<rparr>, char_CreatedAt = db_clock d, char_UpdatedAt = db_clock d\<rparr> # db_chars d\<rparr>))),
     q_characters_by_user = (\<lambda>ow d. case mem_canon ow of None \<Rightarrow> (Inl (pg_code ''22P02''), d)
       | Some o' \<Rightarrow> (Inr (map Inr (sort_key char_CreatedAt (sort_key char_ID (remdups (filter (\<lambda>z. char_UserID z = o') (db_chars d))))), None), d)),
     q_character_by_id = (\<lambda>i d. case mem_canon i of None \<Rightarrow> (Inl (pg_code ''22P02''), d)
       | Some k \<Rightarrow> (case find (\<lambda>z. char_ID z = k) (db_chars d) of
           None \<Rightarrow> (Inl (Sentinel ErrNoRows), d) | Some z \<Rightarrow> (Inr z, d)))\<rparr>"

lemma of_char_ascii_lower:
  "(of_char (ascii_lower c) :: nat) =
     (if 65 \<le> (of_char c :: nat) \<and> (of_char c :: nat) \<le> 90 then of_char c + 32 else of_char c)"
  by (simp add: ascii_lower_def of_char_of take_bit_eq_mod)

lemma ascii_lower_idem [simp]: "ascii_lower (ascii_lower c) = ascii_lower c"
  by (simp add: ascii_lower_def of_char_of take_bit_eq_mod)

lemma mem_canon_idem: "mem_canon i = Some k \<Longrightarrow> mem_canon k = Some k"
  by (auto simp: mem_canon_def is_hex_def list_all_iff split: if_splits)

lemma is_hex_plain: "is_hex c \<Longrightarrow> plain_byte (ascii_lower c)"
  by (auto simp: is_hex_def plain_byte_def Let_def)

lemma mem_canon_trim: "mem_canon i = Some k \<Longrightarrow> TrimSpace k = k"
  by (rule TrimSpace_plain) (auto simp: mem_canon_def list_all_iff is_hex_plain split: if_splits)

interpretation mem_database: postgres_db mem_pg "\<lambda>d. set (db_users d)" "\<lambda>d. set (db_chars d)" mem_canon mem_ci
proof (unfold_locales, goal_cases)
  case (1 i em hs d ok d')
  then show ?case
    by (auto simp: mem_pg_def list_ex_iff intro!: exI [of _ "db_clock d"] split: option.splits if_splits)
next
  case (2 i em hs d e d')
  then show ?case by (auto simp: mem_pg_def pg_code_def list_ex_iff split: option.splits if_splits)
next
  case (8 i ow n m x y d ok d')
  then obtain k o' where k: "mem_canon i = Some k" "mem_canon ow = Some o'"
    by (simp add: mem_pg_def split: option.splits)
  with 8 have "list_ex (\<lambda>u. user_ID u = o') (db_users d)"
    "\<not> list_ex (\<lambda>z. char_ID z = k \<or> (char_UserID z = o' \<and> mem_ci (char_Name z) = mem_ci n)) (db_chars d)"
    "d' = d\<lparr>db_chars := \<lparr>char_ID = k, char_UserID = o', char_Name = n, char_MapID = m,
       char_Position = \<lparr>X = x, Y = y\<rparr>, char_CreatedAt = db_clock d, char_UpdatedAt = db_clock d\<rparr> # db_chars d\<rparr>"
    by (simp_all add: mem_pg_def split: if_splits)
  with k show ?case
    by (intro conjI exI [of _ k] exI [of _ o'] exI [of _ "db_clock d"]) (auto simp: list_ex_iff)
next
  case (9 ow d rows d')
  then show ?case by (auto simp: mem_pg_def split: option.splits)
next
  case (14 i k)
  then show ?case by (rule mem_canon_idem)
next
  case (15 i k)
  then show ?case by (rule mem_canon_trim)
qed (auto simp: mem_pg_def pg_code_def find_Some_iff find_None_iff split: option.splits if_splits)

section \<open>Transactions\<close>

text \<open>
  What the driver documents of a transaction: a commit that succeeds publishes the work,
  one that fails leaves it open whether it did, a rollback publishes nothing more.
\<close>

locale transaction =
  fixes tx :: "'t tx" and published :: "'t \<Rightarrow> 'v" and working :: "'t \<Rightarrow> 'v"
  assumes commit_ok: "tx_commit tx t = (Inr u, t') \<Longrightarrow> published t' = working t"
    and commit_err: "tx_commit tx t = (Inl e, t') \<Longrightarrow> published t' = published t \<or> published t' = working t"
    and rollback: "published (tx_rollback tx t) = published t"
begin

lemma run_cases:
  assumes "RunAndCommit tx work t = (r, t')"
  obtains (failed) t1 where "work t = (Panicked, t1) \<or> (\<exists>e. work t = (Returned (Inl e), t1))" "r = fst (work t)"
      "t' = tx_rollback tx t1"
  | (commit_failed) t1 e t2 where "work t = (Returned (Inr ()), t1)" "tx_commit tx t1 = (Inl e, t2)"
      "r = Returned (Inl (Wrap ''commit transaction'' [e]))" "t' = tx_rollback tx t2"
  | (committed) t1 where "work t = (Returned (Inr ()), t1)" "tx_commit tx t1 = (Inr (), t')" "r = Returned (Inr ())"
proof -
  obtain o1 t1 where w: "work t = (o1, t1)" by force
  show ?thesis
  proof (cases o1)
    case Panicked
    with w assms failed [of t1] show ?thesis by (simp add: RunAndCommit_def)
  next
    case (Returned x)
    show ?thesis
    proof (cases x)
      case (Inl e)
      then have w': "work t = (Returned (Inl e), t1)" using w Returned by simp
      with assms have "r = fst (work t)" "t' = tx_rollback tx t1" by (simp_all add: RunAndCommit_def)
      with failed [of t1] w' show ?thesis by blast
    next
      case (Inr u)
      obtain c t2 where c: "tx_commit tx t1 = (c, t2)" by force
      have w': "work t = (Returned (Inr ()), t1)" using w Returned Inr by simp
      show ?thesis
      proof (cases c)
        case (Inl e)
        with w' c assms have "r = Returned (Inl (Wrap ''commit transaction'' [e]))" "t' = tx_rollback tx t2"
          by (simp_all add: RunAndCommit_def)
        with commit_failed [OF w'] c Inl show ?thesis by simp
      next
        case (Inr v)
        with w' c assms have "r = Returned (Inr ())" "t' = t2" by (simp_all add: RunAndCommit_def)
        with committed [OF w'] c Inr show ?thesis by simp
      qed
    qed
  qed
qed

lemma run_atomic:
  assumes "RunAndCommit tx work t = (r, t')" and "published (snd (work t)) = published t"
  shows "(r = Returned (Inr ()) \<longrightarrow> published t' = working (snd (work t))) \<and>
    (published t' = published t \<or> published t' = working (snd (work t))) \<and>
    ((fst (work t) = Panicked \<or> (\<exists>e. fst (work t) = Returned (Inl e))) \<longrightarrow> published t' = published t \<and> r = fst (work t))"
  using assms(1)
proof (cases rule: run_cases)
  case (failed t1)
  then show ?thesis using assms(2) rollback by auto
next
  case (commit_failed t1 e t2)
  then show ?thesis using assms(2) rollback commit_err [OF commit_failed(2)] by auto
next
  case (committed t1)
  then show ?thesis using commit_ok by auto
qed

end

text \<open>A connection as a pair of the published and the working value.\<close>

definition pair_tx :: "(bool \<times> 'v \<times> 'v) tx" where
  "pair_tx = \<lparr>tx_commit = (\<lambda>(up, p, w). if up then (Inr (), (up, w, w)) else (Inl (Opaque ''conn closed''), (up, p, w))),
     tx_rollback = (\<lambda>(up, p, w). (up, p, p))\<rparr>"

interpretation pair_transaction: transaction pair_tx "\<lambda>(up, p, w). p" "\<lambda>(up, p, w). w"
  by unfold_locales (auto simp: pair_tx_def split: if_splits)

section \<open>Properties\<close>

text \<open>
  Error mapping: the stores turn a missing row into not found and a violated unique
  constraint into already exists, and keep every other error as the wrapped cause, so
  that no other error is taken for one of the two.
\<close>

theorem postgres_errors_classified:
  "(errors_is e ErrNoRows \<longrightarrow> pgErr e = Sentinel ErrNotFound) \<and>
   (\<not> errors_is e ErrNoRows \<and> errors_as_pg e = Some ''23505'' \<longrightarrow> pgErr e = Sentinel ErrAlreadyExists) \<and>
   (\<not> errors_is e ErrNoRows \<and> errors_as_pg e \<noteq> Some ''23505'' \<longrightarrow>
      (\<forall>t. errors_is (pgErr e) t \<longleftrightarrow> errors_is e t) \<and> errors_as_pg (pgErr e) = errors_as_pg e)"
  by (auto simp: pgErr_def mapPostgresError_def uniqueViolationCode_def split: option.splits)

text \<open>
  Accounts: creating a user succeeds only when neither the ID nor the e-mail, up to
  case, is taken; it then is found by every spelling of its e-mail, with the stored
  password hash, unless the database did not answer, and a second creation with the same
  e-mail fails.
\<close>

theorem user_roundtrip:
  assumes "postgres_db pg users chars canon ci"
    and "\<forall>a \<in> users d. \<forall>b \<in> users d. ci (user_Email a) = ci (user_Email b) \<longrightarrow> a = b"
    and "CreateUser (Some pg) u d = (Inr x, d1)"
    and "GetUserByEmail (Some pg) em d1 = (r, d2)" and "ci em = ci (user_Email u)"
    and "CreateUser (Some pg) v d1 = (r', d3)" and "ci (user_Email v) = ci (user_Email u)"
  shows "(\<forall>w. r = Inr w \<longrightarrow> user_PasswordHash w = user_PasswordHash u \<and> canon (user_ID u) = Some (user_ID w)) \<and>
    r \<noteq> Inl (Sentinel ErrNotFound) \<and> (\<exists>e. r' = Inl e)"
proof -
  have ins: "q_insert_user pg (user_ID u) (user_Email u) (user_PasswordHash u) d = (Inr x, d1)"
    using assms(3) by (simp add: CreateUser_def with_pool_def)
  from postgres_db.insert_user_ok [OF assms(1) ins] obtain k c t where
    k: "canon (user_ID u) = Some k" "\<forall>v \<in> users d. user_ID v \<noteq> k \<and> ci (user_Email v) \<noteq> ci (user_Email u)" and
    us: "users d1 = insert \<lparr>user_ID = k, user_Email = user_Email u, user_PasswordHash = user_PasswordHash u,
       user_CreatedAt = c, user_UpdatedAt = t\<rparr> (users d)" by blast
  obtain q d' where q: "q_user_by_email pg em d1 = (q, d')" by force
  have r: "r = mapErr pgErr q" using assms(4) q by (simp add: GetUserByEmail_def with_pool_def scanUser_def)
  have "user_PasswordHash w = user_PasswordHash u \<and> canon (user_ID u) = Some (user_ID w)" if "r = Inr w" for w
  proof -
    from that r have "q = Inr w" by (cases q) auto
    with postgres_db.user_by_email [OF assms(1)] q have "w \<in> users d1" "ci (user_Email w) = ci em" by blast+
    with us k assms(5) show ?thesis by auto
  qed
  moreover have "r \<noteq> Inl (Sentinel ErrNotFound)"
  proof
    assume "r = Inl (Sentinel ErrNotFound)"
    with r obtain e where e: "q = Inl e" "pgErr e = Sentinel ErrNotFound" by (cases q) auto
    then have "errors_is e ErrNoRows"
      by (auto simp: pgErr_def mapPostgresError_def split: if_splits option.splits)
    with postgres_db.user_by_email_none [OF assms(1)] q e have "\<forall>v \<in> users d1. ci (user_Email v) \<noteq> ci em" by blast
    with us assms(5) show False by simp
  qed
  moreover have "\<exists>e. r' = Inl e"
  proof (cases r')
    case (Inr y)
    then have "q_insert_user pg (user_ID v) (user_Email v) (user_PasswordHash v) d1 = (Inr y, d3)"
      using assms(6) by (simp add: CreateUser_def with_pool_def)
    from postgres_db.insert_user_ok [OF assms(1) this] us assms(7) show ?thesis by auto
  qed simp
  ultimately show ?thesis by blast
qed


section \<open>Witnesses\<close>

definition w_user_row :: "string \<Rightarrow> string \<Rightarrow> User" where
  "w_user_row i em = \<lparr>user_ID = i, user_Email = em, user_PasswordHash = ''h'', user_CreatedAt = 0, user_UpdatedAt = 0\<rparr>"

definition w_db0 :: mem_db where
  "w_db0 = \<lparr>db_users = [], db_chars = [], db_clock = 7\<rparr>"

theorem postgres_errors_classified_witness:
  "pgErr (Wrap ''scan'' [Sentinel ErrNoRows]) = Sentinel ErrNotFound"
  using postgres_errors_classified [of "Wrap ''scan'' [Sentinel ErrNoRows]"] by simp

theorem user_roundtrip_witness:
  "\<exists>w. fst (GetUserByEmail (Some mem_pg) ''A@b.c'' (snd (CreateUser (Some mem_pg) (w_user_row ''AB1'' ''a@b.c'') w_db0))) = Inr w \<and>
     user_PasswordHash w = ''h'' \<and> Some (user_ID w) = Some ''ab1''"
proof -
  let ?c = "CreateUser (Some mem_pg) (w_user_row ''AB1'' ''a@b.c'') w_db0"
  let ?g = "GetUserByEmail (Some mem_pg) ''A@b.c'' (snd ?c)"
  let ?c2 = "CreateUser (Some mem_pg) (w_user_row ''2'' ''a@B.c'') (snd ?c)"
  have "fst ?c = Inr ()" by code_simp
  then have c: "?c = (Inr (), snd ?c)" by (simp add: prod_eq_iff)
  have g: "?g = (fst ?g, snd ?g)" and c2: "?c2 = (fst ?c2, snd ?c2)" by simp_all
  have u: "\<forall>a \<in> set (db_users w_db0). \<forall>b \<in> set (db_users w_db0). mem_ci (user_Email a) = mem_ci (user_Email b) \<longrightarrow> a = b"
    by (simp add: w_db0_def)
  have e: "mem_ci ''A@b.c'' = mem_ci (user_Email (w_user_row ''AB1'' ''a@b.c''))"
    "mem_ci (user_Email (w_user_row ''2'' ''a@B.c'')) = mem_ci (user_Email (w_user_row ''AB1'' ''a@b.c''))" by code_simp+
  obtain w where w: "fst ?g = Inr w" "user_PasswordHash w = ''h''" "user_ID w = ''ab1''"
  proof -
    have "fst ?g = Inr \<lparr>user_ID = ''ab1'', user_Email = ''a@b.c'', user_PasswordHash = ''h'',
       user_CreatedAt = 7, user_UpdatedAt = 7\<rparr>" by code_simp
    then show ?thesis using that by simp
  qed
  have "user_PasswordHash w = user_PasswordHash (w_user_row ''AB1'' ''a@b.c'')"
    using user_roundtrip [OF mem_database.postgres_db_axioms u c g e(1) c2 e(2)] w(1) by blast
  with w show ?thesis by blast
qed


end
