(* ===== verification/Keyspace.thy ===== *)
theory Keyspace
  imports Redis_Client
begin

text \<open>
  The typing discipline of the shared key space: which key families hold strings and
  which hold sets. It is the well-formedness invariant of the Redis state that every
  store operation keeps, and the reason why no store ever meets a key of the wrong type.
  The theory also holds the nil-receiver guard that every store method starts with.
\<close>

section \<open>Definitions\<close>

text \<open>\<open>if s == nil || s.client == nil { return ..., domain.ErrUnavailable }\<close>\<close>

definition with_client ::
  "'st option \<Rightarrow> ('st \<Rightarrow> 's redis option) \<Rightarrow> 's \<Rightarrow> ('st \<Rightarrow> 's redis \<Rightarrow> 'a result \<times> 's) \<Rightarrow> 'a result \<times> 's" where
  "with_client st client s body =
     (case st of None \<Rightarrow> (Inl (Sentinel ErrUnavailable), s)
      | Some st \<Rightarrow> (case client st of None \<Rightarrow> (Inl (Sentinel ErrUnavailable), s)
          | Some rc \<Rightarrow> body st rc))"

definition set_key :: "kv \<Rightarrow> string \<Rightarrow> bool" where
  "set_key m k = (case m k of Some (RStr v, t) \<Rightarrow> False | _ \<Rightarrow> True)"

definition set_family :: "string \<Rightarrow> bool" where
  "set_family f = (f = ''user_sessions'' \<or> f = ''servers'')"

definition wf_keys :: "KeyBuilder \<Rightarrow> kv \<Rightarrow> bool" where
  "wf_keys k m =
     (\<forall>parts key. build k parts = Inr key \<longrightarrow>
        (if set_family (hd parts) then set_key m key else str_key m key))"

text \<open>Only keys of the families \<open>F\<close> differ, and every key still holds a value of the type of its family.\<close>

definition keeps_to :: "string set \<Rightarrow> KeyBuilder \<Rightarrow> kv \<Rightarrow> kv \<Rightarrow> bool" where
  "keeps_to F k m m' = (wf_keys k m' \<and> (\<forall>parts key. build k parts = Inr key \<longrightarrow> hd parts \<notin> F \<longrightarrow> m' key = m key))"

definition set_members :: "(rval \<times> int option) option \<Rightarrow> string set" where
  "set_members e = (case e of Some (RSet A, t) \<Rightarrow> A | _ \<Rightarrow> {})"

section \<open>Lemmas\<close>

lemma set_members_simps [simp]: "set_members None = {}" "set_members (Some (RSet A, t)) = A"
  by (simp_all add: set_members_def)


lemma with_client_simps [simp]:
  "with_client None client s body = (Inl (Sentinel ErrUnavailable), s)"
  "client st = None \<Longrightarrow> with_client (Some st) client s body = (Inl (Sentinel ErrUnavailable), s)"
  "client st = Some rc \<Longrightarrow> with_client (Some st) client s body = body st rc"
  by (simp_all add: with_client_def)

lemma set_key_cases:
  assumes "set_key m k"
  obtains (None) "m k = None" | (Set) A t where "m k = Some (RSet A, t)"
  using assms by (auto simp: set_key_def split: option.splits rval.splits)

lemma wf_keys_str:
  "wf_keys k m \<Longrightarrow> build k parts = Inr key \<Longrightarrow> \<not> set_family (hd parts) \<Longrightarrow> str_key m key"
  by (auto simp: wf_keys_def)

lemma wf_keys_set:
  "wf_keys k m \<Longrightarrow> build k parts = Inr key \<Longrightarrow> set_family (hd parts) \<Longrightarrow> set_key m key"
  by (auto simp: wf_keys_def)

lemma wf_keys_empty: "wf_keys k (\<lambda>_. None)"
  by (simp add: wf_keys_def set_key_def str_key_def)

lemma wf_keys_upd:
  assumes "wf_keys k m" and "build k parts = Inr key"
    and "if set_family (hd parts) then set_key (m(key := e)) key else str_key (m(key := e)) key"
  shows "wf_keys k (m(key := e))"
  unfolding wf_keys_def
proof (intro allI impI)
  fix parts' key'
  assume b: "build k parts' = Inr key'"
  show "if set_family (hd parts') then set_key (m(key := e)) key' else str_key (m(key := e)) key'"
  proof (cases "key' = key")
    case True
    with b assms(2) have "parts' = parts" using build_inject by blast
    with True assms(3) show ?thesis by simp
  next
    case False
    then have "set_key (m(key := e)) key' = set_key m key'" "str_key (m(key := e)) key' = str_key m key'"
      by (simp_all add: set_key_def str_key_def)
    with b assms(1) show ?thesis unfolding wf_keys_def by simp
  qed
qed

text \<open>Removing keys, whichever they are, keeps the discipline.\<close>

lemma wf_keys_restrict:
  assumes "wf_keys k m" and "\<And>key. m' key = m key \<or> m' key = None"
  shows "wf_keys k m'"
  unfolding wf_keys_def
proof (intro allI impI)
  fix parts key
  assume "build k parts = Inr key"
  with assms(1) have "if set_family (hd parts) then set_key m key else str_key m key"
    unfolding wf_keys_def by simp
  with assms(2) [of key] show "if set_family (hd parts) then set_key m' key else str_key m' key"
    by (auto simp: set_key_def str_key_def)
qed

lemma wf_keys_del: "wf_keys k m \<Longrightarrow> wf_keys k (m(key := None))"
  by (erule wf_keys_restrict) simp

lemma wf_keys_str_upd:
  "wf_keys k m \<Longrightarrow> build k parts = Inr key \<Longrightarrow> \<not> set_family (hd parts) \<Longrightarrow>
     wf_keys k (m(key \<mapsto> (RStr v, t)))"
  by (rule wf_keys_upd) (auto simp: str_key_def)

lemma wf_keys_set_upd:
  "wf_keys k m \<Longrightarrow> build k parts = Inr key \<Longrightarrow> set_family (hd parts) \<Longrightarrow>
     wf_keys k (m(key \<mapsto> (RSet A, t)))"
  by (rule wf_keys_upd) (auto simp: set_key_def)

lemma wf_keys_age: "wf_keys k m \<Longrightarrow> wf_keys k (age d m)"
  by (fastforce simp: wf_keys_def age_def set_key_def str_key_def
      split: option.splits rval.splits if_splits)

lemma keeps_to_refl: "wf_keys k m \<Longrightarrow> keeps_to F k m m"
  by (simp add: keeps_to_def)

lemma keeps_to_wf: "keeps_to F k m m' \<Longrightarrow> wf_keys k m'"
  by (simp add: keeps_to_def)

lemma keeps_to_trans: "keeps_to F k m m' \<Longrightarrow> keeps_to F k m' m'' \<Longrightarrow> keeps_to F k m m''"
  by (simp add: keeps_to_def)

lemma keeps_to_upd:
  assumes "build k parts = Inr key" and "hd parts \<in> F" and "wf_keys k (m(key := e))"
  shows "keeps_to F k m (m(key := e))"
  unfolding keeps_to_def
proof (intro conjI allI impI)
  fix qs key'
  assume b: "build k qs = Inr key'" and f: "hd qs \<notin> F"
  have "key' \<noteq> key" using build_inject [OF assms(1), of qs] b f assms(2) by metis
  then show "(m(key := e)) key' = m key'" by simp
qed (rule assms(3))

lemma keeps_to_str:
  "wf_keys k m \<Longrightarrow> build k parts = Inr key \<Longrightarrow> hd parts \<in> F \<Longrightarrow> \<not> set_family (hd parts) \<Longrightarrow>
     keeps_to F k m (m(key \<mapsto> (RStr v, t)))"
  by (rule keeps_to_upd) (auto intro: wf_keys_str_upd)

lemma keeps_to_set:
  "wf_keys k m \<Longrightarrow> build k parts = Inr key \<Longrightarrow> hd parts \<in> F \<Longrightarrow> set_family (hd parts) \<Longrightarrow>
     keeps_to F k m (m(key \<mapsto> (RSet A, t)))"
  by (rule keeps_to_upd) (auto intro: wf_keys_set_upd)

lemma keeps_to_del:
  "wf_keys k m \<Longrightarrow> build k parts = Inr key \<Longrightarrow> hd parts \<in> F \<Longrightarrow> keeps_to F k m (m(key := None))"
  by (rule keeps_to_upd) (auto intro: wf_keys_del)

lemma families_string [simp]:
  "\<not> set_family ''session''" "\<not> set_family ''join_token''" "\<not> set_family ''server''"
  "\<not> set_family ''character_lock''" "\<not> set_family ''rate_limit''"
  "set_family ''user_sessions''" "set_family ''servers''"
  by (simp_all add: set_family_def)

section \<open>Commands on typed keys\<close>

lemma lua_do_ok: "fst p = r \<Longrightarrow> (\<And>m. r \<noteq> RErr m) \<Longrightarrow> lua_do p f = f r (snd p)"
  by (cases p; cases r) auto

context redis_server
begin

lemma c_Eval_view:
  assumes "c_Eval rc f s = (r, s')"
  shows "view s' = view s \<or> view s' = view (snd (f s))"
proof (cases r)
  case (Inl e)
  then show ?thesis using c_Eval_Inl_view assms by simp
next
  case (Inr x)
  then show ?thesis using c_Eval_Inr [of f s x s'] assms by simp
qed

lemma sadd_run:
  assumes "set_key (view s) k"
  shows "\<exists>n. fst (rcall rc (SADD k x) s) = RInt n"
    and "view (snd (rcall rc (SADD k x) s)) = (view s)(k \<mapsto> (RSet (insert x (set_members (view s k))),
       case view s k of Some (y, t) \<Rightarrow> t | None \<Rightarrow> None))"
  using assms by (cases rule: set_key_cases; use sadd_none [of s k x] sadd_set [of s k _ _ x] in auto)+

lemma c_SAdd_Inr:
  assumes "c_SAdd rc k x s = (Inr n, s')" and "set_key (view s) k"
  shows "view s' = (view s)(k \<mapsto> (RSet (insert x (set_members (view s k))),
       case view s k of Some (y, t) \<Rightarrow> t | None \<Rightarrow> None))"
  using run_with_Inr [OF assms(1) [unfolded client_defs]] sadd_run(2) [OF assms(2), of x] by simp

lemma c_SAdd_view:
  assumes "c_SAdd rc k x s = (r, s')" and "set_key (view s) k"
  shows "view s' = view s \<or> view s' = (view s)(k \<mapsto> (RSet (insert x (set_members (view s k))),
       case view s k of Some (y, t) \<Rightarrow> t | None \<Rightarrow> None))"
proof (cases r)
  case (Inl e)
  then show ?thesis
    using run_with_Inl [OF assms(1) [unfolded client_defs Inl]] sadd_run(2) [OF assms(2), of x] by auto
next
  case (Inr n)
  then show ?thesis using c_SAdd_Inr [of k x s n s'] assms by auto
qed

lemma c_Expire_view:
  assumes "c_Expire rc k ttl s = (r, s')" and "0 < ttl"
  shows "view s' = view s \<or> (\<exists>y t. view s k = Some (y, t) \<and> view s' = (view s)(k \<mapsto> (y, Some (ex_ms rc ttl))))"
proof -
  let ?c = "rcall rc (PEXPIRE k (ex_ms rc ttl))"
  have "view (snd (?c s)) = view s \<or> (\<exists>y t. view s k = Some (y, t) \<and> view (snd (?c s)) = (view s)(k \<mapsto> (y, Some (ex_ms rc ttl))))"
  proof (cases "view s k")
    case None
    then show ?thesis using pexpire_none [OF None] by simp
  next
    case (Some yt)
    then obtain y t where "view s k = Some (y, t)" by (cases yt) auto
    then show ?thesis using pexpire_some [of s k y t, OF _ ex_pos [OF assms(2)]] by auto
  qed
  moreover have "view s' = view s \<or> view s' = view (snd (?c s))"
  proof (cases r)
    case (Inl e)
    then show ?thesis using run_with_Inl [OF assms(1) [unfolded client_defs Inl]] by simp
  next
    case (Inr n)
    then show ?thesis using run_with_Inr [OF assms(1) [unfolded client_defs Inr]] by simp
  qed
  ultimately show ?thesis by auto
qed

lemma c_Expire_Inr:
  assumes "c_Expire rc k ttl s = (Inr b, s')" and "0 < ttl" and "view s k = Some (y, t)"
  shows "view s' = (view s)(k \<mapsto> (y, Some (ex_ms rc ttl)))"
  using run_with_Inr [OF assms(1) [unfolded client_defs]] pexpire_some [OF assms(3) ex_pos [OF assms(2)]] by simp

lemma c_Del_Inr: "c_Del rc k s = (Inr n, s') \<Longrightarrow> view s' = (view s)(k := None)"
  using run_with_Inr [of decode_int "rcall rc (DEL k)" s n s'] by (simp add: client_defs del_view [symmetric])

lemma c_Del_view:
  assumes "c_Del rc k s = (r, s')"
  shows "view s' = view s \<or> view s' = (view s)(k := None)"
proof (cases r)
  case (Inl e)
  then show ?thesis using run_with_Inl [OF assms [unfolded client_defs Inl]] by (simp add: del_view)
next
  case (Inr n)
  then show ?thesis using c_Del_Inr assms by simp
qed

lemma c_SMembers_view:
  assumes "c_SMembers rc k s = (r, s')"
  shows "view s' = view s"
proof (cases r)
  case (Inl e)
  then show ?thesis using run_with_Inl [OF assms [unfolded client_defs Inl]] by (simp add: smembers_view)
next
  case (Inr n)
  then show ?thesis using run_with_Inr [OF assms [unfolded client_defs Inr]] smembers_view [of k s] by simp
qed

lemma c_SMembers_Inr:
  assumes "c_SMembers rc k s = (Inr xs, s')" and "set_key (view s) k"
  shows "set xs = set_members (view s k) \<and> distinct xs"
proof -
  have d: "decode_strs (fst (rcall rc (SMEMBERS k) s)) = Inr xs"
    using run_with_Inr [OF assms(1) [unfolded client_defs]] by simp
  show ?thesis using assms(2)
  proof (cases rule: set_key_cases)
    case None
    with d show ?thesis by (simp add: smembers_none decode_strs_def)
  next
    case (Set A t)
    from smembers_set [OF Set] d Set show ?thesis by (auto simp: decode_strs_def)
  qed
qed

end

end
