(* ===== verification/Sessions.thy ===== *)
theory Sessions
  imports Keyspace
begin

text \<open>
  The session store, \<open>internal/store/redis/sessions.go\<close>: session keys that hold the
  owner, a per-user index set for bulk revocation, and the three Lua scripts that keep
  the two together. The invariant \<open>sessions_indexed\<close> says that every live session is
  listed in a live index of its owner; it is what makes bulk revocation complete.
\<close>

section \<open>Definitions\<close>

record 's SessionStore =
  ss_client :: "'s redis option"
  ss_keys :: KeyBuilder
  ss_ttl :: duration

definition NewSessionStore ::
  "'s redis option \<Rightarrow> KeyBuilder \<Rightarrow> duration \<Rightarrow> 's SessionStore result" where
  "NewSessionStore client keys ttl =
     (if client = None then Inl (Wrap ''redis client is required'' [Sentinel ErrInvalidArgument])
      else if ttl \<le> 0 then Inl (Wrap ''session TTL must be > 0'' [Sentinel ErrInvalidArgument])
      else Inr \<lparr>ss_client = client, ss_keys = keys, ss_ttl = ttl\<rparr>)"

text \<open>\<open>KEYS\<close> are the session key and the index key, \<open>ARGV\<close> the user, the milliseconds and the session.\<close>

definition createSessionScript ::
  "'s redis \<Rightarrow> string \<Rightarrow> string \<Rightarrow> string \<Rightarrow> int \<Rightarrow> string \<Rightarrow> 's \<Rightarrow> reply \<times> 's" where
  "createSessionScript rc key1 key2 user ms sid s =
     lua_do (rcall rc (SET key1 user ms) s) (\<lambda>_ s1.
     lua_do (rcall rc (SADD key2 sid) s1) (\<lambda>_ s2.
     lua_do (rcall rc (PEXPIRE key2 ms) s2) (\<lambda>_ s3.
     (RInt 1, s3))))"

definition deleteSessionScript ::
  "'s redis \<Rightarrow> string \<Rightarrow> string \<Rightarrow> string \<Rightarrow> 's \<Rightarrow> reply \<times> 's" where
  "deleteSessionScript rc key1 key2 sid s =
     lua_do (rcall rc (GET key1) s) (\<lambda>user_id s1.
     if user_id = RNil then (RInt 0, s1)
     else lua_do (rcall rc (DEL key1) s1) (\<lambda>_ s2.
          lua_do (rcall rc (SREM key2 sid) s2) (\<lambda>_ s3.
          (RInt 1, s3))))"

fun lua_del_each :: "'s redis \<Rightarrow> string \<Rightarrow> string list \<Rightarrow> 's \<Rightarrow> reply \<times> 's" where
  "lua_del_each rc prefix [] s = (RNil, s)"
| "lua_del_each rc prefix (session_id # rest) s =
     lua_do (rcall rc (DEL (prefix @ session_id)) s) (\<lambda>_ s1. lua_del_each rc prefix rest s1)"

definition deleteUserSessionsScript :: "'s redis \<Rightarrow> string \<Rightarrow> string \<Rightarrow> 's \<Rightarrow> reply \<times> 's" where
  "deleteUserSessionsScript rc key1 prefix s =
     lua_do (rcall rc (SMEMBERS key1) s) (\<lambda>r s1.
     let session_ids = (case r of RArray xs \<Rightarrow> xs | _ \<Rightarrow> []) in
     lua_do (lua_del_each rc prefix session_ids s1) (\<lambda>_ s2.
     lua_do (rcall rc (DEL key1) s2) (\<lambda>_ s3.
     (RInt (int (length session_ids)), s3))))"

definition CreateSession :: "'s SessionStore option \<Rightarrow> string \<Rightarrow> string \<Rightarrow> 's \<Rightarrow> unit result \<times> 's" where
  "CreateSession store sessionID userID s =
     with_client store ss_client s (\<lambda>st rc.
       bindP (mapErr (redisKeyError ''build session key'') (key_Session (ss_keys st) sessionID)) s (\<lambda>sessionKey.
       bindP (mapErr (redisKeyError ''build user sessions key'') (UserSessions (ss_keys st) userID)) s (\<lambda>userSessionsKey.
       bindS (mapErrS (\<lambda>e. redisUnavailable ''create session'' (Some e))
         (c_Eval rc (createSessionScript rc sessionKey userSessionsKey userID (ss_ttl st div Millisecond) sessionID) s))
         (\<lambda>_ s1. (Inr (), s1)))))"

definition getSessionError :: "gerr \<Rightarrow> gerr" where
  "getSessionError e = (if errors_is e RedisNil then Sentinel ErrUnauthenticated
     else redisUnavailable ''get session'' (Some e))"

definition GetSessionUserID :: "'s SessionStore option \<Rightarrow> string \<Rightarrow> 's \<Rightarrow> string result \<times> 's" where
  "GetSessionUserID store sessionID s =
     with_client store ss_client s (\<lambda>st rc.
       bindP (RequiredID ''session ID'' sessionID) s (\<lambda>sid.
       bindP (mapErr (redisKeyError ''build session key'') (key_Session (ss_keys st) sid)) s (\<lambda>sessionKey.
       bindS (mapErrS getSessionError (c_Get rc sessionKey s)) (\<lambda>userID s1.
       (mapErr (\<lambda>_. Sentinel ErrUnauthenticated) (RequiredID ''user ID'' userID), s1)))))"

definition DeleteSession :: "'s SessionStore option \<Rightarrow> string \<Rightarrow> 's \<Rightarrow> unit result \<times> 's" where
  "DeleteSession store sessionID s =
     with_client store ss_client s (\<lambda>st rc.
       bindP (RequiredID ''session ID'' sessionID) s (\<lambda>sid.
       bindP (mapErr (redisKeyError ''build session key'') (key_Session (ss_keys st) sid)) s (\<lambda>sessionKey.
       case GetSessionUserID store sid s of
         (Inl e, s1) \<Rightarrow> if errors_is e ErrUnauthenticated then (Inr (), s1) else (Inl e, s1)
       | (Inr userID, s1) \<Rightarrow>
           bindP (mapErr (redisKeyError ''build user sessions key'') (UserSessions (ss_keys st) userID)) s1 (\<lambda>userSessionsKey.
           bindS (mapErrS (\<lambda>e. redisUnavailable ''delete session'' (Some e))
             (c_Eval rc (deleteSessionScript rc sessionKey userSessionsKey sid) s1))
             (\<lambda>_ s2. (Inr (), s2))))))"

definition DeleteUserSessions :: "'s SessionStore option \<Rightarrow> string \<Rightarrow> 's \<Rightarrow> unit result \<times> 's" where
  "DeleteUserSessions store userID s =
     with_client store ss_client s (\<lambda>st rc.
       bindP (RequiredID ''user ID'' userID) s (\<lambda>uid.
       bindP (mapErr (redisKeyError ''build user sessions key'') (UserSessions (ss_keys st) uid)) s (\<lambda>userSessionsKey.
       bindP (mapErr (redisKeyError ''build session prefix'') (SessionPrefix (ss_keys st))) s (\<lambda>sessionPrefix.
       bindS (mapErrS (\<lambda>e. redisUnavailable ''delete user sessions'' (Some e))
         (c_Eval rc (deleteUserSessionsScript rc userSessionsKey sessionPrefix) s))
         (\<lambda>_ s1. (Inr (), s1))))))"

text \<open>The live sessions with their owners, and the live indexes, read off the live keys.\<close>

definition str_entry :: "(rval \<times> int option) option \<Rightarrow> (string \<times> int option) option" where
  "str_entry e = (case e of Some (RStr v, t) \<Rightarrow> Some (v, t) | _ \<Rightarrow> None)"

definition set_entry :: "(rval \<times> int option) option \<Rightarrow> (string set \<times> int option) option" where
  "set_entry e = (case e of Some (RSet A, t) \<Rightarrow> Some (A, t) | _ \<Rightarrow> None)"

definition session_entry :: "KeyBuilder \<Rightarrow> kv \<Rightarrow> string \<Rightarrow> (string \<times> int option) option" where
  "session_entry k m sid =
     (case key_Session k sid of Inl e \<Rightarrow> None | Inr key \<Rightarrow> str_entry (m key))"

definition index_entry :: "KeyBuilder \<Rightarrow> kv \<Rightarrow> string \<Rightarrow> (string set \<times> int option) option" where
  "index_entry k m u =
     (case UserSessions k u of Inl e \<Rightarrow> None | Inr key \<Rightarrow> set_entry (m key))"

definition session_owner :: "KeyBuilder \<Rightarrow> kv \<Rightarrow> string \<Rightarrow> string option" where
  "session_owner k m sid = map_option fst (session_entry k m sid)"

text \<open>
  The index invariant: a live session expires within the configured time, its owner's
  index lists it and does not expire before it, and an index lists only session IDs
  that make valid keys.
\<close>

definition sessions_indexed :: "KeyBuilder \<Rightarrow> int \<Rightarrow> kv \<Rightarrow> bool" where
  "sessions_indexed k ms m =
     ((\<forall>sid u t. session_entry k m sid = Some (u, t) \<longrightarrow>
         (\<exists>A n n'. index_entry k m u = Some (A, Some n') \<and> sid \<in> A \<and> t = Some n \<and> n \<le> n' \<and> n \<le> ms)) \<and>
      (\<forall>u A t sid. index_entry k m u = Some (A, t) \<longrightarrow> sid \<in> A \<longrightarrow> (\<exists>key. key_Session k sid = Inr key)))"

text \<open>The whole well-formedness of the session part of the key space.\<close>

definition owners_valid :: "KeyBuilder \<Rightarrow> kv \<Rightarrow> bool" where
  "owners_valid k m = (\<forall>sid u. session_owner k m sid = Some u \<longrightarrow> key_segment maxIDBytes u)"

definition wf_sessions :: "'s SessionStore \<Rightarrow> kv \<Rightarrow> bool" where
  "wf_sessions st m =
     (wf_keys (ss_keys st) m \<and> sessions_indexed (ss_keys st) (ss_ttl st div Millisecond) m \<and>
      owners_valid (ss_keys st) m)"

section \<open>The session contract\<close>

text \<open>
  What the authentication service relies on: sessions are a map from session ID to owner.
  A call that reports an error may have taken effect.
\<close>

locale session_map =
  fixes create :: "string \<Rightarrow> string \<Rightarrow> 's \<Rightarrow> unit result \<times> 's"
    and get :: "string \<Rightarrow> 's \<Rightarrow> string result \<times> 's"
    and delete :: "string \<Rightarrow> 's \<Rightarrow> unit result \<times> 's"
    and owner :: "'s \<Rightarrow> string \<Rightarrow> string option"
    and wf :: "'s \<Rightarrow> bool"
  assumes create_ok: "wf s \<Longrightarrow> key_segment maxIDBytes u \<Longrightarrow> create sid u s = (Inr x, s') \<Longrightarrow>
        owner s' = (owner s)(sid \<mapsto> u)"
    and create_err: "wf s \<Longrightarrow> key_segment maxIDBytes u \<Longrightarrow> create sid u s = (Inl e, s') \<Longrightarrow>
        owner s' = owner s \<or> owner s' = (owner s)(sid \<mapsto> u)"
    and get_ok: "wf s \<Longrightarrow> get sid s = (Inr u, s') \<Longrightarrow> owner s (TrimSpace sid) = Some u"
    and get_unauth: "wf s \<Longrightarrow> get sid s = (Inl e, s') \<Longrightarrow> errors_is e ErrUnauthenticated \<Longrightarrow>
        owner s (TrimSpace sid) = None"
    and get_frame: "wf s \<Longrightarrow> get sid s = (g, s') \<Longrightarrow> owner s' = owner s"
    and delete_ok: "wf s \<Longrightarrow> delete sid s = (Inr x, s') \<Longrightarrow> owner s' = (owner s)(TrimSpace sid := None)"
    and delete_err: "wf s \<Longrightarrow> delete sid s = (Inl e, s') \<Longrightarrow>
        owner s' = owner s \<or> owner s' = (owner s)(TrimSpace sid := None)"
    and wf_create: "wf s \<Longrightarrow> key_segment maxIDBytes u \<Longrightarrow> create sid u s = (c, s') \<Longrightarrow> wf s'"
    and wf_get: "wf s \<Longrightarrow> get sid s = (g, s') \<Longrightarrow> wf s'"
    and wf_delete: "wf s \<Longrightarrow> delete sid s = (c, s') \<Longrightarrow> wf s'"
begin

text \<open>A new session authenticates its owner, and a deleted one nobody.\<close>

lemma create_get:
  assumes "wf s" and "key_segment maxIDBytes u" and "create sid u s = (Inr x, s1)"
    and "TrimSpace sid' = sid" and "get sid' s1 = (r, s2)"
  shows "r = Inr u \<or> (\<exists>e. r = Inl e \<and> \<not> errors_is e ErrUnauthenticated)"
proof (cases r)
  case (Inl e)
  with get_unauth [OF wf_create [OF assms(1-3)], of sid' e s2] create_ok [OF assms(1-3)] assms(4,5)
  show ?thesis by auto
next
  case (Inr v)
  with get_ok [OF wf_create [OF assms(1-3)], of sid' v s2] create_ok [OF assms(1-3)] assms(4,5)
  show ?thesis by auto
qed

lemma delete_get:
  assumes "wf s" and "delete sid s = (Inr x, s1)" and "TrimSpace sid' = TrimSpace sid"
    and "get sid' s1 = (r, s2)"
  shows "\<exists>e. r = Inl e"
proof (cases r)
  case (Inr v)
  with get_ok [OF wf_delete [OF assms(1,2)], of sid' v s2] delete_ok [OF assms(1,2)] assms(3,4)
  show ?thesis by simp
qed simp

end

section \<open>Lemmas on the live keys\<close>

lemma entry_simps [simp]:
  "str_entry None = None" "str_entry (Some (RStr v, t)) = Some (v, t)" "str_entry (Some (RSet A, t)) = None"
  "set_entry None = None" "set_entry (Some (RSet A, t)) = Some (A, t)" "set_entry (Some (RStr v, t)) = None"
  by (simp_all add: str_entry_def set_entry_def)

lemma str_entry_Some: "str_entry e = Some (v, t) \<longleftrightarrow> e = Some (RStr v, t)"
  by (auto simp: str_entry_def split: option.splits rval.splits)

lemma set_entry_Some: "set_entry e = Some (A, t) \<longleftrightarrow> e = Some (RSet A, t)"
  by (auto simp: set_entry_def split: option.splits rval.splits)

lemma session_key_inject:
  "key_Session k sid = Inr key \<Longrightarrow> key_Session k sid' = Inr key \<longleftrightarrow> sid' = sid"
  unfolding key_Session_def
  using build_inject [of k "[''session'', sid]" key "[''session'', sid']"] by auto

lemma index_key_inject:
  "UserSessions k u = Inr key \<Longrightarrow> UserSessions k u' = Inr key \<longleftrightarrow> u' = u"
  unfolding UserSessions_def
  using build_inject [of k "[''user_sessions'', u]" key "[''user_sessions'', u']"] by auto

lemma session_index_keys: "key_Session k sid = Inr key \<Longrightarrow> UserSessions k u \<noteq> Inr key"
  unfolding key_Session_def UserSessions_def
  using build_inject [of k "[''session'', sid]" key "[''user_sessions'', u]"] by auto

lemma session_entry_at:
  "session_entry k (m(key := e)) sid =
     (if key_Session k sid = Inr key then str_entry e else session_entry k m sid)"
  by (simp add: session_entry_def split: sum.splits)

lemma index_entry_at:
  "index_entry k (m(key := e)) u =
     (if UserSessions k u = Inr key then set_entry e else index_entry k m u)"
  by (simp add: index_entry_def split: sum.splits)

lemma session_upd:
  assumes "key_Session k sid = Inr key"
  shows "session_entry k (m(key := e)) = (session_entry k m)(sid := str_entry e)"
    and "index_entry k (m(key := e)) = index_entry k m"
  by (simp_all add: fun_eq_iff session_entry_at index_entry_at session_key_inject [OF assms]
      session_index_keys [OF assms])

lemma index_upd:
  assumes "UserSessions k u = Inr key"
  shows "session_entry k (m(key := e)) = session_entry k m"
    and "index_entry k (m(key := e)) = (index_entry k m)(u := set_entry e)"
proof -
  have "key_Session k sid \<noteq> Inr key" for sid using session_index_keys assms by blast
  then show "session_entry k (m(key := e)) = session_entry k m"
    by (simp add: fun_eq_iff session_entry_at)
  show "index_entry k (m(key := e)) = (index_entry k m)(u := set_entry e)"
    by (simp add: fun_eq_iff index_entry_at index_key_inject [OF assms])
qed

lemma sessions_other:
  assumes "build k parts = Inr key" and "hd parts \<noteq> ''session''" and "hd parts \<noteq> ''user_sessions''"
  shows "session_entry k (m(key := e)) = session_entry k m"
    and "index_entry k (m(key := e)) = index_entry k m"
proof -
  have "key_Session k sid \<noteq> Inr key" for sid
    using assms(1,2) build_inject [of k parts key "[''session'', sid]"] unfolding key_Session_def by auto
  then show "session_entry k (m(key := e)) = session_entry k m"
    by (simp add: fun_eq_iff session_entry_at)
  have "UserSessions k u \<noteq> Inr key" for u
    using assms(1,3) build_inject [of k parts key "[''user_sessions'', u]"] unfolding UserSessions_def by auto
  then show "index_entry k (m(key := e)) = index_entry k m"
    by (simp add: fun_eq_iff index_entry_at)
qed

lemma sessions_indexed_cong:
  "session_entry k m' = session_entry k m \<Longrightarrow> index_entry k m' = index_entry k m \<Longrightarrow>
     sessions_indexed k ms m' = sessions_indexed k ms m"
  by (simp add: sessions_indexed_def)

lemma sessions_indexedD:
  assumes "sessions_indexed k ms m" and "session_entry k m sid = Some (u, t)"
  obtains A n n' where "index_entry k m u = Some (A, Some n')" "sid \<in> A" "t = Some n" "n \<le> n'" "n \<le> ms"
  using assms unfolding sessions_indexed_def by blast

lemma sessions_indexed_valid:
  "sessions_indexed k ms m \<Longrightarrow> index_entry k m u = Some (A, t) \<Longrightarrow> sid \<in> A \<Longrightarrow>
     \<exists>key. key_Session k sid = Inr key"
  unfolding sessions_indexed_def by blast

lemma index_entry_members:
  "UserSessions k u = Inr key \<Longrightarrow> index_entry k m u = Some (A, t) \<Longrightarrow> set_members (m key) = A"
  by (auto simp: index_entry_def set_entry_Some)

text \<open>The effect of each script keeps the invariant.\<close>

lemma members_valid:
  assumes "sessions_indexed k ms m" and "UserSessions k u = Inr ukey" and "x \<in> set_members (m ukey)"
  shows "\<exists>key. key_Session k x = Inr key"
proof -
  from assms(3) obtain t where "m ukey = Some (RSet (set_members (m ukey)), t)"
    by (auto simp: set_members_def split: option.splits rval.splits)
  then have "index_entry k m u = Some (set_members (m ukey), t)" by (simp add: index_entry_def assms(2) set_entry_Some)
  from sessions_indexed_valid [OF assms(1) this assms(3)] show ?thesis .
qed

lemma indexed_create:
  assumes inv: "sessions_indexed k ms m" and s: "key_Session k sid = Inr key" and u: "UserSessions k u = Inr ukey"
  shows "sessions_indexed k ms
    (m(key \<mapsto> (RStr u, Some ms), ukey \<mapsto> (RSet (insert sid (set_members (m ukey))), Some ms)))"
proof -
  let ?A = "set_members (m ukey)"
  let ?m = "m(key \<mapsto> (RStr u, Some ms), ukey \<mapsto> (RSet (insert sid ?A), Some ms))"
  have se: "session_entry k ?m = (session_entry k m)(sid \<mapsto> (u, Some ms))"
    and ie: "index_entry k ?m = (index_entry k m)(u \<mapsto> (insert sid ?A, Some ms))"
    by (simp_all add: index_upd [OF u] session_upd [OF s])
  show ?thesis
    unfolding sessions_indexed_def se ie
  proof (intro conjI allI impI)
    fix sid' u' t
    assume e: "((session_entry k m)(sid \<mapsto> (u, Some ms))) sid' = Some (u', t)"
    show "\<exists>A n n'. ((index_entry k m)(u \<mapsto> (insert sid ?A, Some ms))) u' = Some (A, Some n') \<and>
        sid' \<in> A \<and> t = Some n \<and> n \<le> n' \<and> n \<le> ms"
    proof (cases "sid' = sid")
      case False
      with e have "session_entry k m sid' = Some (u', t)" by simp
      from sessions_indexedD [OF inv this] obtain A n n' where
        h: "index_entry k m u' = Some (A, Some n')" "sid' \<in> A" "t = Some n" "n \<le> n'" "n \<le> ms" .
      moreover have "u' = u \<Longrightarrow> ?A = A" using h(1) index_entry_members [OF u] by blast
      ultimately show ?thesis by auto
    qed (use e in auto)
  next
    fix u' A t sid'
    assume "((index_entry k m)(u \<mapsto> (insert sid ?A, Some ms))) u' = Some (A, t)" and "sid' \<in> A"
    then show "\<exists>key. key_Session k sid' = Inr key"
      using s members_valid [OF inv u, of sid'] sessions_indexed_valid [OF inv, of u' A t sid'] by (auto split: if_splits)
  qed
qed

text \<open>
  Removing sessions together with index entries keeps the invariant when the removed
  index entries belong to removed sessions.
\<close>

lemma indexed_remove:
  assumes inv: "sessions_indexed k ms m"
    and sess: "\<And>sid e. session_entry k m' sid = Some e \<Longrightarrow> session_entry k m sid = Some e"
    and keep: "\<And>sid u t A n. session_entry k m' sid = Some (u, t) \<Longrightarrow> index_entry k m u = Some (A, n) \<Longrightarrow>
      sid \<in> A \<Longrightarrow> \<exists>B. index_entry k m' u = Some (B, n) \<and> sid \<in> B"
    and idx: "\<And>u A t. index_entry k m' u = Some (A, t) \<Longrightarrow> \<exists>B t'. index_entry k m u = Some (B, t') \<and> A \<subseteq> B"
  shows "sessions_indexed k ms m'"
  unfolding sessions_indexed_def
proof (intro conjI allI impI)
  fix sid u t
  assume e: "session_entry k m' sid = Some (u, t)"
  from sessions_indexedD [OF inv sess [OF e]] obtain A n n' where
    h: "index_entry k m u = Some (A, Some n')" "sid \<in> A" "t = Some n" "n \<le> n'" "n \<le> ms" .
  from keep [OF e h(1,2)] h(3-5)
  show "\<exists>A n n'. index_entry k m' u = Some (A, Some n') \<and> sid \<in> A \<and> t = Some n \<and> n \<le> n' \<and> n \<le> ms"
    by blast
next
  fix u A t sid
  assume "index_entry k m' u = Some (A, t)" and "sid \<in> A"
  with idx sessions_indexed_valid [OF inv] show "\<exists>key. key_Session k sid = Inr key" by blast
qed

definition srem_entry :: "string \<Rightarrow> (rval \<times> int option) option \<Rightarrow> (rval \<times> int option) option" where
  "srem_entry sid e = (case e of Some (RSet A, t) \<Rightarrow>
     (if A - {sid} = {} then None else Some (RSet (A - {sid}), t)) | _ \<Rightarrow> e)"

lemma indexed_delete:
  assumes inv: "sessions_indexed k ms m" and s: "key_Session k sid = Inr key" and u: "UserSessions k u = Inr ukey"
  shows "sessions_indexed k ms (m(key := None, ukey := srem_entry sid (m ukey)))"
proof -
  let ?m = "m(key := None, ukey := srem_entry sid (m ukey))"
  have se: "session_entry k ?m = (session_entry k m)(sid := None)"
    and ie: "index_entry k ?m = (index_entry k m)(u := set_entry (srem_entry sid (m ukey)))"
    by (simp_all add: index_upd [OF u] session_upd [OF s])
  have iu: "index_entry k m u = set_entry (m ukey)" by (simp add: index_entry_def u)
  show ?thesis
  proof (rule indexed_remove [OF inv])
    fix sid' e assume "session_entry k ?m sid' = Some e"
    then show "session_entry k m sid' = Some e" by (simp add: se split: if_splits)
  next
    fix sid' u' t A n
    assume "session_entry k ?m sid' = Some (u', t)" and i: "index_entry k m u' = Some (A, n)" "sid' \<in> A"
    then have "sid' \<noteq> sid" by (simp add: se split: if_splits)
    with i iu show "\<exists>B. index_entry k ?m u' = Some (B, n) \<and> sid' \<in> B"
      unfolding ie by (cases "u' = u") (auto simp: set_entry_Some srem_entry_def)
  next
    fix u' A t assume "index_entry k ?m u' = Some (A, t)"
    then show "\<exists>B t'. index_entry k m u' = Some (B, t') \<and> A \<subseteq> B"
      unfolding ie by (cases "u' = u") (auto simp: iu srem_entry_def set_entry_Some split: option.splits rval.splits if_splits)
  qed
qed

definition del_user_view :: "string \<Rightarrow> string \<Rightarrow> kv \<Rightarrow> kv" where
  "del_user_view ukey prefix m =
     (\<lambda>key. if key = ukey \<or> (\<exists>sid \<in> set_members (m ukey). key = prefix @ sid) then None else m key)"

lemma del_user_view_None: "m key = None \<Longrightarrow> del_user_view ukey prefix m key = None"
  by (simp add: del_user_view_def)

lemma indexed_session_key:
  assumes "sessions_indexed k ms m" and "UserSessions k u = Inr ukey" and "SessionPrefix k = Inr prefix"
    and "x \<in> set_members (m ukey)"
  shows "key_Session k x = Inr (prefix @ x)"
  using members_valid [OF assms(1,2,4)] session_key_prefix [OF assms(3)] by fastforce

text \<open>Bulk removal deletes exactly the indexed sessions and the index.\<close>

lemma del_user_entries:
  assumes inv: "sessions_indexed k ms m" and u: "UserSessions k u = Inr ukey" and p: "SessionPrefix k = Inr prefix"
  shows "session_entry k (del_user_view ukey prefix m) sid =
      (if sid \<in> set_members (m ukey) then None else session_entry k m sid)"
    and "index_entry k (del_user_view ukey prefix m) = (index_entry k m)(u := None)"
proof -
  let ?A = "set_members (m ukey)"
  note pre = indexed_session_key [OF assms]
  show "session_entry k (del_user_view ukey prefix m) sid = (if sid \<in> ?A then None else session_entry k m sid)"
  proof (cases "key_Session k sid")
    case (Inl e)
    then show ?thesis by (simp add: session_entry_def)
  next
    case (Inr key)
    then have "key \<noteq> ukey" using session_index_keys u by blast
    moreover have "(\<exists>x \<in> ?A. key = prefix @ x) \<longleftrightarrow> sid \<in> ?A"
      using pre session_key_inject [OF Inr] Inr by (metis sum.inject(2))
    ultimately show ?thesis by (simp add: session_entry_def Inr del_user_view_def)
  qed
  have "UserSessions k v \<noteq> Inr (prefix @ x)" if "x \<in> ?A" for v x
    using session_index_keys [OF pre [OF that]] .
  then show "index_entry k (del_user_view ukey prefix m) = (index_entry k m)(u := None)"
    using index_key_inject [OF u]
    by (auto simp: fun_eq_iff index_entry_def del_user_view_def u split: sum.splits)
qed

lemma indexed_delete_user:
  assumes inv: "sessions_indexed k ms m" and u: "UserSessions k u = Inr ukey" and p: "SessionPrefix k = Inr prefix"
  shows "sessions_indexed k ms (del_user_view ukey prefix m)"
proof -
  note e = del_user_entries [OF assms]
  have gone: "False" if "session_entry k (del_user_view ukey prefix m) sid = Some (u, t)" for sid t
  proof -
    from that have s: "session_entry k m sid = Some (u, t)" "sid \<notin> set_members (m ukey)"
      by (simp_all add: e split: if_splits)
    from sessions_indexedD [OF inv s(1)] obtain A n where "index_entry k m u = Some (A, n)" "sid \<in> A" by blast
    with index_entry_members [OF u] s(2) show False by blast
  qed
  show ?thesis
  proof (rule indexed_remove [OF inv])
    fix sid x assume "session_entry k (del_user_view ukey prefix m) sid = Some x"
    then show "session_entry k m sid = Some x" by (simp add: e split: if_splits)
  next
    fix sid u' t A n
    assume "session_entry k (del_user_view ukey prefix m) sid = Some (u', t)"
      and "index_entry k m u' = Some (A, n)" "sid \<in> A"
    moreover from this gone have "u' \<noteq> u" by blast
    ultimately show "\<exists>B. index_entry k (del_user_view ukey prefix m) u' = Some (B, n) \<and> sid \<in> B"
      by (simp add: e)
  next
    fix u' A t assume "index_entry k (del_user_view ukey prefix m) u' = Some (A, t)"
    then show "\<exists>B t'. index_entry k m u' = Some (B, t') \<and> A \<subseteq> B" by (auto simp: e split: if_splits)
  qed
qed

text \<open>Expiry keeps the invariant: an index never expires before the sessions it lists.\<close>

lemma indexed_age:
  assumes inv: "sessions_indexed k ms m" and d: "0 \<le> d"
  shows "sessions_indexed k ms (age d m)"
proof -
  have se: "session_entry k (age d m) sid = Some (u, t) \<Longrightarrow>
      \<exists>t'. session_entry k m sid = Some (u, t') \<and> (t' = None \<and> t = None \<or> (\<exists>n. t' = Some n \<and> d < n \<and> t = Some (n - d)))"
    for sid u t
    by (cases "key_Session k sid")
       (auto simp: session_entry_def age_def str_entry_Some split: option.splits if_splits)
  have ie: "index_entry k m u = Some (A, Some n) \<Longrightarrow> d < n \<Longrightarrow> index_entry k (age d m) u = Some (A, Some (n - d))"
    for u A n
    by (cases "UserSessions k u") (auto simp: index_entry_def age_def set_entry_Some)
  have ie': "index_entry k (age d m) u = Some (A, t) \<Longrightarrow> \<exists>t'. index_entry k m u = Some (A, t')" for u A t
    by (cases "UserSessions k u")
       (auto simp: index_entry_def age_def set_entry_Some split: option.splits if_splits)
  show ?thesis
    unfolding sessions_indexed_def
  proof (intro conjI allI impI)
    fix sid u t
    assume "session_entry k (age d m) sid = Some (u, t)"
    from se [OF this] obtain t' where t': "session_entry k m sid = Some (u, t')"
      and c: "t' = None \<and> t = None \<or> (\<exists>n. t' = Some n \<and> d < n \<and> t = Some (n - d))" by blast
    from sessions_indexedD [OF inv t'] obtain A n n' where
      h: "index_entry k m u = Some (A, Some n')" "sid \<in> A" "t' = Some n" "n \<le> n'" "n \<le> ms" .
    with c have n: "d < n" "t = Some (n - d)" by auto
    with ie [OF h(1)] h have "index_entry k (age d m) u = Some (A, Some (n' - d))" by simp
    with h n d show "\<exists>A n n'. index_entry k (age d m) u = Some (A, Some n') \<and> sid \<in> A \<and> t = Some n \<and> n \<le> n' \<and> n \<le> ms"
      by auto
  next
    fix u A t sid
    assume "index_entry k (age d m) u = Some (A, t)" and "sid \<in> A"
    with ie' sessions_indexed_valid [OF inv] show "\<exists>key. key_Session k sid = Inr key" by blast
  qed
qed

section \<open>The scripts on a documented server\<close>

lemma session_key_str: "wf_keys k m \<Longrightarrow> key_Session k sid = Inr key \<Longrightarrow> str_key m key"
  unfolding key_Session_def by (rule wf_keys_str) auto

lemma index_key_set: "wf_keys k m \<Longrightarrow> UserSessions k u = Inr key \<Longrightarrow> set_key m key"
  unfolding UserSessions_def by (rule wf_keys_set) auto

lemma wf_session_upd:
  "wf_keys k m \<Longrightarrow> key_Session k sid = Inr key \<Longrightarrow> wf_keys k (m(key \<mapsto> (RStr v, t)))"
  unfolding key_Session_def by (auto intro: wf_keys_str_upd)

lemma wf_index_upd:
  "wf_keys k m \<Longrightarrow> UserSessions k u = Inr key \<Longrightarrow> wf_keys k (m(key \<mapsto> (RSet A, t)))"
  unfolding UserSessions_def by (auto intro: wf_keys_set_upd)

lemma wf_srem:
  assumes "wf_keys k m" and "UserSessions k u = Inr key"
  shows "wf_keys k (m(key := srem_entry sid (m key)))"
  using index_key_set [OF assms]
proof (cases rule: set_key_cases)
  case None
  then show ?thesis using assms(1) by (simp add: srem_entry_def fun_upd_None_id)
next
  case (Set A t)
  then show ?thesis
    using wf_keys_del [OF assms(1)] wf_index_upd [OF assms] by (simp add: srem_entry_def)
qed

context redis_server
begin

lemma createScript_run:
  assumes "0 < ms" and "key \<noteq> ukey" and "set_key (view s) ukey"
  shows "fst (createSessionScript rc key ukey u ms sid s) = RInt 1"
    and "view (snd (createSessionScript rc key ukey u ms sid s)) =
      (view s)(key \<mapsto> (RStr u, Some ms), ukey \<mapsto> (RSet (insert sid (set_members (view s ukey))), Some ms))"
proof -
  let ?s1 = "snd (rcall rc (SET key u ms) s)"
  let ?s2 = "snd (rcall rc (SADD ukey sid) ?s1)"
  let ?s3 = "snd (rcall rc (PEXPIRE ukey ms) ?s2)"
  have v1: "view ?s1 = (view s)(key \<mapsto> (RStr u, Some ms))" by (rule set_view [OF assms(1)])
  then have u1: "view ?s1 ukey = view s ukey" using assms(2) by simp
  with assms(3) have sk: "set_key (view ?s1) ukey" by (simp add: set_key_def)
  note a = sadd_run [OF sk, of sid]
  from a(1) obtain n where n: "fst (rcall rc (SADD ukey sid) ?s1) = RInt n" ..
  obtain t where v2: "view ?s2 = (view ?s1)(ukey \<mapsto> (RSet (insert sid (set_members (view s ukey))), t))"
    using a(2) u1 by simp
  then have "view ?s2 ukey = Some (RSet (insert sid (set_members (view s ukey))), t)" by simp
  note pe = pexpire_some [OF this assms(1)]
  have "createSessionScript rc key ukey u ms sid s = (RInt 1, ?s3)"
    unfolding createSessionScript_def
    using set_reply [OF assms(1), of key u s] n pe by (simp add: lua_do_ok)
  with pe v2 v1 show "fst (createSessionScript rc key ukey u ms sid s) = RInt 1"
    and "view (snd (createSessionScript rc key ukey u ms sid s)) =
      (view s)(key \<mapsto> (RStr u, Some ms), ukey \<mapsto> (RSet (insert sid (set_members (view s ukey))), Some ms))"
    by simp_all
qed

lemma srem_run:
  assumes "set_key (view s) k"
  shows "\<exists>n. fst (rcall rc (SREM k x) s) = RInt n"
    and "view (snd (rcall rc (SREM k x) s)) = (view s)(k := srem_entry x (view s k))"
  using assms
  by (cases rule: set_key_cases; use srem_none [of s k x] srem_set [of s k _ _ x] in
      \<open>auto simp: srem_entry_def fun_upd_None_id\<close>)+

lemma deleteScript_run:
  assumes "str_key (view s) key" and "key \<noteq> ukey" and "set_key (view s) ukey"
  shows "view (snd (deleteSessionScript rc key ukey sid s)) =
      (if view s key = None then view s
       else (view s)(key := None, ukey := srem_entry sid (view s ukey)))"
  using assms(1)
proof (cases rule: str_key_cases)
  case None
  with get_none [OF None] get_view [of key s] show ?thesis
    by (simp add: deleteSessionScript_def lua_do_ok)
next
  case (Str v t)
  let ?s1 = "snd (rcall rc (GET key) s)"
  let ?s2 = "snd (rcall rc (DEL key) ?s1)"
  have v2: "view ?s2 = (view s)(key := None)" by (simp add: del_view get_view)
  with assms(2,3) have "set_key (view ?s2) ukey" by (simp add: set_key_def)
  note r = srem_run [OF this, of sid]
  then obtain n where n: "fst (rcall rc (SREM ukey sid) ?s2) = RInt n" by blast
  have "deleteSessionScript rc key ukey sid s = (RInt 1, snd (rcall rc (SREM ukey sid) ?s2))"
    unfolding deleteSessionScript_def using n
    by (simp add: get_str [OF Str] lua_do_ok del_reply)
  with r(2) v2 Str assms(2) show ?thesis by simp
qed

lemma del_each_run:
  "fst (lua_del_each rc p xs s) = RNil \<and>
   view (snd (lua_del_each rc p xs s)) = (\<lambda>key. if \<exists>x \<in> set xs. key = p @ x then None else view s key)"
proof (induction xs arbitrary: s)
  case (Cons x xs)
  have "lua_del_each rc p (x # xs) s = lua_del_each rc p xs (snd (rcall rc (DEL (p @ x)) s))"
    by (simp add: lua_do_ok [OF del_reply])
  with Cons.IH show ?case by (auto simp: del_view fun_eq_iff)
qed simp

lemma deleteUserScript_run:
  assumes "set_key (view s) ukey"
  shows "view (snd (deleteUserSessionsScript rc ukey p s)) = del_user_view ukey p (view s)"
proof -
  obtain xs where r: "fst (rcall rc (SMEMBERS ukey) s) = RArray xs" and xs: "set xs = set_members (view s ukey)"
    using assms smembers_none [of s ukey] smembers_set [of s ukey]
    by (cases rule: set_key_cases) fastforce+
  let ?s1 = "snd (rcall rc (SMEMBERS ukey) s)"
  note d = del_each_run [of p xs ?s1]
  have "deleteUserSessionsScript rc ukey p s =
      (RInt (int (length xs)), snd (rcall rc (DEL ukey) (snd (lua_del_each rc p xs ?s1))))"
    unfolding deleteUserSessionsScript_def by (simp add: lua_do_ok [OF r] d lua_do_ok del_reply)
  then show ?thesis using d
    by (auto simp: del_view smembers_view del_user_view_def xs fun_eq_iff)
qed

text \<open>A script ran, or its call failed without effect.\<close>

lemma script_effect:
  assumes "c_Eval rc f s = (q, t)"
  obtains (ran) "view t = view (snd (f s))" | (failed) e where "q = Inl e" "view t = view s"
proof (cases q)
  case (Inl e)
  with assms c_Eval_view [OF assms] that show ?thesis by blast
next
  case (Inr x)
  with assms c_Eval_Inr [of f s x t] that(1) show ?thesis by simp
qed

lemma create_session_cases:
  assumes "CreateSession (Some st) sid u s = (r, s')" and "ss_client st = Some rc"
    and "wf_keys (ss_keys st) (view s)" and "Millisecond \<le> ss_ttl st"
  obtains (none) e where "r = Inl e" "view s' = view s"
  | (effect) key ukey where "key_Session (ss_keys st) sid = Inr key" "UserSessions (ss_keys st) u = Inr ukey"
      "view s' = (view s)(key \<mapsto> (RStr u, Some (ss_ttl st div Millisecond)),
         ukey \<mapsto> (RSet (insert sid (set_members (view s ukey))), Some (ss_ttl st div Millisecond)))"
proof (cases "key_Session (ss_keys st) sid")
  case (Inl e)
  with assms none show ?thesis by (auto simp: CreateSession_def)
next
  case key: (Inr key)
  show ?thesis
  proof (cases "UserSessions (ss_keys st) u")
    case (Inl e)
    with key assms none show ?thesis by (auto simp: CreateSession_def)
  next
    case ukey: (Inr ukey)
    let ?f = "createSessionScript rc key ukey u (ss_ttl st div Millisecond) sid"
    obtain q t where q: "c_Eval rc ?f s = (q, t)" by force
    have ms: "0 < ss_ttl st div Millisecond"
      using assms(4) by (simp add: Millisecond_def pos_imp_zdiv_pos_iff)
    have ne: "key \<noteq> ukey" using session_index_keys [OF key] ukey by blast
    note run = createScript_run [OF ms ne index_key_set [OF assms(3) ukey], of u sid]
    have st': "s' = t" and r: "r = bindE (mapErr (\<lambda>e. redisUnavailable ''create session'' (Some e)) q) (\<lambda>_. Inr ())"
      using assms(1,2) key ukey q by (cases q; auto simp: CreateSession_def)+
    from q show ?thesis
      by (cases rule: script_effect) (use effect [OF key ukey] run(2) none st' r in simp_all)
  qed
qed

lemma get_session_cases:
  assumes "GetSessionUserID (Some st) sid s = (r, s')" and "ss_client st = Some rc"
    and "wf_keys (ss_keys st) (view s)"
  obtains (early) e where "r = Inl e" "view s' = view s" "\<not> errors_is e ErrUnauthenticated"
  | (call) key q where "key_Session (ss_keys st) (TrimSpace sid) = Inr key" "view s' = view s"
      "c_Get rc key s = (q, s')"
      "r = bindE (mapErr getSessionError q) (\<lambda>u. mapErr (\<lambda>_. Sentinel ErrUnauthenticated) (RequiredID ''user ID'' u))"
proof (cases "RequiredID ''session ID'' sid")
  case (Inl e)
  with assms(1,2) have "r = Inl e" "s' = s" by (auto simp: GetSessionUserID_def)
  with ids_Inl(1) [OF Inl, of ErrUnauthenticated] early show ?thesis by simp
next
  case (Inr x)
  then have x: "x = TrimSpace sid" by (simp add: ids_Inr)
  show ?thesis
  proof (cases "key_Session (ss_keys st) x")
    case (Inl e)
    then have "\<not> errors_is (redisKeyError ''build session key'' e) ErrUnauthenticated"
      using build_error [of "ss_keys st" "[''session'', x]" e] by (auto simp: key_Session_def redisKeyError_def)
    with Inl Inr assms early show ?thesis by (auto simp: GetSessionUserID_def)
  next
    case key: (Inr key)
    obtain q t where q: "c_Get rc key s = (q, t)" by force
    have "s' = t" "r = bindE (mapErr getSessionError q) (\<lambda>u. mapErr (\<lambda>_. Sentinel ErrUnauthenticated) (RequiredID ''user ID'' u))"
      using assms(1,2) key Inr q by (cases q; auto simp: GetSessionUserID_def)+
    with call key x q c_Get_view [OF q] show ?thesis by simp
  qed
qed

lemma get_session_Inr:
  assumes "GetSessionUserID (Some st) sid s = (Inr u, s')" and "ss_client st = Some rc"
    and "wf_keys (ss_keys st) (view s)"
  shows "view s' = view s \<and> key_segment maxIDBytes u \<and>
    (\<exists>v. session_owner (ss_keys st) (view s) (TrimSpace sid) = Some v \<and> u = TrimSpace v)"
  using assms
proof (cases rule: get_session_cases)
  case (call key q)
  from call(4) [symmetric] obtain v where q: "q = Inr v" and v: "RequiredID ''user ID'' v = Inr u" by (cases q) auto
  have sk: "str_key (view s) key" by (rule session_key_str [OF assms(3) call(1)])
  from c_Get_Inr [OF call(3) [unfolded q] sk] obtain t where "view s key = Some (RStr v, t)" ..
  with call(1) have "session_owner (ss_keys st) (view s) (TrimSpace sid) = Some v"
    by (simp add: session_owner_def session_entry_def)
  with call(2) v show ?thesis by (auto simp: ids_Inr)
qed simp

text \<open>The answer \<open>unauthenticated\<close> is given only for a session that is not there or has a malformed owner.\<close>

lemma get_session_unauth:
  assumes "GetSessionUserID (Some st) sid s = (Inl e, s')" and "ss_client st = Some rc"
    and "wf_keys (ss_keys st) (view s)" and "errors_is e ErrUnauthenticated"
  shows "view s' = view s \<and> (\<forall>v. session_owner (ss_keys st) (view s) (TrimSpace sid) = Some v \<longrightarrow>
     \<not> key_segment maxIDBytes (TrimSpace v))"
  using assms(1-3)
proof (cases rule: get_session_cases)
  case (early e)
  with assms(4) show ?thesis by simp
next
  case (call key q)
  have sk: "str_key (view s) key" by (rule session_key_str [OF assms(3) call(1)])
  have ow: "session_owner (ss_keys st) (view s) (TrimSpace sid) = map_option fst (str_entry (view s key))"
    by (simp add: session_owner_def session_entry_def call(1))
  show ?thesis
  proof (cases q)
    case (Inl x)
    with call(4) have e: "e = getSessionError x" by simp
    have "errors_is x RedisNil"
    proof (rule ccontr)
      assume n: "\<not> errors_is x RedisNil"
      with e assms(4) have u: "errors_is x ErrUnauthenticated" by (simp add: getSessionError_def redisUnavailable_def)
      from run_with_Inl [OF call(3) [unfolded client_defs Inl]] u
      have "decode_str (fst (rcall rc (GET key) s)) = Inl x" by blast
      with u n show False by (auto simp: decode_str_def split: reply.splits)
    qed
    with c_Get_nil [OF call(3) [unfolded Inl] _ sk] have "view s key = None" .
    with call(2) ow show ?thesis by simp
  next
    case (Inr v)
    from c_Get_Inr [OF call(3) [unfolded Inr] sk] obtain t where "view s key = Some (RStr v, t)" ..
    moreover from call(4) Inr obtain e' where "RequiredID ''user ID'' v = Inl e'"
      by (cases "RequiredID ''user ID'' v") auto
    then have "\<not> key_segment maxIDBytes (TrimSpace v)" by (auto simp: ids_required)
    ultimately show ?thesis using call(2) ow by simp
  qed
qed

text \<open>The script on a session whose owner was read before.\<close>

lemma delete_script_cases:
  assumes "c_Eval rc (deleteSessionScript rc key ukey x) s = (q, t)"
    and "wf_keys (ss_keys st) (view s)" and "key_Session (ss_keys st) x = Inr key" and "UserSessions (ss_keys st) w = Inr ukey"
    and "session_owner (ss_keys st) (view s) x = Some v"
  obtains (ran) "view t = (view s)(key := None, ukey := srem_entry x (view s ukey))" | (failed) e where "q = Inl e" "view t = view s"
proof -
  have "str_key (view s) key" "set_key (view s) ukey" "key \<noteq> ukey"
    using session_key_str [OF assms(2,3)] index_key_set [OF assms(2,4)] session_index_keys [OF assms(3)] assms(4) by auto
  note run = deleteScript_run [OF this(1,3,2), of x]
  have live: "view s key \<noteq> None" using assms(3,5) by (auto simp: session_owner_def session_entry_def str_entry_Some)
  from assms(1) show ?thesis
    by (cases rule: script_effect) (use that run live in simp_all)
qed

lemma delete_session_cases:
  assumes "DeleteSession (Some st) sid s = (r, s')" and "ss_client st = Some rc"
    and "wf_keys (ss_keys st) (view s)"
  obtains (err) e where "r = Inl e" "view s' = view s"
  | (absent) "r = Inr ()" "view s' = view s"
      "\<forall>v. session_owner (ss_keys st) (view s) (TrimSpace sid) = Some v \<longrightarrow> \<not> key_segment maxIDBytes (TrimSpace v)"
  | (gone) key u ukey where "key_Session (ss_keys st) (TrimSpace sid) = Inr key"
      "UserSessions (ss_keys st) (TrimSpace u) = Inr ukey"
      "session_owner (ss_keys st) (view s) (TrimSpace sid) = Some u"
      "view s' = (view s)(key := None, ukey := srem_entry (TrimSpace sid) (view s ukey))"
proof (cases "\<exists>x key. RequiredID ''session ID'' sid = Inr x \<and> key_Session (ss_keys st) x = Inr key")
  case False
  with assms(1,2) have "(\<exists>e. r = Inl e) \<and> s' = s" by (auto simp: DeleteSession_def bindP_def split: sum.splits)
  with err show ?thesis by auto
next
  case True
  then obtain x key where Inr: "RequiredID ''session ID'' sid = Inr x" and key: "key_Session (ss_keys st) x = Inr key" by blast
  then have x: "x = TrimSpace sid" "TrimSpace x = x" by (auto simp: ids_Inr)
  obtain g s1 where g: "GetSessionUserID (Some st) x s = (g, s1)" by force
  have v1: "view s1 = view s" using g assms(2,3) by (cases rule: get_session_cases) simp_all
  show ?thesis
  proof (cases g)
    case ge: (Inl e)
    with g key Inr assms(1,2) have r: "r = (if errors_is e ErrUnauthenticated then Inr () else Inl e)" "s' = s1"
      by (auto simp: DeleteSession_def split: if_splits)
    with get_session_unauth [OF g [unfolded ge] assms(2,3)] v1 x show ?thesis
      by (cases "errors_is e ErrUnauthenticated") (auto intro: absent err)
  next
    case gi: (Inr w)
    from get_session_Inr [OF g [unfolded gi] assms(2,3)] x obtain v
      where v: "session_owner (ss_keys st) (view s) (TrimSpace sid) = Some v" "w = TrimSpace v" by auto
    show ?thesis
    proof (cases "UserSessions (ss_keys st) w")
      case (Inl e)
      with g gi key Inr assms(1,2) v1 err show ?thesis by (auto simp: DeleteSession_def)
    next
      case ukey: (Inr ukey)
      obtain q t where q: "c_Eval rc (deleteSessionScript rc key ukey x) s1 = (q, t)" by force
      have st': "s' = t" and r: "r = bindE (mapErr (\<lambda>e. redisUnavailable ''delete session'' (Some e)) q) (\<lambda>_. Inr ())"
        using assms(1,2) key ukey g gi Inr q by (cases q; auto simp: DeleteSession_def)+
      from q assms(3) [folded v1] key ukey v(1) [folded v1 x(1)] show ?thesis
        by (cases rule: delete_script_cases) (use gone [of key v ukey] err st' r v key ukey x v1 in simp_all)
    qed
  qed
qed

lemma delete_user_cases:
  assumes "DeleteUserSessions (Some st) uid s = (r, s')" and "ss_client st = Some rc"
    and "wf_keys (ss_keys st) (view s)"
  obtains (none) e where "r = Inl e" "view s' = view s"
  | (effect) ukey prefix where "UserSessions (ss_keys st) (TrimSpace uid) = Inr ukey"
      "SessionPrefix (ss_keys st) = Inr prefix" "view s' = del_user_view ukey prefix (view s)"
proof (cases "RequiredID ''user ID'' uid")
  case (Inl e)
  with assms none show ?thesis by (auto simp: DeleteUserSessions_def)
next
  case (Inr x)
  then have x: "x = TrimSpace uid" by (simp add: ids_Inr)
  show ?thesis
  proof (cases "UserSessions (ss_keys st) x")
    case (Inl e)
    with Inr assms none show ?thesis by (auto simp: DeleteUserSessions_def)
  next
    case ukey: (Inr ukey)
    show ?thesis
    proof (cases "SessionPrefix (ss_keys st)")
      case (Inl e)
      with ukey Inr assms none show ?thesis by (auto simp: DeleteUserSessions_def)
    next
      case p: (Inr prefix)
      let ?f = "deleteUserSessionsScript rc ukey prefix"
      obtain q t where q: "c_Eval rc ?f s = (q, t)" by force
      have st': "s' = t" and r: "r = bindE (mapErr (\<lambda>e. redisUnavailable ''delete user sessions'' (Some e)) q) (\<lambda>_. Inr ())"
        using assms(1,2) ukey p Inr q by (cases q; auto simp: DeleteUserSessions_def)+
      note run = deleteUserScript_run [OF index_key_set [OF assms(3) ukey], of prefix]
      from q show ?thesis
        by (cases rule: script_effect) (use effect ukey p run none st' r x in simp_all)
    qed
  qed
qed

text \<open>The operations keep to the session keys and the indexes, whatever they report.\<close>

lemma create_session_within:
  assumes "CreateSession (Some st) sid u s = (r, s')" and "ss_client st = Some rc"
    and "wf_keys (ss_keys st) (view s)" and "Millisecond \<le> ss_ttl st"
  shows "keeps_to {''session'', ''user_sessions''} (ss_keys st) (view s) (view s')"
  using assms
proof (cases rule: create_session_cases)
  case (effect key ukey)
  show ?thesis unfolding effect(3)
    by (rule keeps_to_trans [OF keeps_to_str [OF assms(3) effect(1) [unfolded key_Session_def]]
          keeps_to_set [OF wf_session_upd [OF assms(3) effect(1)] effect(2) [unfolded UserSessions_def]]]) simp_all
qed (simp add: keeps_to_refl [OF assms(3)])

lemma delete_session_within:
  assumes "DeleteSession (Some st) sid s = (r, s')" and "ss_client st = Some rc" and "wf_keys (ss_keys st) (view s)"
  shows "keeps_to {''session'', ''user_sessions''} (ss_keys st) (view s) (view s')"
  using assms
proof (cases rule: delete_session_cases)
  case (gone key u ukey)
  let ?m = "(view s)(key := None)"
  have ne: "ukey \<noteq> key" using session_index_keys [OF gone(1)] gone(2) by auto
  have wf: "wf_keys (ss_keys st) (?m(ukey := srem_entry (TrimSpace sid) (view s ukey)))"
    using wf_srem [OF wf_keys_del [OF assms(3), of key] gone(2), of "TrimSpace sid"] ne by simp
  show ?thesis unfolding gone(4)
    by (rule keeps_to_trans [OF keeps_to_del [OF assms(3) gone(1) [unfolded key_Session_def]]
          keeps_to_upd [OF gone(2) [unfolded UserSessions_def] _ wf]]) simp_all
qed (simp_all add: keeps_to_refl [OF assms(3)])

lemma delete_user_within:
  assumes "DeleteUserSessions (Some st) uid s = (r, s')" and "ss_client st = Some rc" and "wf_keys (ss_keys st) (view s)"
    and "sessions_indexed (ss_keys st) ms (view s)"
  shows "keeps_to {''session'', ''user_sessions''} (ss_keys st) (view s) (view s')"
  using assms(1-3)
proof (cases rule: delete_user_cases)
  case (effect ukey prefix)
  have "del_user_view ukey prefix (view s) key = view s key"
    if b: "build (ss_keys st) parts = Inr key" and f: "hd parts \<noteq> ''session''" "hd parts \<noteq> ''user_sessions''" for parts key
  proof -
    have "key \<noteq> ukey" using build_inject [OF effect(1) [unfolded UserSessions_def], of parts] b f by auto
    moreover have "key \<noteq> prefix @ x" if "x \<in> set_members (view s ukey)" for x
      using build_inject [OF indexed_session_key [OF assms(4) effect(1,2) that, unfolded key_Session_def], of parts] b f by auto
    ultimately show ?thesis by (auto simp: del_user_view_def)
  qed
  moreover have "wf_keys (ss_keys st) (view s')"
    unfolding effect(3) by (rule wf_keys_restrict [OF assms(3)]) (simp add: del_user_view_def)
  ultimately show ?thesis unfolding keeps_to_def effect(3) by auto
qed (simp add: keeps_to_refl [OF assms(3)])

end

section \<open>The store implements the contract\<close>

lemma owner_create:
  assumes "key_Session k sid = Inr key" and "UserSessions k v = Inr ukey"
  shows "session_owner k (m(key \<mapsto> (RStr u, t), ukey := e)) = (session_owner k m)(sid \<mapsto> u)"
  by (simp add: fun_eq_iff session_owner_def index_upd(1) [OF assms(2)] session_upd(1) [OF assms(1)])

lemma owner_delete:
  assumes "key_Session k sid = Inr key" and "UserSessions k v = Inr ukey"
  shows "session_owner k (m(key := None, ukey := e)) = (session_owner k m)(sid := None)"
  by (simp add: fun_eq_iff session_owner_def index_upd(1) [OF assms(2)] session_upd(1) [OF assms(1)])

lemma owners_valid_upd:
  "owners_valid k m \<Longrightarrow> session_owner k m' = (session_owner k m)(sid := v) \<Longrightarrow>
     (\<And>u. v = Some u \<Longrightarrow> key_segment maxIDBytes u) \<Longrightarrow> owners_valid k m'"
  by (simp add: owners_valid_def split: if_splits)

lemma wf_sessions_age:
  assumes "wf_sessions st m" and "0 \<le> d"
  shows "wf_sessions st (age d m)"
proof -
  have "wf_keys (ss_keys st) (age d m)" "sessions_indexed (ss_keys st) (ss_ttl st div Millisecond) (age d m)"
    using assms by (simp_all add: wf_sessions_def wf_keys_age indexed_age)
  moreover have "owners_valid (ss_keys st) (age d m)"
    using assms(1) unfolding wf_sessions_def owners_valid_def session_owner_def
    by (auto simp: session_entry_def age_def str_entry_Some split: sum.splits option.splits if_splits)
  ultimately show ?thesis by (simp add: wf_sessions_def)
qed

locale session_store = redis_server +
  fixes st :: "'a SessionStore"
  assumes st_client: "ss_client st = Some rc"
    and st_ttl: "Millisecond \<le> ss_ttl st"
begin

lemma wf_sessionsD:
  assumes "wf_sessions st (view s)"
  shows "wf_keys (ss_keys st) (view s)" "sessions_indexed (ss_keys st) (ss_ttl st div Millisecond) (view s)"
    "owners_valid (ss_keys st) (view s)"
  using assms by (simp_all add: wf_sessions_def)

lemma wf_CreateSession:
  assumes "wf_sessions st (view s)" and "key_segment maxIDBytes u" and "CreateSession (Some st) sid u s = (r, s')"
  shows "wf_sessions st (view s')"
  using assms(3) st_client wf_sessionsD(1) [OF assms(1)] st_ttl
proof (cases rule: create_session_cases)
  case (none e)
  with assms(1) show ?thesis by simp
next
  case (effect key ukey)
  have "owners_valid (ss_keys st) (view s')"
    unfolding effect(3)
    by (rule owners_valid_upd [OF wf_sessionsD(3) [OF assms(1)] owner_create [OF effect(1,2)]])
       (use assms(2) in simp)
  moreover have "wf_keys (ss_keys st) (view s')"
    unfolding effect(3)
    by (rule wf_index_upd [OF wf_session_upd [OF wf_sessionsD(1) [OF assms(1)] effect(1)] effect(2)])
  ultimately show ?thesis
    using indexed_create [OF wf_sessionsD(2) [OF assms(1)] effect(1,2)] effect(3)
    by (simp add: wf_sessions_def)
qed

lemma wf_DeleteSession:
  assumes "wf_sessions st (view s)" and "DeleteSession (Some st) sid s = (r, s')"
  shows "wf_sessions st (view s')"
  using assms(2) st_client wf_sessionsD(1) [OF assms(1)]
proof (cases rule: delete_session_cases)
  case (gone key u ukey)
  have "owners_valid (ss_keys st) (view s')"
    using wf_sessionsD(3) [OF assms(1)] owner_delete [OF gone(1,2)]
    unfolding gone(4) by (rule owners_valid_upd) simp
  moreover have "ukey \<noteq> key" using session_index_keys [OF gone(1)] gone(2) by auto
  then have "wf_keys (ss_keys st) (view s')"
    using wf_srem [OF wf_keys_del [OF wf_sessionsD(1) [OF assms(1)], of key] gone(2), of "TrimSpace sid"]
    unfolding gone(4) by simp
  ultimately show ?thesis
    using indexed_delete [OF wf_sessionsD(2) [OF assms(1)] gone(1,2)] gone(4)
    by (simp add: wf_sessions_def)
qed (use assms(1) in simp_all)

lemma wf_DeleteUserSessions:
  assumes "wf_sessions st (view s)" and "DeleteUserSessions (Some st) uid s = (r, s')"
  shows "wf_sessions st (view s')"
  using assms(2) st_client wf_sessionsD(1) [OF assms(1)]
proof (cases rule: delete_user_cases)
  case (effect ukey prefix)
  note inv = wf_sessionsD(2) [OF assms(1)]
  have "owners_valid (ss_keys st) (view s')"
    using wf_sessionsD(3) [OF assms(1)] del_user_entries(1) [OF inv effect(1,2)]
    unfolding effect(3) owners_valid_def session_owner_def by (auto split: if_splits)
  moreover have "wf_keys (ss_keys st) (view s')"
    unfolding effect(3) by (rule wf_keys_restrict [OF wf_sessionsD(1) [OF assms(1)]]) (simp add: del_user_view_def)
  ultimately show ?thesis
    using indexed_delete_user [OF inv effect(1,2)] effect(3) by (simp add: wf_sessions_def)
qed (use assms(1) in simp_all)

lemma get_session_view:
  assumes "wf_sessions st (view s)" and "GetSessionUserID (Some st) sid s = (r, s')"
  shows "view s' = view s"
  using assms(2) st_client wf_sessionsD(1) [OF assms(1)] by (cases rule: get_session_cases) simp_all

text \<open>Under the invariant a stored owner is read back as it was stored.\<close>

lemma owner_trim:
  assumes "wf_sessions st (view s)" and "session_owner (ss_keys st) (view s) sid = Some v"
  shows "TrimSpace v = v" and "key_segment maxIDBytes v"
proof -
  show "key_segment maxIDBytes v" using wf_sessionsD(3) [OF assms(1)] assms(2) by (simp add: owners_valid_def)
  then show "TrimSpace v = v" by (rule key_segment_trim)
qed

lemma delete_owner:
  assumes "wf_sessions st (view s)" and "DeleteSession (Some st) sid s = (r, s')"
  shows "session_owner (ss_keys st) (view s') = (session_owner (ss_keys st) (view s))(TrimSpace sid := None) \<or>
    (\<exists>e. r = Inl e) \<and> view s' = view s"
  using assms(2) st_client wf_sessionsD(1) [OF assms(1)]
proof (cases rule: delete_session_cases)
  case absent
  have "session_owner (ss_keys st) (view s) (TrimSpace sid) = None"
    using absent(3) owner_trim [OF assms(1), of "TrimSpace sid"] by (cases "session_owner (ss_keys st) (view s) (TrimSpace sid)") auto
  with absent(2) show ?thesis by (simp add: fun_upd_None_id)
next
  case (gone key u ukey)
  then show ?thesis using owner_delete [OF gone(1,2)] by simp
qed simp

sublocale sessions: session_map "CreateSession (Some st)" "GetSessionUserID (Some st)" "DeleteSession (Some st)"
  "\<lambda>s. session_owner (ss_keys st) (view s)" "\<lambda>s. wf_sessions st (view s)"
proof (unfold_locales, goal_cases)
  case (1 s u sid x s')
  from 1(3) st_client wf_sessionsD(1) [OF 1(1)] st_ttl show ?case
    by (cases rule: create_session_cases) (simp_all add: owner_create)
next
  case (2 s u sid e s')
  from 2(3) st_client wf_sessionsD(1) [OF 2(1)] st_ttl show ?case
    by (cases rule: create_session_cases) (simp_all add: owner_create)
next
  case (3 s sid u s')
  from get_session_Inr [OF 3(2) st_client wf_sessionsD(1) [OF 3(1)]] owner_trim [OF 3(1)] show ?case by auto
next
  case (4 s sid e s')
  from get_session_unauth [OF 4(2) st_client wf_sessionsD(1) [OF 4(1)] 4(3)] owner_trim [OF 4(1), of "TrimSpace sid"]
  show ?case by (cases "session_owner (ss_keys st) (view s) (TrimSpace sid)") auto
next
  case (5 s sid g s')
  then show ?case by (simp add: get_session_view)
next
  case (6 s sid x s')
  from delete_owner [OF 6] show ?case by simp
next
  case (7 s sid e s')
  from delete_owner [OF 7] show ?case by auto
next
  case (8 s u sid c s')
  then show ?case by (rule wf_CreateSession)
next
  case (9 s sid g s')
  then show ?case by (simp add: get_session_view)
next
  case (10 s sid c s')
  then show ?case by (rule wf_DeleteSession)
qed

lemmas session_created = sessions.create_get
lemmas get_session_owner = sessions.get_ok
lemmas session_deleted = sessions.delete_get

end

definition mem_session_store :: "mem SessionStore" where
  "mem_session_store = \<lparr>ss_client = Some mem_redis, ss_keys = \<lparr>kb_prefix = ''rpg:local''\<rparr>,
     ss_ttl = DefaultSessionTTL\<rparr>"

interpretation mem_sessions: session_store mem_redis mem_view mem_session_store
  by unfold_locales (simp_all add: mem_session_store_def DefaultSessionTTL_def Millisecond_def Second_def)

section \<open>Properties\<close>

text \<open>
  The session invariant is kept by every operation of the store, whether it reports
  success or failure, and by the passage of time: every live session is listed in an
  index of its owner that does not expire before it.
\<close>

theorem sessions_invariant:
  assumes "redis_clock rc view pass" and "ss_client st = Some rc" and "Millisecond \<le> ss_ttl st"
    and "wf_sessions st (view s)" and "key_segment maxIDBytes u" and "0 \<le> d"
  shows "wf_sessions st (view (snd (CreateSession (Some st) sid u s))) \<and>
    wf_sessions st (view (snd (GetSessionUserID (Some st) sid s))) \<and>
    wf_sessions st (view (snd (DeleteSession (Some st) sid s))) \<and>
    wf_sessions st (view (snd (DeleteUserSessions (Some st) uid s))) \<and>
    wf_sessions st (view (pass d s))"
proof -
  have ss: "session_store rc view st"
    using assms(1-3) by (simp add: session_store_def session_store_axioms_def redis_clock_def)
  have "wf_sessions st (view (pass d s))"
    using redis_clock.pass_view [OF assms(1,6)] wf_sessions_age [OF assms(4,6)] by simp
  then show ?thesis
    using session_store.wf_CreateSession [OF ss assms(4,5)] session_store.wf_DeleteSession [OF ss assms(4)]
      session_store.wf_DeleteUserSessions [OF ss assms(4)] session_store.get_session_view [OF ss assms(4)]
      assms(4) by (metis prod.collapse)
qed

text \<open>
  C20. Bulk revocation is complete and precise: when it reports success, the user owns no
  live session, and exactly the sessions listed in the user's index have been removed.
\<close>

theorem revocation_complete:
  assumes "redis_server rc view" and "ss_client st = Some rc" and "wf_sessions st (view s)"
    and "DeleteUserSessions (Some st) uid s = (Inr x, s')"
  shows "(\<forall>sid. session_owner (ss_keys st) (view s') sid \<noteq> Some (TrimSpace uid)) \<and>
    (\<exists>ukey. UserSessions (ss_keys st) (TrimSpace uid) = Inr ukey \<and>
       (\<forall>sid. session_owner (ss_keys st) (view s') sid =
          (if sid \<in> set_members (view s ukey) then None else session_owner (ss_keys st) (view s) sid)))"
proof -
  have wf: "wf_keys (ss_keys st) (view s)" and inv: "sessions_indexed (ss_keys st) (ss_ttl st div Millisecond) (view s)"
    using assms(3) by (simp_all add: wf_sessions_def)
  obtain ukey prefix where u: "UserSessions (ss_keys st) (TrimSpace uid) = Inr ukey"
    and p: "SessionPrefix (ss_keys st) = Inr prefix" and v: "view s' = del_user_view ukey prefix (view s)"
    by (rule redis_server.delete_user_cases [OF assms(1,4,2) wf]) auto
  have own: "session_owner (ss_keys st) (view s') sid =
      (if sid \<in> set_members (view s ukey) then None else session_owner (ss_keys st) (view s) sid)" for sid
    by (simp add: session_owner_def v del_user_entries(1) [OF inv u p])
  have "session_owner (ss_keys st) (view s') sid \<noteq> Some (TrimSpace uid)" for sid
  proof
    assume "session_owner (ss_keys st) (view s') sid = Some (TrimSpace uid)"
    then have o: "session_owner (ss_keys st) (view s) sid = Some (TrimSpace uid)"
      and n: "sid \<notin> set_members (view s ukey)"
      by (simp_all add: own split: if_splits)
    then obtain t where e: "session_entry (ss_keys st) (view s) sid = Some (TrimSpace uid, t)"
      by (auto simp: session_owner_def)
    from sessions_indexedD [OF inv e] index_entry_members [OF u] n show False by metis
  qed
  with u own show ?thesis by blast
qed

text \<open>
  Session life cycle: a created session authenticates exactly its owner, and once
  deletion reported success no call authenticates with it.
\<close>

theorem session_lifecycle:
  assumes "redis_server rc view" and "ss_client st = Some rc" and "Millisecond \<le> ss_ttl st"
    and "wf_sessions st (view s)" and "key_segment maxIDBytes u" and "TrimSpace sid = sid"
    and "CreateSession (Some st) sid u s = (Inr x, s1)"
    and "GetSessionUserID (Some st) sid s1 = (r1, s2)"
    and "DeleteSession (Some st) sid s2 = (Inr y, s3)"
    and "GetSessionUserID (Some st) sid s3 = (r2, s4)"
  shows "(r1 = Inr u \<or> (\<exists>e. r1 = Inl e \<and> \<not> errors_is e ErrUnauthenticated)) \<and> (\<exists>e. r2 = Inl e)"
proof -
  have ss: "session_store rc view st"
    using assms(1-3) by (simp add: session_store_def session_store_axioms_def)
  have wf1: "wf_sessions st (view s1)" by (rule session_store.wf_CreateSession [OF ss assms(4,5,7)])
  then have wf2: "wf_sessions st (view s2)" using session_store.get_session_view [OF ss wf1 assms(8)] by simp
  show ?thesis
    using session_store.session_created [OF ss assms(4,5,7,6,8)]
      session_store.session_deleted [OF ss wf2 assms(9) refl assms(10)] by blast
qed

section \<open>Witnesses\<close>

lemma w_sessions_empty: "wf_sessions mem_session_store (mem_view mem_empty)"
proof -
  have "mem_view mem_empty = (\<lambda>_. None)" by (simp add: fun_eq_iff mem_view_def mem_empty_def)
  then show ?thesis
    by (simp add: wf_sessions_def wf_keys_empty sessions_indexed_def owners_valid_def session_owner_def
        session_entry_def index_entry_def split: sum.splits)
qed

definition w_created_session :: mem where
  "w_created_session = snd (CreateSession (Some mem_session_store) ''a1'' ''u1'' mem_empty)"

lemma w_user: "key_segment maxIDBytes ''u1''"
  by code_simp

lemma w_session_created:
  "CreateSession (Some mem_session_store) ''a1'' ''u1'' mem_empty = (Inr (), w_created_session)"
proof -
  have "fst (CreateSession (Some mem_session_store) ''a1'' ''u1'' mem_empty) = Inr ()" by code_simp
  then show ?thesis by (simp add: w_created_session_def prod_eq_iff)
qed

lemma w_session_wf: "wf_sessions mem_session_store (mem_view w_created_session)"
  by (rule mem_sessions.wf_CreateSession [OF w_sessions_empty w_user w_session_created])

theorem sessions_invariant_witness:
  "wf_sessions mem_session_store (mem_view mem_empty) \<and>
   wf_sessions mem_session_store (mem_view (snd (CreateSession (Some mem_session_store) ''a1'' ''u1'' mem_empty))) \<and>
   wf_sessions mem_session_store (mem_view (mem_pass 1000 mem_empty))"
proof -
  have d: "(0::int) \<le> 1000" by simp
  show ?thesis
    using sessions_invariant [OF mem_clocked.redis_clock_axioms mem_sessions.st_client mem_sessions.st_ttl
        w_sessions_empty w_user d, of "''a1''" "''u1''"] w_sessions_empty by blast
qed

theorem revocation_complete_witness:
  "session_owner (ss_keys mem_session_store) (mem_view w_created_session) ''a1'' = Some ''u1'' \<and>
   session_owner (ss_keys mem_session_store)
     (mem_view (snd (DeleteUserSessions (Some mem_session_store) ''u1'' w_created_session))) ''a1'' \<noteq> Some ''u1''"
proof -
  let ?d = "DeleteUserSessions (Some mem_session_store) ''u1'' w_created_session"
  have o1: "session_owner (ss_keys mem_session_store) (mem_view w_created_session) ''a1'' = Some ''u1''" by code_simp
  have t: "TrimSpace ''u1'' = ''u1''" by (rule key_segment_trim [OF w_user])
  have "fst ?d = Inr ()" by code_simp
  then have "?d = (Inr (), snd ?d)" by (simp add: prod_eq_iff)
  from revocation_complete [OF mem_server.redis_server_axioms mem_sessions.st_client w_session_wf this]
  show ?thesis using o1 t by simp
qed

theorem session_lifecycle_witness:
  "\<exists>s2 s3. GetSessionUserID (Some mem_session_store) ''a1'' w_created_session = (Inr ''u1'', s2) \<and>
     DeleteSession (Some mem_session_store) ''a1'' s2 = (Inr (), s3) \<and>
     (\<exists>e. fst (GetSessionUserID (Some mem_session_store) ''a1'' s3) = Inl e)"
proof -
  let ?g = "GetSessionUserID (Some mem_session_store) ''a1'' w_created_session"
  let ?d = "DeleteSession (Some mem_session_store) ''a1'' (snd ?g)"
  let ?g2 = "GetSessionUserID (Some mem_session_store) ''a1'' (snd ?d)"
  have g: "?g = (Inr ''u1'', snd ?g)" by (simp only: prod_eq_iff fst_conv snd_conv, rule conjI, code_simp, rule refl)
  have d: "?d = (Inr (), snd ?d)" by (simp only: prod_eq_iff fst_conv snd_conv, rule conjI, code_simp, rule refl)
  have t: "TrimSpace ''a1'' = ''a1''" by code_simp
  have g2: "?g2 = (fst ?g2, snd ?g2)" by simp
  from session_lifecycle [OF mem_server.redis_server_axioms mem_sessions.st_client mem_sessions.st_ttl
      w_sessions_empty w_user t w_session_created g d g2]
  show ?thesis using g d by blast
qed

end
