(* ===== verification/Go_Json.thy ===== *)
theory Go_Json
  imports Redis_Client
begin

text \<open>
  The use the stores make of \<open>encoding/json\<close>: one encoder and one decoder per payload
  type, as parameters. What the stores rely on is that decoding an encoded payload of
  ASCII text gives the payload back. The last definitions are a concrete codec of the
  same kind, which the witnesses use.
\<close>

section \<open>Definitions\<close>

record 'p json =
  marshal :: "'p \<Rightarrow> string result"
  unmarshal :: "string \<Rightarrow> 'p result"

definition json_roundtrip :: "('p \<Rightarrow> bool) \<Rightarrow> 'p json \<Rightarrow> bool" where
  "json_roundtrip ok js = (\<forall>p data. ok p \<longrightarrow> marshal js p = Inr data \<longrightarrow> unmarshal js data = Inr p)"

text \<open>A frame of fields separated by a byte that no ASCII text has.\<close>

definition frame_sep :: char where
  "frame_sep = CHR 0xFF"

definition frame :: "string list \<Rightarrow> string" where
  "frame fs = Join fs [frame_sep]"

definition unframe :: "string \<Rightarrow> string list" where
  "unframe data = Split data frame_sep"

section \<open>Lemmas\<close>

lemma json_roundtripD: "json_roundtrip ok js \<Longrightarrow> ok p \<Longrightarrow> marshal js p = Inr d \<Longrightarrow> unmarshal js d = Inr p"
  by (simp add: json_roundtrip_def)

lemma frame_sep_ascii: "is_ascii s \<Longrightarrow> frame_sep \<notin> set s"
  by (auto simp: is_ascii_def frame_sep_def list_all_iff)

lemma is_ascii_nat_to_dec: "is_ascii (nat_to_dec n)"
proof (induction n rule: nat_to_dec.induct)
  case (1 n)
  have "(of_char (digit_char d) :: nat) < 128" if "d < 10" for d
    using that by (simp add: digit_char_def of_char_of take_bit_eq_mod)
  with 1 show ?case
    by (cases "n < 10") (simp_all add: nat_to_dec.simps [of n] is_ascii_def)
qed

lemma is_ascii_Itoa: "is_ascii (Itoa n)"
  using is_ascii_nat_to_dec by (simp add: Itoa_def is_ascii_def)

lemma unframe_frame: "fs \<noteq> [] \<Longrightarrow> list_all is_ascii fs \<Longrightarrow> unframe (frame fs) = fs"
  unfolding frame_def unframe_def
  by (rule Split_Join) (auto simp: list_all_iff frame_sep_ascii)

end
