(* ===== verification/Join_Tokens.thy ===== *)
theory Join_Tokens
  imports Keyspace Go_Json
begin

text \<open>
  The join token store, \<open>internal/store/redis/join_tokens.go\<close>: a token is written with
  an expiry and consumed by one \<open>GETDEL\<close>. The contract the services rely on is the
  locale \<open>join_token_store\<close>: a consumption that succeeds returns the pending token and
  leaves nothing to consume. The JSON encoder is a parameter with its round trip on ASCII
  text as a law.
\<close>

section \<open>Definitions\<close>

record joinTokenPayload =
  jp_UserID :: string
  jp_CharacterID :: string
  jp_ServerID :: string
  jp_ServerAddr :: string
  jp_ExpiresAt :: time

record 's JoinTokenStore =
  jts_client :: "'s redis option"
  jts_keys :: KeyBuilder

definition NewJoinTokenStore :: "'s redis option \<Rightarrow> KeyBuilder \<Rightarrow> 's JoinTokenStore" where
  "NewJoinTokenStore client keys = \<lparr>jts_client = client, jts_keys = keys\<rparr>"

definition CreateJoinToken ::
  "joinTokenPayload json \<Rightarrow> 's JoinTokenStore option \<Rightarrow> time \<Rightarrow> JoinToken \<Rightarrow> 's \<Rightarrow> unit result \<times> 's" where
  "CreateJoinToken js store now token s =
     with_client store jts_client s (\<lambda>st rc.
       bindP (mapErr (redisKeyError ''build join-token key'') (key_JoinToken (jts_keys st) (jt_Token token))) s (\<lambda>key.
       let ttl = Until now (jt_ExpiresAt token) in
       if jt_ExpiresAt token = zero_time then
         (Inl (Wrap ''join token expiry is required'' [Sentinel ErrInvalidArgument]), s)
       else if ttl \<le> 0 then
         (Inl (Wrap ''join token already expired'' [Sentinel ErrInvalidArgument]), s)
       else
         let payload = \<lparr>jp_UserID = jt_UserID token, jp_CharacterID = jt_CharacterID token,
               jp_ServerID = jt_ServerID token, jp_ServerAddr = jt_ServerAddr token,
               jp_ExpiresAt = jt_ExpiresAt token\<rparr> in
         bindP (mapErr (\<lambda>e. redisInternal ''marshal join token'' (Some e)) (marshal js payload)) s (\<lambda>data.
         mapErrS (\<lambda>e. redisUnavailable ''create join token'' (Some e)) (c_Set rc key data ttl s))))"

text \<open>The decoding and checking that follows a successful \<open>GETDEL\<close>.\<close>

definition joinTokenOf :: "joinTokenPayload json \<Rightarrow> string \<Rightarrow> string \<Rightarrow> JoinToken result" where
  "joinTokenOf js tokenID raw =
     (let unauth = (\<lambda>_. Sentinel ErrUnauthenticated) in
      bindE (mapErr unauth (unmarshal js raw)) (\<lambda>payload.
      bindE (mapErr unauth (RequiredID ''user ID'' (jp_UserID payload))) (\<lambda>_.
      bindE (mapErr unauth (RequiredID ''character ID'' (jp_CharacterID payload))) (\<lambda>_.
      bindE (mapErr unauth (RequiredID ''server ID'' (jp_ServerID payload))) (\<lambda>_.
      bindE (mapErr unauth (ServerAddress (jp_ServerAddr payload))) (\<lambda>_.
      Inr \<lparr>jt_Token = tokenID, jt_UserID = jp_UserID payload, jt_CharacterID = jp_CharacterID payload,
           jt_ServerID = jp_ServerID payload, jt_ServerAddr = jp_ServerAddr payload,
           jt_ExpiresAt = jp_ExpiresAt payload\<rparr>))))))"

definition consumeError :: "gerr \<Rightarrow> gerr" where
  "consumeError e = (if errors_is e RedisNil then Sentinel ErrUnauthenticated
     else redisUnavailable ''consume join token'' (Some e))"

definition ConsumeJoinToken ::
  "joinTokenPayload json \<Rightarrow> 's JoinTokenStore option \<Rightarrow> string \<Rightarrow> 's \<Rightarrow> JoinToken result \<times> 's" where
  "ConsumeJoinToken js store token s =
     with_client store jts_client s (\<lambda>st rc.
       bindP (RequiredID ''join token'' token) s (\<lambda>tokenID.
       bindP (mapErr (redisKeyError ''build join-token key'') (key_JoinToken (jts_keys st) tokenID)) s (\<lambda>key.
       bindS (mapErrS consumeError (c_GetDel rc key s)) (\<lambda>raw s1.
       (joinTokenOf js tokenID raw, s1)))))"

text \<open>The raw payload pending under a token, read off the live keys.\<close>

definition pending_raw :: "KeyBuilder \<Rightarrow> kv \<Rightarrow> string \<Rightarrow> string option" where
  "pending_raw k m tok =
     (case key_JoinToken k tok of Inl e \<Rightarrow> None
      | Inr key \<Rightarrow> (case m key of Some (RStr v, t) \<Rightarrow> Some v | _ \<Rightarrow> None))"

section \<open>The store contract\<close>

text \<open>
  A call that reports an error may have taken effect, but never revives a token that is
  not pending. \<open>pending\<close> is what a consumption would find.
\<close>

locale join_token_store =
  fixes create :: "time \<Rightarrow> JoinToken \<Rightarrow> 's \<Rightarrow> unit result \<times> 's"
    and consume :: "string \<Rightarrow> 's \<Rightarrow> JoinToken result \<times> 's"
    and pending :: "'s \<Rightarrow> string \<Rightarrow> string option"
    and dec :: "string \<Rightarrow> string \<Rightarrow> JoinToken result"
    and wf :: "'s \<Rightarrow> bool"
  assumes create_frame: "wf s \<Longrightarrow> create now t s = (r, s') \<Longrightarrow> tok \<noteq> jt_Token t \<Longrightarrow>
        pending s' tok = pending s tok"
    and consume_ok: "wf s \<Longrightarrow> consume tok s = (Inr t, s') \<Longrightarrow>
        jt_Token t = TrimSpace tok \<and>
        (\<exists>raw. pending s (TrimSpace tok) = Some raw \<and> dec (TrimSpace tok) raw = Inr t) \<and>
        pending s' = (pending s)(TrimSpace tok := None)"
    and consume_err: "wf s \<Longrightarrow> consume tok s = (Inl e, s') \<Longrightarrow>
        pending s' = pending s \<or> pending s' = (pending s)(TrimSpace tok := None)"
    and wf_create: "wf s \<Longrightarrow> create now t s = (r, s') \<Longrightarrow> wf s'"
    and wf_consume: "wf s \<Longrightarrow> consume tok s = (r', s') \<Longrightarrow> wf s'"
begin

text \<open>Consumption never makes a token pending, and a consumed token stays consumed.\<close>

lemma consume_no_revival:
  assumes "wf s" and "consume tok s = (r, s')" and "pending s tok' = None"
  shows "pending s' tok' = None"
proof (cases r)
  case (Inl e)
  then show ?thesis using consume_err [OF assms(1), of tok e s'] assms(2,3) by auto
next
  case (Inr t)
  then show ?thesis using consume_ok [OF assms(1), of tok t s'] assms(2,3) by auto
qed

lemma consume_needs_pending:
  assumes "wf s" and "consume tok s = (r, s')" and "pending s (TrimSpace tok) = None"
  shows "\<exists>e. r = Inl e"
proof (cases r)
  case (Inr t)
  then show ?thesis using consume_ok [OF assms(1), of tok t s'] assms(2,3) by simp
qed simp

end

section \<open>Lemmas\<close>

lemma pending_raw_at:
  "pending_raw k (m(key := e)) tok =
     (if key_JoinToken k tok = Inr key then (case e of Some (RStr v, t) \<Rightarrow> Some v | _ \<Rightarrow> None)
      else pending_raw k m tok)"
  by (simp add: pending_raw_def split: sum.splits)

lemma token_key_inject:
  "key_JoinToken k tok = Inr key \<Longrightarrow> key_JoinToken k tok' = Inr key \<longleftrightarrow> tok' = tok"
  unfolding key_JoinToken_def
  using build_inject [of k "[''join_token'', tok]" key "[''join_token'', tok']"] by auto

lemma pending_raw_upd:
  assumes "key_JoinToken k tok = Inr key"
  shows "pending_raw k (m(key \<mapsto> (RStr v, t))) = (pending_raw k m)(tok \<mapsto> v)"
    and "pending_raw k (m(key := None)) = (pending_raw k m)(tok := None)"
  by (simp_all add: fun_eq_iff pending_raw_at token_key_inject [OF assms])

lemma pending_raw_other:
  assumes "build k parts = Inr key" and "hd parts \<noteq> ''join_token''"
  shows "pending_raw k (m(key := e)) = pending_raw k m"
proof -
  have "key_JoinToken k tok \<noteq> Inr key" for tok
    using assms build_inject [of k parts key "[''join_token'', tok]"]
    unfolding key_JoinToken_def by auto
  then show ?thesis by (simp add: fun_eq_iff pending_raw_at)
qed

lemma pending_raw_Some:
  "key_JoinToken k tok = Inr key \<Longrightarrow> pending_raw k m tok = Some v \<longleftrightarrow> (\<exists>t. m key = Some (RStr v, t))"
  by (auto simp: pending_raw_def split: option.splits rval.splits)

lemma token_key_str: "wf_keys k m \<Longrightarrow> key_JoinToken k tok = Inr key \<Longrightarrow> str_key m key"
  unfolding key_JoinToken_def by (rule wf_keys_str) auto

lemma wf_token_upd:
  "wf_keys k m \<Longrightarrow> key_JoinToken k tok = Inr key \<Longrightarrow> wf_keys k (m(key \<mapsto> (RStr v, t)))"
  "wf_keys k m \<Longrightarrow> key_JoinToken k tok = Inr key \<Longrightarrow> wf_keys k (m(key := None))"
  unfolding key_JoinToken_def by (auto intro: wf_keys_str_upd wf_keys_del)

lemma joinTokenOf_Inr:
  "joinTokenOf js tok raw = Inr t \<longleftrightarrow>
     (\<exists>p. unmarshal js raw = Inr p \<and>
        key_segment maxIDBytes (TrimSpace (jp_UserID p)) \<and>
        key_segment maxIDBytes (TrimSpace (jp_CharacterID p)) \<and>
        key_segment maxIDBytes (TrimSpace (jp_ServerID p)) \<and>
        (\<exists>a. ServerAddress (jp_ServerAddr p) = Inr a) \<and>
        t = \<lparr>jt_Token = tok, jt_UserID = jp_UserID p, jt_CharacterID = jp_CharacterID p,
             jt_ServerID = jp_ServerID p, jt_ServerAddr = jp_ServerAddr p, jt_ExpiresAt = jp_ExpiresAt p\<rparr>)"
  by (auto simp: joinTokenOf_def Let_def bind_eq_Inr ids_Inr)

lemma joinTokenOf_Inl: "joinTokenOf js tok raw = Inl e \<Longrightarrow> e = Sentinel ErrUnauthenticated"
  by (auto simp: joinTokenOf_def Let_def bind_eq_Inl mapErr_eq_Inl)

lemma CreateJoinToken_cases:
  assumes "CreateJoinToken js (Some st) now t s = (r, s')" and "jts_client st = Some rc"
  obtains (early) e where "r = Inl e" "s' = s"
  | (call) key data q where "key_JoinToken (jts_keys st) (jt_Token t) = Inr key"
      "now < jt_ExpiresAt t"
      "marshal js \<lparr>jp_UserID = jt_UserID t, jp_CharacterID = jt_CharacterID t,
               jp_ServerID = jt_ServerID t, jp_ServerAddr = jt_ServerAddr t,
               jp_ExpiresAt = jt_ExpiresAt t\<rparr> = Inr data"
      "c_Set rc key data (Until now (jt_ExpiresAt t)) s = (q, s')"
      "r = mapErr (\<lambda>e. redisUnavailable ''create join token'' (Some e)) q"
proof -
  let ?p = "\<lparr>jp_UserID = jt_UserID t, jp_CharacterID = jt_CharacterID t,
               jp_ServerID = jt_ServerID t, jp_ServerAddr = jt_ServerAddr t,
               jp_ExpiresAt = jt_ExpiresAt t\<rparr>"
  show ?thesis
  proof (cases "key_JoinToken (jts_keys st) (jt_Token t)")
    case (Inl e)
    with assms early show ?thesis by (auto simp: CreateJoinToken_def)
  next
    case key: (Inr key)
    show ?thesis
    proof (cases "jt_ExpiresAt t = zero_time \<or> Until now (jt_ExpiresAt t) \<le> 0")
      case True
      with key assms have "\<exists>e. r = Inl e \<and> s' = s"
        by (auto simp: CreateJoinToken_def Let_def split: if_splits)
      with early show ?thesis by blast
    next
      case False
      then have pos: "now < jt_ExpiresAt t" by (simp add: not_le)
      show ?thesis
      proof (cases "marshal js ?p")
        case (Inl e)
        with key False assms early show ?thesis by (auto simp: CreateJoinToken_def Let_def)
      next
        case data: (Inr data)
        obtain q u where q: "c_Set rc key data (Until now (jt_ExpiresAt t)) s = (q, u)" by force
        with data key False assms have "s' = u"
          "r = mapErr (\<lambda>e. redisUnavailable ''create join token'' (Some e)) q"
          by (auto simp: CreateJoinToken_def Let_def)
        with call [OF key pos data] q show ?thesis by simp
      qed
    qed
  qed
qed

lemma ConsumeJoinToken_cases:
  assumes "ConsumeJoinToken js (Some st) tok s = (r, s')" and "jts_client st = Some rc"
  obtains (early) e where "r = Inl e" "s' = s"
  | (call) key q where "key_JoinToken (jts_keys st) (TrimSpace tok) = Inr key"
      "key_segment maxIDBytes (TrimSpace tok)"
      "c_GetDel rc key s = (q, s')"
      "r = bindE (mapErr consumeError q) (joinTokenOf js (TrimSpace tok))"
proof (cases "RequiredID ''join token'' tok")
  case (Inl e)
  with assms early show ?thesis by (auto simp: ConsumeJoinToken_def)
next
  case (Inr tid)
  then have tid: "tid = TrimSpace tok" "key_segment maxIDBytes (TrimSpace tok)"
    by (auto simp: ids_Inr)
  show ?thesis
  proof (cases "key_JoinToken (jts_keys st) tid")
    case (Inl e)
    with Inr assms early show ?thesis by (auto simp: ConsumeJoinToken_def)
  next
    case key: (Inr key)
    obtain q u where q: "c_GetDel rc key s = (q, u)" by force
    with key Inr assms have "s' = u" "r = bindE (mapErr consumeError q) (joinTokenOf js tid)"
      by (cases q; auto simp: ConsumeJoinToken_def)+
    with call tid key q show ?thesis by simp
  qed
qed

context redis_server
begin

lemma create_token_view:
  assumes "CreateJoinToken js (Some st) now t s = (r, s')" and "jts_client st = Some rc"
  shows "view s' = view s \<or>
    (\<exists>key data. key_JoinToken (jts_keys st) (jt_Token t) = Inr key \<and>
       view s' = (view s)(key \<mapsto> (RStr data, Some (px_ms rc (Until now (jt_ExpiresAt t))))))"
  using assms
proof (cases rule: CreateJoinToken_cases)
  case (call key data q)
  have pos: "0 < Until now (jt_ExpiresAt t)" using call(2) by simp
  from c_Set_view [OF call(4) pos] call(1) show ?thesis by blast
qed simp

lemma create_token_result:
  assumes "CreateJoinToken js (Some st) now t s = (Inr u, s')" and "jts_client st = Some rc"
  obtains key data where "key_JoinToken (jts_keys st) (jt_Token t) = Inr key"
    and "marshal js \<lparr>jp_UserID = jt_UserID t, jp_CharacterID = jt_CharacterID t,
           jp_ServerID = jt_ServerID t, jp_ServerAddr = jt_ServerAddr t,
           jp_ExpiresAt = jt_ExpiresAt t\<rparr> = Inr data"
    and "now < jt_ExpiresAt t"
    and "view s' = (view s)(key \<mapsto> (RStr data, Some (px_ms rc (Until now (jt_ExpiresAt t)))))"
  using assms
proof (cases rule: CreateJoinToken_cases)
  case (call key data q)
  then obtain u' where "q = Inr u'" by (cases q) auto
  then have "c_Set rc key data (Until now (jt_ExpiresAt t)) s = (Inr u', s')" using call(4) by simp
  from c_Set_Inr [OF this] call(2) that [OF call(1,3,2)] show ?thesis by simp
qed simp

lemma consume_token_result:
  assumes "ConsumeJoinToken js (Some st) tok s = (Inr t, s')" and "jts_client st = Some rc"
    and "wf_keys (jts_keys st) (view s)"
  obtains key raw tm where "key_JoinToken (jts_keys st) (TrimSpace tok) = Inr key"
    and "view s key = Some (RStr raw, tm)" and "joinTokenOf js (TrimSpace tok) raw = Inr t"
    and "view s' = (view s)(key := None)"
  using assms(1,2)
proof (cases rule: ConsumeJoinToken_cases)
  case (call key q)
  from call(4) obtain raw where q: "q = Inr raw" and j: "joinTokenOf js (TrimSpace tok) raw = Inr t"
    by (cases q) auto
  have sk: "str_key (view s) key" by (rule token_key_str [OF assms(3) call(1)])
  from c_GetDel_Inr [OF call(3) [unfolded q] sk] that [OF call(1) _ j] show ?thesis by blast
qed simp

lemma consume_token_view:
  assumes "ConsumeJoinToken js (Some st) tok s = (r, s')" and "jts_client st = Some rc"
    and "wf_keys (jts_keys st) (view s)"
  shows "view s' = view s \<or>
    (\<exists>key. key_JoinToken (jts_keys st) (TrimSpace tok) = Inr key \<and> view s' = (view s)(key := None))"
  using assms(1,2)
proof (cases rule: ConsumeJoinToken_cases)
  case (call key q)
  have sk: "str_key (view s) key" by (rule token_key_str [OF assms(3) call(1)])
  have "view s' = view s \<or> view s' = (view s)(key := None)"
  proof (cases q)
    case (Inl e)
    then show ?thesis using c_GetDel_Inl_view [OF call(3) [unfolded Inl] sk] by simp
  next
    case (Inr v)
    then show ?thesis using c_GetDel_Inr [OF call(3) [unfolded Inr] sk] by simp
  qed
  with call(1) show ?thesis by blast
qed simp

lemma tokens_within:
  assumes "jts_client st = Some rc" and "wf_keys (jts_keys st) (view s)"
  shows "CreateJoinToken js (Some st) now t s = (c, s') \<Longrightarrow> keeps_to {''join_token''} (jts_keys st) (view s) (view s')"
    and "ConsumeJoinToken js (Some st) tok s = (r, s') \<Longrightarrow> keeps_to {''join_token''} (jts_keys st) (view s) (view s')"
  using create_token_view [of js st now t s c s'] consume_token_view [of js st tok s r s'] assms
    keeps_to_refl [OF assms(2)] keeps_to_str [OF assms(2)] keeps_to_del [OF assms(2)]
  unfolding key_JoinToken_def by fastforce+

text \<open>Consumption of a token that is not there, and of one that is.\<close>

lemma consume_none:
  assumes "ConsumeJoinToken js (Some st) tok s = (r, s')" and "jts_client st = Some rc"
    and "key_segment maxIDBytes (TrimSpace tok)"
    and "key_JoinToken (jts_keys st) (TrimSpace tok) = Inr key" and "view s key = None"
  shows "r = Inl (Sentinel ErrUnauthenticated) \<or> (\<exists>e. r = Inl e \<and> errors_is e ErrUnavailable)"
proof -
  obtain q t where q: "c_GetDel rc key s = (q, t)" by force
  have r: "r = bindE (mapErr consumeError q) (joinTokenOf js (TrimSpace tok))"
    using assms(1-4) q by (cases q) (auto simp: ConsumeJoinToken_def ids_required)
  have "str_key (view s) key" using assms(5) by (simp add: str_key_def)
  then obtain e where "q = Inl e"
    using c_GetDel_Inr [of key s _ t] q assms(5) by (cases q) auto
  with r show ?thesis by (simp add: consumeError_def)
qed

lemma consume_some:
  assumes "ConsumeJoinToken js (Some st) tok s = (r, s')" and "jts_client st = Some rc"
    and "key_segment maxIDBytes (TrimSpace tok)"
    and "key_JoinToken (jts_keys st) (TrimSpace tok) = Inr key" and "view s key = Some (RStr raw, tm)"
  shows "r = joinTokenOf js (TrimSpace tok) raw \<or> (\<exists>e. r = Inl e \<and> errors_is e ErrUnavailable)"
proof -
  obtain q t where q: "c_GetDel rc key s = (q, t)" by force
  have r: "r = bindE (mapErr consumeError q) (joinTokenOf js (TrimSpace tok))"
    using assms(1-4) q by (cases q) (auto simp: ConsumeJoinToken_def ids_required)
  have sk: "str_key (view s) key" using assms(5) by (simp add: str_key_def)
  show ?thesis
  proof (cases q)
    case (Inl e)
    with q c_GetDel_nil [of key s e t] sk assms(5) have "\<not> errors_is e RedisNil" by auto
    with r Inl show ?thesis by (simp add: consumeError_def)
  next
    case (Inr v)
    with q c_GetDel_Inr [of key s v t] sk assms(5) have "v = raw" by auto
    with r Inr show ?thesis by simp
  qed
qed

end

locale token_store = redis_server +
  fixes js :: "joinTokenPayload json" and st :: "'a JoinTokenStore"
  assumes st_client: "jts_client st = Some rc"
begin

sublocale tokens: join_token_store "CreateJoinToken js (Some st)" "ConsumeJoinToken js (Some st)"
  "\<lambda>s. pending_raw (jts_keys st) (view s)" "joinTokenOf js" "\<lambda>s. wf_keys (jts_keys st) (view s)"
proof (unfold_locales, goal_cases)
  case (1 s now t r s' tok)
  from create_token_view [OF 1(2) st_client] show ?case
  proof
    assume "\<exists>key data. key_JoinToken (jts_keys st) (jt_Token t) = Inr key \<and>
       view s' = (view s)(key \<mapsto> (RStr data, Some (px_ms rc (Until now (jt_ExpiresAt t)))))"
    then show ?case using 1(3) by (auto simp: pending_raw_upd)
  qed simp
next
  case (2 s tok t s')
  from consume_token_result [OF 2(2) st_client 2(1)] obtain key raw tm where
    k: "key_JoinToken (jts_keys st) (TrimSpace tok) = Inr key" and
    v: "view s key = Some (RStr raw, tm)" "joinTokenOf js (TrimSpace tok) raw = Inr t"
    "view s' = (view s)(key := None)" by blast
  have "pending_raw (jts_keys st) (view s) (TrimSpace tok) = Some raw"
    using v(1) pending_raw_Some [OF k] by blast
  with v show ?case by (auto simp: pending_raw_upd [OF k] joinTokenOf_Inr)
next
  case (3 s tok e s')
  from consume_token_view [OF 3(2) st_client 3(1)] show ?case by (auto simp: pending_raw_upd)
next
  case (4 s now t r s')
  from create_token_view [OF 4(2) st_client] 4(1) show ?case by (auto intro: wf_token_upd)
next
  case (5 s tok r s')
  from consume_token_view [OF 5(2) st_client 5(1)] 5(1) show ?case by (auto intro: wf_token_upd)
qed

end

text \<open>The store on the in-memory server, with the codec of framed fields.\<close>

definition mem_token_json :: "joinTokenPayload json" where
  "mem_token_json = \<lparr>
     marshal = (\<lambda>p. Inr (frame [jp_UserID p, jp_CharacterID p, jp_ServerID p, jp_ServerAddr p, Itoa (jp_ExpiresAt p)])),
     unmarshal = (\<lambda>d. case unframe d of
         [u, c, v, a, t] \<Rightarrow> (case Atoi t of
             Some n \<Rightarrow> Inr \<lparr>jp_UserID = u, jp_CharacterID = c, jp_ServerID = v, jp_ServerAddr = a, jp_ExpiresAt = n\<rparr>
           | None \<Rightarrow> Inl (Opaque ''invalid payload''))
       | _ \<Rightarrow> Inl (Opaque ''invalid payload''))\<rparr>"

definition mem_token_store :: "mem JoinTokenStore" where
  "mem_token_store = NewJoinTokenStore (Some mem_redis) \<lparr>kb_prefix = ''rpg:local''\<rparr>"

interpretation mem_tokens: token_store mem_redis mem_view mem_token_json mem_token_store
  by unfold_locales (simp add: mem_token_store_def NewJoinTokenStore_def)

text \<open>Payloads of ASCII text with an expiry after the epoch and within 64-bit nanoseconds.\<close>

definition token_payload_ok :: "joinTokenPayload \<Rightarrow> bool" where
  "token_payload_ok p =
     (list_all is_ascii [jp_UserID p, jp_CharacterID p, jp_ServerID p, jp_ServerAddr p] \<and>
      0 \<le> jp_ExpiresAt p \<and> jp_ExpiresAt p < 2 ^ 63)"

lemma mem_token_json_roundtrip: "json_roundtrip token_payload_ok mem_token_json"
  unfolding json_roundtrip_def
  by (auto simp: mem_token_json_def token_payload_ok_def unframe_frame is_ascii_Itoa Atoi_Itoa)

lemma created_token_consumed:
  assumes "redis_clock rc view pass" and "json_roundtrip token_payload_ok js"
    and "jts_client st = Some rc"
    and "CreateJoinToken js (Some st) now t s = (Inr u, s1)"
    and "list_all is_ascii [jt_UserID t, jt_CharacterID t, jt_ServerID t, jt_ServerAddr t]"
    and "0 \<le> now" and "jt_ExpiresAt t < 2 ^ 63"
    and "list_all (key_segment maxIDBytes) [jt_Token t, jt_UserID t, jt_CharacterID t, jt_ServerID t]"
    and "ServerAddress (jt_ServerAddr t) = Inr a"
    and "0 \<le> d" and "d < px_ms rc (Until now (jt_ExpiresAt t))"
    and "ConsumeJoinToken js (Some st) (jt_Token t) (pass d s1) = (r, s2)"
  shows "r = Inr t \<or> (\<exists>e. r = Inl e \<and> errors_is e ErrUnavailable)"
proof -
  have ax: "redis_server rc view" using assms(1) by (simp add: redis_clock_def)
  let ?p = "\<lparr>jp_UserID = jt_UserID t, jp_CharacterID = jt_CharacterID t, jp_ServerID = jt_ServerID t,
     jp_ServerAddr = jt_ServerAddr t, jp_ExpiresAt = jt_ExpiresAt t\<rparr>"
  obtain key data where k: "key_JoinToken (jts_keys st) (jt_Token t) = Inr key"
    and m: "marshal js ?p = Inr data" and e: "now < jt_ExpiresAt t"
    and v: "view s1 = (view s)(key \<mapsto> (RStr data, Some (px_ms rc (Until now (jt_ExpiresAt t)))))"
    by (rule redis_server.create_token_result [OF ax assms(4,3)])
  have "token_payload_ok ?p" using assms(5-7) e by (simp add: token_payload_ok_def)
  from json_roundtripD [OF assms(2) this m] have um: "unmarshal js data = Inr ?p" .
  have "joinTokenOf js (jt_Token t) data = Inr t"
    using um assms(8,9) by (auto simp: joinTokenOf_Inr key_segment_trim)
  moreover from v have "view s1 key = Some (RStr data, Some (px_ms rc (Until now (jt_ExpiresAt t))))" by simp
  from redis_clock.pass_alive [OF assms(1) this assms(10,11)]
  have "\<exists>tm. view (pass d s1) key = Some (RStr data, tm)" by blast
  moreover have "TrimSpace (jt_Token t) = jt_Token t" using assms(8) by (auto intro: key_segment_trim)
  ultimately show ?thesis
    using redis_server.consume_some [OF ax assms(12,3)] k assms(8) by fastforce
qed


section \<open>Properties\<close>

text \<open>
  C18. Single use: after a consumption returned the token, every later consumption of it
  fails, with unauthenticated unless Redis did not answer, however much time passes.
\<close>

theorem join_token_single_use:
  assumes "redis_clock rc view pass" and "jts_client st = Some rc"
    and "wf_keys (jts_keys st) (view s)"
    and "ConsumeJoinToken js (Some st) tok s = (Inr t, s1)" and "0 \<le> d"
    and "ConsumeJoinToken js (Some st) tok' (pass d s1) = (r, s2)"
    and "TrimSpace tok' = TrimSpace tok"
  shows "r = Inl (Sentinel ErrUnauthenticated) \<or> (\<exists>e. r = Inl e \<and> errors_is e ErrUnavailable)"
proof -
  have ax: "redis_server rc view" using assms(1) by (simp add: redis_clock_def)
  obtain key where k: "key_JoinToken (jts_keys st) (TrimSpace tok) = Inr key"
    and v: "view s1 = (view s)(key := None)"
    by (rule redis_server.consume_token_result [OF ax assms(4,2,3)])
  have n: "view (pass d s1) key = None" using v redis_clock.pass_view [OF assms(1,5)] by (simp add: age_def)
  have seg: "key_segment maxIDBytes (TrimSpace tok)"
    using assms(4,2) by (cases rule: ConsumeJoinToken_cases) auto
  show ?thesis
    by (rule redis_server.consume_none [OF ax assms(6,2)]) (use k n seg assms(7) in simp_all)
qed

text \<open>
  Round trip: a token that was created and is consumed before its time to live is up
  comes back field by field, unless Redis did not answer.
\<close>

theorem join_token_roundtrip:
  assumes "redis_clock rc view pass" and "json_roundtrip token_payload_ok js"
    and "jts_client st = Some rc"
    and "CreateJoinToken js (Some st) now t s = (Inr u, s1)"
    and "list_all is_ascii [jt_UserID t, jt_CharacterID t, jt_ServerID t, jt_ServerAddr t]"
    and "0 \<le> now" and "jt_ExpiresAt t < 2 ^ 63"
    and "list_all (key_segment maxIDBytes) [jt_Token t, jt_UserID t, jt_CharacterID t, jt_ServerID t]"
    and "ServerAddress (jt_ServerAddr t) = Inr a"
    and "0 \<le> d" and "d < px_ms rc (Until now (jt_ExpiresAt t))"
    and "ConsumeJoinToken js (Some st) (jt_Token t) (pass d s1) = (r, s2)"
  shows "r = Inr t \<or> (\<exists>e. r = Inl e \<and> errors_is e ErrUnavailable)"
  by (rule created_token_consumed [OF assms])

section \<open>Witnesses\<close>

definition w_token :: JoinToken where
  "w_token = \<lparr>jt_Token = ''t1'', jt_UserID = ''u1'', jt_CharacterID = ''c1'', jt_ServerID = ''s1'',
     jt_ServerAddr = ''127.0.0.1:7777'', jt_ExpiresAt = 30 * Second\<rparr>"

definition w_created :: mem where
  "w_created = snd (CreateJoinToken mem_token_json (Some mem_token_store) 0 w_token mem_empty)"

definition w_consume :: "mem \<Rightarrow> JoinToken result \<times> mem" where
  "w_consume s = ConsumeJoinToken mem_token_json (Some mem_token_store) ''t1'' s"

lemma w_token_created:
  "CreateJoinToken mem_token_json (Some mem_token_store) 0 w_token mem_empty = (Inr (), w_created)"
proof -
  have "fst (CreateJoinToken mem_token_json (Some mem_token_store) 0 w_token mem_empty) = Inr ()"
    by code_simp
  then show ?thesis by (simp add: w_created_def prod_eq_iff)
qed

lemma w_token_client: "jts_client mem_token_store = Some mem_redis"
  by (simp add: mem_token_store_def NewJoinTokenStore_def)

lemma w_token_wf: "wf_keys (jts_keys mem_token_store) (mem_view w_created)"
  by (rule mem_tokens.tokens.wf_create [OF _ w_token_created])
     (simp add: mem_view_def mem_empty_def wf_keys_def set_key_def str_key_def)

lemma w_consume_eq: "fst (w_consume s) = r \<Longrightarrow>
  ConsumeJoinToken mem_token_json (Some mem_token_store) ''t1'' s = (r, snd (w_consume s))"
  by (simp add: w_consume_def prod_eq_iff)

lemma w_consumed: "fst (w_consume w_created) = Inr w_token"
  by code_simp

theorem join_token_single_use_witness:
  "fst (w_consume w_created) = Inr w_token \<and>
   (let r = fst (w_consume (mem_pass 5 (snd (w_consume w_created)))) in
    r = Inl (Sentinel ErrUnauthenticated) \<or> (\<exists>e. r = Inl e \<and> errors_is e ErrUnavailable))"
proof -
  have "TrimSpace ''t1'' = TrimSpace ''t1''" by simp
  from join_token_single_use [OF mem_clocked.redis_clock_axioms w_token_client w_token_wf
      w_consume_eq [OF w_consumed] _ w_consume_eq [OF refl] this, of 5]
  show ?thesis using w_consumed by (simp add: Let_def)
qed

theorem join_token_roundtrip_witness:
  "fst (w_consume (mem_pass 29999 w_created)) = Inr w_token \<or>
   (\<exists>e. fst (w_consume (mem_pass 29999 w_created)) = Inl e \<and> errors_is e ErrUnavailable)"
proof -
  have fields: "jt_Token w_token = ''t1''" "jt_ExpiresAt w_token = 30 * Second" by (simp_all add: w_token_def)
  have "list_all is_ascii [jt_UserID w_token, jt_CharacterID w_token, jt_ServerID w_token, jt_ServerAddr w_token]"
    and "list_all (key_segment maxIDBytes) [jt_Token w_token, jt_UserID w_token, jt_CharacterID w_token, jt_ServerID w_token]"
    and "ServerAddress (jt_ServerAddr w_token) = Inr ''127.0.0.1:7777''"
    and "29999 < px_ms mem_redis (Until 0 (jt_ExpiresAt w_token))"
    and "jt_ExpiresAt w_token < 2 ^ 63"
    by code_simp+
  note w = this
  have c: "ConsumeJoinToken mem_token_json (Some mem_token_store) (jt_Token w_token) (mem_pass 29999 w_created) =
    (fst (w_consume (mem_pass 29999 w_created)), snd (w_consume (mem_pass 29999 w_created)))"
    by (simp add: fields w_consume_def)
  show ?thesis
    by (rule join_token_roundtrip [OF mem_clocked.redis_clock_axioms mem_token_json_roundtrip
        w_token_client w_token_created w(1) _ w(5) w(2,3) _ w(4) c]) simp_all
qed

end
