(* ===== verification/Game_Servers.thy ===== *)
theory Game_Servers
  imports Keyspace Go_Json "HOL-Library.List_Lexorder" "HOL-Library.Char_ord"
begin

text \<open>
  The game server registry, \<open>internal/store/redis/game_servers.go\<close>: one expiring key
  per server and an index set of server IDs. Byte strings are ordered bytewise, as Go
  orders them. The abstract registry is \<open>server_at\<close>: what the live key of a server
  decodes to.
\<close>

section \<open>Definitions\<close>

record gameServerPayload =
  gp_ID :: string
  gp_Addr :: string
  gp_ExpiresAt :: time

record 's GameServerStore =
  gss_client :: "'s redis option"
  gss_keys :: KeyBuilder
  gss_serverTTL :: duration

definition NewGameServerStore ::
  "'s redis option \<Rightarrow> KeyBuilder \<Rightarrow> duration \<Rightarrow> 's GameServerStore result" where
  "NewGameServerStore client keys serverTTL =
     (if client = None then Inl (Wrap ''redis client is required'' [Sentinel ErrInvalidArgument])
      else if serverTTL \<le> 0 then Inl (Wrap ''server TTL must be > 0'' [Sentinel ErrInvalidArgument])
      else Inr \<lparr>gss_client = client, gss_keys = keys, gss_serverTTL = serverTTL\<rparr>)"

definition RegisterGameServer ::
  "gameServerPayload json \<Rightarrow> 's GameServerStore option \<Rightarrow> time \<Rightarrow> GameServer \<Rightarrow> 's \<Rightarrow> unit result \<times> 's" where
  "RegisterGameServer js store now server s =
     with_client store gss_client s (\<lambda>st rc.
       bindP (mapErr (redisKeyError ''build server key'') (key_Server (gss_keys st) (gs_ID server))) s (\<lambda>serverKey.
       bindP (mapErr (redisKeyError ''build servers index key'') (ServersIndex (gss_keys st))) s (\<lambda>indexKey.
       let ttl = Until now (gs_ExpiresAt server) in
       if gs_ExpiresAt server = zero_time then
         (Inl (Wrap ''game server expiry is required'' [Sentinel ErrInvalidArgument]), s)
       else if ttl \<le> 0 then
         (Inl (Wrap ''game server already expired'' [Sentinel ErrInvalidArgument]), s)
       else
         let payload = \<lparr>gp_ID = gs_ID server, gp_Addr = gs_Addr server, gp_ExpiresAt = gs_ExpiresAt server\<rparr> in
         bindP (mapErr (\<lambda>e. redisInternal ''marshal game server'' (Some e)) (marshal js payload)) s (\<lambda>data.
         bindS (mapErrS (\<lambda>e. redisUnavailable ''register game server'' (Some e)) (c_Set rc serverKey data ttl s)) (\<lambda>_ s1.
         bindS (mapErrS (\<lambda>e. redisUnavailable ''index game server'' (Some e)) (c_SAdd rc indexKey (gs_ID server) s1)) (\<lambda>_ s2.
         bindS (mapErrS (\<lambda>e. redisUnavailable ''expire game server index'' (Some e))
           (c_Expire rc indexKey (gss_serverTTL st) s2)) (\<lambda>_ s3.
         (Inr (), s3))))))))"

definition DeregisterGameServer ::
  "'s GameServerStore option \<Rightarrow> string \<Rightarrow> 's \<Rightarrow> unit result \<times> 's" where
  "DeregisterGameServer store serverID s =
     with_client store gss_client s (\<lambda>st rc.
       bindP (RequiredID ''server ID'' serverID) s (\<lambda>sid.
       bindP (mapErr (redisKeyError ''build server key'') (key_Server (gss_keys st) sid)) s (\<lambda>serverKey.
       bindS (mapErrS (\<lambda>e. redisUnavailable ''deregister game server'' (Some e)) (c_Del rc serverKey s)) (\<lambda>_ s1.
       (Inr (), s1)))))"

text \<open>The decoding and checking that follows a successful \<open>GET\<close>.\<close>

definition gameServerOf :: "gameServerPayload json \<Rightarrow> string \<Rightarrow> GameServer result" where
  "gameServerOf js raw =
     bindE (mapErr (\<lambda>e. redisUnavailable ''decode game server'' (Some e)) (unmarshal js raw)) (\<lambda>payload.
     bindE (mapErr (\<lambda>_. Sentinel ErrNotFound) (RequiredID ''server ID'' (gp_ID payload))) (\<lambda>_.
     bindE (mapErr (\<lambda>_. Sentinel ErrNotFound) (ServerAddress (gp_Addr payload))) (\<lambda>_.
     Inr \<lparr>gs_ID = gp_ID payload, gs_Addr = gp_Addr payload, gs_ExpiresAt = gp_ExpiresAt payload\<rparr>)))"

definition getServerError :: "gerr \<Rightarrow> gerr" where
  "getServerError e = (if errors_is e RedisNil then Sentinel ErrNotFound
     else redisUnavailable ''get game server'' (Some e))"

definition getGameServer ::
  "gameServerPayload json \<Rightarrow> 's GameServerStore \<Rightarrow> 's redis \<Rightarrow> string \<Rightarrow> 's \<Rightarrow> GameServer result \<times> 's" where
  "getGameServer js st rc serverID s =
     bindP (mapErr (redisKeyError ''build server key'') (key_Server (gss_keys st) serverID)) s (\<lambda>serverKey.
     bindS (mapErrS getServerError (c_Get rc serverKey s)) (\<lambda>raw s1.
     (gameServerOf js raw, s1)))"

text \<open>The loop over the index: malformed and missing servers are skipped, other errors end it.\<close>

fun listServers ::
  "gameServerPayload json \<Rightarrow> 's GameServerStore \<Rightarrow> 's redis \<Rightarrow> string list \<Rightarrow> GameServer list \<Rightarrow> 's
     \<Rightarrow> GameServer list result \<times> 's" where
  "listServers js st rc [] servers s = (Inr servers, s)"
| "listServers js st rc (serverID # rest) servers s =
     (case RequiredID ''server ID'' serverID of
        Inl e \<Rightarrow> listServers js st rc rest servers s
      | Inr sid \<Rightarrow>
          (case getGameServer js st rc sid s of
             (Inl e, s1) \<Rightarrow> if errors_is e ErrNotFound then listServers js st rc rest servers s1 else (Inl e, s1)
           | (Inr server, s1) \<Rightarrow> listServers js st rc rest (servers @ [server]) s1))"

definition ListGameServers ::
  "gameServerPayload json \<Rightarrow> 's GameServerStore option \<Rightarrow> 's \<Rightarrow> GameServer list result \<times> 's" where
  "ListGameServers js store s =
     with_client store gss_client s (\<lambda>st rc.
       bindP (mapErr (redisKeyError ''build servers index key'') (ServersIndex (gss_keys st))) s (\<lambda>indexKey.
       bindS (mapErrS (\<lambda>e. redisUnavailable ''list game server IDs'' (Some e)) (c_SMembers rc indexKey s)) (\<lambda>serverIDs s1.
       bindS (listServers js st rc serverIDs [] s1) (\<lambda>servers s2.
       (Inr (sort_key gs_ID servers), s2)))))"

definition GetGameServerByID ::
  "gameServerPayload json \<Rightarrow> 's GameServerStore option \<Rightarrow> string \<Rightarrow> 's \<Rightarrow> GameServer result \<times> 's" where
  "GetGameServerByID js store serverID s =
     with_client store gss_client s (\<lambda>st rc.
       bindP (RequiredID ''server ID'' serverID) s (\<lambda>sid.
       getGameServer js st rc sid s))"

text \<open>What the live key of a server decodes to, and the IDs the live index lists.\<close>

definition server_at :: "gameServerPayload json \<Rightarrow> KeyBuilder \<Rightarrow> kv \<Rightarrow> string \<Rightarrow> GameServer result" where
  "server_at js k m sid =
     (case key_Server k sid of Inl e \<Rightarrow> Inl (Sentinel ErrNotFound)
      | Inr key \<Rightarrow> (case m key of Some (RStr raw, t) \<Rightarrow> gameServerOf js raw | _ \<Rightarrow> Inl (Sentinel ErrNotFound)))"

definition indexed_servers :: "KeyBuilder \<Rightarrow> kv \<Rightarrow> string set" where
  "indexed_servers k m =
     (case ServersIndex k of Inl e \<Rightarrow> {}
      | Inr key \<Rightarrow> set_members (m key))"

section \<open>Lemmas\<close>

lemma server_key_inject:
  "key_Server k sid = Inr key \<Longrightarrow> key_Server k sid' = Inr key \<longleftrightarrow> sid' = sid"
  unfolding key_Server_def
  using build_inject [of k "[''server'', sid]" key "[''server'', sid']"] by auto

lemma server_index_keys: "key_Server k sid = Inr key \<Longrightarrow> ServersIndex k \<noteq> Inr key"
  unfolding key_Server_def ServersIndex_def
  using build_inject [of k "[''server'', sid]" key "[''servers'']"] by auto

lemma server_key_str: "wf_keys k m \<Longrightarrow> key_Server k sid = Inr key \<Longrightarrow> str_key m key"
  unfolding key_Server_def by (rule wf_keys_str) auto

lemma servers_key_set: "wf_keys k m \<Longrightarrow> ServersIndex k = Inr key \<Longrightarrow> set_key m key"
  unfolding ServersIndex_def by (rule wf_keys_set) auto

lemma wf_server_upd:
  "wf_keys k m \<Longrightarrow> key_Server k sid = Inr key \<Longrightarrow> wf_keys k (m(key \<mapsto> (RStr v, t)))"
  unfolding key_Server_def by (auto intro: wf_keys_str_upd)

lemma wf_servers_upd:
  "wf_keys k m \<Longrightarrow> ServersIndex k = Inr key \<Longrightarrow> wf_keys k (m(key \<mapsto> (RSet A, t)))"
  unfolding ServersIndex_def by (auto intro: wf_keys_set_upd)

lemma server_at_key:
  "key_Server k sid = Inr key \<Longrightarrow> m key = Some (RStr raw, t) \<Longrightarrow> server_at js k m sid = gameServerOf js raw"
  "key_Server k sid = Inr key \<Longrightarrow> m key = None \<Longrightarrow> server_at js k m sid = Inl (Sentinel ErrNotFound)"
  by (simp_all add: server_at_def)

lemma server_at_upd:
  "server_at js k (m(key := e)) sid =
     (if key_Server k sid = Inr key
      then (case e of Some (RStr raw, t) \<Rightarrow> gameServerOf js raw | _ \<Rightarrow> Inl (Sentinel ErrNotFound))
      else server_at js k m sid)"
  by (simp add: server_at_def split: sum.splits)

lemma gameServerOf_Inr:
  "gameServerOf js raw = Inr g \<longleftrightarrow>
     (\<exists>p. unmarshal js raw = Inr p \<and> key_segment maxIDBytes (TrimSpace (gp_ID p)) \<and>
        (\<exists>a. ServerAddress (gp_Addr p) = Inr a) \<and>
        g = \<lparr>gs_ID = gp_ID p, gs_Addr = gp_Addr p, gs_ExpiresAt = gp_ExpiresAt p\<rparr>)"
  by (auto simp: gameServerOf_def bind_eq_Inr ids_Inr)

text \<open>The entry that listing an index member contributes.\<close>

definition visible :: "gameServerPayload json \<Rightarrow> KeyBuilder \<Rightarrow> kv \<Rightarrow> string \<Rightarrow> GameServer option" where
  "visible js k m sid =
     (if key_segment maxIDBytes (TrimSpace sid)
      then (case server_at js k m (TrimSpace sid) of Inl e \<Rightarrow> None | Inr g \<Rightarrow> Some g) else None)"

lemma visible_Some:
  "visible js k m sid = Some g \<longleftrightarrow>
     key_segment maxIDBytes (TrimSpace sid) \<and> server_at js k m (TrimSpace sid) = Inr g"
  by (auto simp: visible_def split: sum.splits)

context redis_server
begin

lemma get_server_result:
  assumes "getGameServer js st rc sid s = (r, s')" and "key_Server (gss_keys st) sid = Inr key"
    and "wf_keys (gss_keys st) (view s)"
  shows "view s' = view s \<and>
    (r = server_at js (gss_keys st) (view s) sid \<or>
     (\<exists>e. r = Inl e \<and> errors_is e ErrUnavailable \<and> \<not> errors_is e ErrNotFound))"
proof -
  obtain q t where q: "c_Get rc key s = (q, t)" by force
  have s': "s' = t" and r: "r = bindE (mapErr getServerError q) (gameServerOf js)"
    using assms(1,2) q by (cases q; auto simp: getGameServer_def)+
  have sk: "str_key (view s) key" by (rule server_key_str [OF assms(3,2)])
  have v: "view s' = view s" using c_Get_view [OF q] s' by simp
  show ?thesis
  proof (cases q)
    case (Inl e)
    note q' = q [unfolded Inl]
    show ?thesis
    proof (cases "errors_is e RedisNil")
      case True
      with c_Get_nil [OF q' _ sk] have "view s key = None" by simp
      with True r Inl v assms(2) show ?thesis by (simp add: getServerError_def server_at_key)
    next
      case False
      have "\<not> errors_is e ErrNotFound"
      proof
        assume n: "errors_is e ErrNotFound"
        with run_with_Inl [OF q' [unfolded client_defs]]
        have "decode_str (fst (rcall rc (GET key) s)) = Inl e" by blast
        with n show False by (auto simp: decode_str_def split: reply.splits)
      qed
      with False r Inl v show ?thesis by (simp add: getServerError_def redisUnavailable_def)
    qed
  next
    case (Inr raw)
    from c_Get_Inr [OF q [unfolded Inr] sk] obtain tm where "view s key = Some (RStr raw, tm)" ..
    with r Inr v assms(2) show ?thesis by (simp add: server_at_key)
  qed
qed

lemma listServers_result:
  assumes "listServers js st rc ids acc s = (Inr gs, s')" and "kb_prefix (gss_keys st) \<noteq> []"
    and "wf_keys (gss_keys st) (view s)"
  shows "view s' = view s \<and> gs = acc @ List.map_filter (visible js (gss_keys st) (view s)) ids"
  using assms
proof (induction ids arbitrary: acc s)
  case Nil
  then show ?case by (simp add: map_filter_simps)
next
  case (Cons x ids)
  show ?case
  proof (cases "RequiredID ''server ID'' x")
    case (Inl e)
    then have "\<not> key_segment maxIDBytes (TrimSpace x)" by (auto simp: ids_required)
    then have "visible js (gss_keys st) (view s) x = None" by (simp add: visible_def)
    with Inl Cons.prems Cons.IH show ?thesis by (simp add: map_filter_simps)
  next
    case (Inr sid)
    then have sid: "sid = TrimSpace x" "key_segment maxIDBytes sid" by (auto simp: ids_Inr)
    then have "seg_ok sid" by (auto intro: key_segment_seg_ok)
    then obtain key where key: "key_Server (gss_keys st) sid = Inr key"
      using Cons.prems(2) by (auto simp: key_Server_def build_Inr)
    obtain g s1 where g: "getGameServer js st rc sid s = (g, s1)" by force
    note gr = get_server_result [OF g key Cons.prems(3)]
    show ?thesis
    proof (cases g)
      case ge: (Inl e)
      with Inr g Cons.prems(1) have nf: "errors_is e ErrNotFound"
        and rest: "listServers js st rc ids acc s1 = (Inr gs, s')" by (auto split: if_splits)
      from gr ge nf have "server_at js (gss_keys st) (view s) sid = Inl e" by auto
      with sid have "visible js (gss_keys st) (view s) x = None" by (simp add: visible_def)
      with Cons.IH [OF rest Cons.prems(2)] gr Cons.prems(3) show ?thesis by (simp add: map_filter_simps)
    next
      case gi: (Inr srv)
      with Inr g Cons.prems(1) have rest: "listServers js st rc ids (acc @ [srv]) s1 = (Inr gs, s')" by simp
      from gr gi have "server_at js (gss_keys st) (view s) sid = Inr srv" by auto
      with sid have "visible js (gss_keys st) (view s) x = Some srv" by (simp add: visible_Some)
      with Cons.IH [OF rest Cons.prems(2)] gr Cons.prems(3) show ?thesis by (simp add: map_filter_simps)
    qed
  qed
qed

lemma list_servers_result:
  assumes "ListGameServers js (Some st) s = (Inr gs, s')" and "gss_client st = Some rc"
    and "kb_prefix (gss_keys st) \<noteq> []" and "wf_keys (gss_keys st) (view s)"
  obtains ids where "set ids = indexed_servers (gss_keys st) (view s)" and "distinct ids"
    and "gs = sort_key gs_ID (List.map_filter (visible js (gss_keys st) (view s)) ids)"
    and "view s' = view s"
proof (cases "ServersIndex (gss_keys st)")
  case (Inl e)
  with assms(1,2) show ?thesis by (simp add: ListGameServers_def)
next
  case (Inr key)
  obtain q s1 where q: "c_SMembers rc key s = (q, s1)" by force
  from assms(1,2) Inr q obtain ids where ids: "q = Inr ids" by (cases q) (auto simp: ListGameServers_def)
  with assms(1,2) Inr q obtain ss where l: "listServers js st rc ids [] s1 = (Inr ss, s')"
    and gs: "gs = sort_key gs_ID ss"
    by (auto simp: ListGameServers_def bind_eq_Inr)
  have v1: "view s1 = view s" by (rule c_SMembers_view [OF q])
  have sk: "set_key (view s) key" by (rule servers_key_set [OF assms(4) Inr])
  have "set ids = indexed_servers (gss_keys st) (view s)" "distinct ids"
    using c_SMembers_Inr [OF q [unfolded ids] sk] by (simp_all add: indexed_servers_def Inr)
  moreover from listServers_result [OF l assms(3)] v1 assms(4)
  have "view s' = view s" "ss = List.map_filter (visible js (gss_keys st) (view s)) ids" by simp_all
  ultimately show ?thesis using that gs by blast
qed

lemma get_by_id_valid:
  "key_segment maxIDBytes sid \<Longrightarrow> gss_client st = Some rc \<Longrightarrow>
     GetGameServerByID js (Some st) sid s = getGameServer js st rc sid s"
  by (simp add: GetGameServerByID_def)

lemma get_by_id_result:
  assumes "GetGameServerByID js (Some st) sid s = (r, s')" and "gss_client st = Some rc"
    and "kb_prefix (gss_keys st) \<noteq> []" and "wf_keys (gss_keys st) (view s)"
  shows "view s' = view s \<and>
    (r = server_at js (gss_keys st) (view s) (TrimSpace sid) \<or>
     (\<exists>e. r = Inl e \<and> (errors_is e ErrUnavailable \<and> \<not> errors_is e ErrNotFound \<or> errors_is e ErrInvalidArgument)))"
proof (cases "RequiredID ''server ID'' sid")
  case (Inl e)
  with assms(1,2) ids_Inl(1) [OF Inl, of ErrInvalidArgument] show ?thesis by (auto simp: GetGameServerByID_def)
next
  case (Inr x)
  then have x: "x = TrimSpace sid" "seg_ok x" by (auto simp: ids_Inr intro: key_segment_seg_ok)
  then obtain key where key: "key_Server (gss_keys st) x = Inr key"
    using assms(3) by (auto simp: key_Server_def build_Inr)
  have "getGameServer js st rc x s = (r, s')" using assms(1,2) Inr by (simp add: GetGameServerByID_def)
  from get_server_result [OF this key assms(4)] x show ?thesis by auto
qed

text \<open>A registration that reports success wrote the server key, then the index, then its expiry.\<close>

lemma register_result:
  assumes "RegisterGameServer js (Some st) now g s = (Inr u, s')" and "gss_client st = Some rc"
    and "0 < gss_serverTTL st" and "wf_keys (gss_keys st) (view s)"
  obtains key ikey data where "key_Server (gss_keys st) (gs_ID g) = Inr key" and "ServersIndex (gss_keys st) = Inr ikey"
    and "marshal js \<lparr>gp_ID = gs_ID g, gp_Addr = gs_Addr g, gp_ExpiresAt = gs_ExpiresAt g\<rparr> = Inr data"
    and "now < gs_ExpiresAt g"
    and "view s' = (view s)(key \<mapsto> (RStr data, Some (px_ms rc (Until now (gs_ExpiresAt g)))),
       ikey \<mapsto> (RSet (insert (gs_ID g) (set_members (view s ikey))), Some (ex_ms rc (gss_serverTTL st))))"
proof -
  let ?p = "\<lparr>gp_ID = gs_ID g, gp_Addr = gs_Addr g, gp_ExpiresAt = gs_ExpiresAt g\<rparr>"
  let ?ttl = "Until now (gs_ExpiresAt g)"
  from assms(1,2) obtain key ikey data s1 s2 a b c where
    key: "key_Server (gss_keys st) (gs_ID g) = Inr key" and ikey: "ServersIndex (gss_keys st) = Inr ikey"
    and data: "marshal js ?p = Inr data" and ttl: "0 < ?ttl"
    and c1: "c_Set rc key data ?ttl s = (Inr a, s1)" and c2: "c_SAdd rc ikey (gs_ID g) s1 = (Inr b, s2)"
    and c3: "c_Expire rc ikey (gss_serverTTL st) s2 = (Inr c, s')"
    by (auto simp: RegisterGameServer_def Let_def bind_eq_Inr not_le split: if_splits)
  have ne: "ikey \<noteq> key" using server_index_keys [OF key] ikey by auto
  have v1: "view s1 = (view s)(key \<mapsto> (RStr data, Some (px_ms rc ?ttl)))" by (rule c_Set_Inr [OF c1 ttl])
  have "set_key (view s) ikey" by (rule servers_key_set [OF assms(4) ikey])
  with v1 ne have sk: "set_key (view s1) ikey" by (simp add: set_key_def)
  obtain t where v2: "view s2 = (view s1)(ikey \<mapsto> (RSet (insert (gs_ID g) (set_members (view s ikey))), t))"
    using c_SAdd_Inr [OF c2 sk] v1 ne by simp
  then have "view s2 ikey = Some (RSet (insert (gs_ID g) (set_members (view s ikey))), t)" by simp
  from c_Expire_Inr [OF c3 assms(3) this] v2 v1
  have "view s' = (view s)(key \<mapsto> (RStr data, Some (px_ms rc ?ttl)),
       ikey \<mapsto> (RSet (insert (gs_ID g) (set_members (view s ikey))), Some (ex_ms rc (gss_serverTTL st))))" by simp
  with that [OF key ikey data] ttl show ?thesis by simp
qed

lemma deregister_view:
  assumes "DeregisterGameServer (Some st) sid s = (r, s')" and "gss_client st = Some rc"
  shows "(\<exists>e. r = Inl e) \<and> view s' = view s \<or>
    (\<exists>key. key_Server (gss_keys st) (TrimSpace sid) = Inr key \<and> view s' = (view s)(key := None))"
proof (cases "\<exists>x key. RequiredID ''server ID'' sid = Inr x \<and> key_Server (gss_keys st) x = Inr key")
  case True
  then obtain x key where x: "RequiredID ''server ID'' sid = Inr x" "key_Server (gss_keys st) x = Inr key" by blast
  then have x': "x = TrimSpace sid" by (simp add: ids_Inr)
  obtain q t where q: "c_Del rc key s = (q, t)" by force
  have "s' = t" "r = bindE (mapErr (\<lambda>e. redisUnavailable ''deregister game server'' (Some e)) q) (\<lambda>_. Inr ())"
    using assms x q by (cases q; auto simp: DeregisterGameServer_def)+
  then show ?thesis
    using c_Del_view [OF q] c_Del_Inr [of key s _ t] q x x' by (cases q) auto
next
  case False
  with assms have "(\<exists>e. r = Inl e) \<and> s' = s"
    by (auto simp: DeregisterGameServer_def with_client_def bindP_def split: sum.splits)
  then show ?thesis by simp
qed

lemma deregister_within:
  assumes "DeregisterGameServer (Some st) sid s = (r, s')" and "gss_client st = Some rc" and "wf_keys (gss_keys st) (view s)"
  shows "keeps_to {''server''} (gss_keys st) (view s) (view s')"
  using deregister_view [OF assms(1,2)] keeps_to_refl [OF assms(3)] keeps_to_del [OF assms(3)]
  unfolding key_Server_def by fastforce

lemma get_server_view: "getGameServer js st rc sid s = (r, s') \<Longrightarrow> view s' = view s"
  by (cases "key_Server (gss_keys st) sid"; cases "c_Get rc (projr (key_Server (gss_keys st) sid)) s"; cases "fst (c_Get rc (projr (key_Server (gss_keys st) sid)) s)")
     (auto simp: getGameServer_def dest: c_Get_view)

lemma listServers_view: "listServers js st rc ids acc s = (r, s') \<Longrightarrow> view s' = view s"
proof (induction ids arbitrary: acc s)
  case (Cons x ids)
  obtain q s1 where q: "getGameServer js st rc (projr (RequiredID ''server ID'' x)) s = (q, s1)" by force
  from Cons.prems q Cons.IH get_server_view [OF q] show ?case
    by (cases "RequiredID ''server ID'' x"; cases q) (fastforce split: if_splits)+
qed simp

lemma servers_read_view:
  assumes "gss_client st = Some rc"
  shows "ListGameServers js (Some st) s = (l, s') \<Longrightarrow> view s' = view s"
    and "GetGameServerByID js (Some st) sid s = (g, s') \<Longrightarrow> view s' = view s"
proof -
  assume l: "ListGameServers js (Some st) s = (l, s')"
  show "view s' = view s"
  proof (cases "ServersIndex (gss_keys st)")
    case (Inr key)
    obtain q s1 where q: "c_SMembers rc key s = (q, s1)" by force
    obtain w s2 where w: "listServers js st rc (projr q) [] s1 = (w, s2)" by force
    from l assms Inr q w have "s' = s1 \<or> s' = s2" by (cases q; cases w) (auto simp: ListGameServers_def)
    with c_SMembers_view [OF q] listServers_view [OF w] show ?thesis by auto
  qed (use l assms in \<open>simp add: ListGameServers_def\<close>)
next
  assume "GetGameServerByID js (Some st) sid s = (g, s')"
  then show "view s' = view s"
    using assms get_server_view by (cases "RequiredID ''server ID'' sid") (auto simp: GetGameServerByID_def)
qed

text \<open>
  What a registration has written when it returns, whatever it reports: nothing, the server
  key, also the ID in the index, or also the expiry of the index.
\<close>

lemma register_cases:
  assumes "RegisterGameServer js (Some st) now g s = (r, s')" and "gss_client st = Some rc"
    and "0 < gss_serverTTL st" and "wf_keys (gss_keys st) (view s)"
  obtains (Nothing) "view s' = view s"
  | (Written) key ikey data m1 A t where "key_Server (gss_keys st) (gs_ID g) = Inr key"
      and "ServersIndex (gss_keys st) = Inr ikey"
      and "marshal js \<lparr>gp_ID = gs_ID g, gp_Addr = gs_Addr g, gp_ExpiresAt = gs_ExpiresAt g\<rparr> = Inr data"
      and "now < gs_ExpiresAt g"
      and "m1 = (view s)(key \<mapsto> (RStr data, Some (px_ms rc (Until now (gs_ExpiresAt g)))))"
      and "A = insert (gs_ID g) (set_members (view s ikey))"
      and "t = Some (ex_ms rc (gss_serverTTL st)) \<or> t = (case view s ikey of Some (y, t) \<Rightarrow> t | None \<Rightarrow> None)"
      and "view s' = m1 \<or> view s' = m1(ikey \<mapsto> (RSet A, t))"
proof (cases "\<exists>key ikey data. key_Server (gss_keys st) (gs_ID g) = Inr key \<and> ServersIndex (gss_keys st) = Inr ikey \<and>
    marshal js \<lparr>gp_ID = gs_ID g, gp_Addr = gs_Addr g, gp_ExpiresAt = gs_ExpiresAt g\<rparr> = Inr data \<and>
    gs_ExpiresAt g \<noteq> zero_time \<and> 0 < Until now (gs_ExpiresAt g)")
  case False
  with assms(1,2) have "s' = s"
    by (auto simp: RegisterGameServer_def Let_def bindP_def not_le split: sum.splits if_splits)
  then show ?thesis by (simp add: Nothing)
next
  case True
  then obtain key ikey data where key: "key_Server (gss_keys st) (gs_ID g) = Inr key" and ikey: "ServersIndex (gss_keys st) = Inr ikey"
    and data: "marshal js \<lparr>gp_ID = gs_ID g, gp_Addr = gs_Addr g, gp_ExpiresAt = gs_ExpiresAt g\<rparr> = Inr data"
    and nz: "gs_ExpiresAt g \<noteq> zero_time" and ttl: "0 < Until now (gs_ExpiresAt g)" by blast
  let ?m1 = "(view s)(key \<mapsto> (RStr data, Some (px_ms rc (Until now (gs_ExpiresAt g)))))"
  let ?A = "insert (gs_ID g) (set_members (view s ikey))" and ?t = "case view s ikey of Some (y, t) \<Rightarrow> t | None \<Rightarrow> None"
  obtain a s1 where c1: "c_Set rc key data (Until now (gs_ExpiresAt g)) s = (a, s1)" by force
  obtain b s2 where c2: "c_SAdd rc ikey (gs_ID g) s1 = (b, s2)" by force
  obtain c s3 where c3: "c_Expire rc ikey (gss_serverTTL st) s2 = (c, s3)" by force
  have ne: "ikey \<noteq> key" using server_index_keys [OF key] ikey by auto
  have sk: "set_key (view s) ikey" by (rule servers_key_set [OF assms(4) ikey])
  have ends: "isl a \<and> s' = s1 \<or> (\<exists>x. a = Inr x) \<and> isl b \<and> s' = s2 \<or> (\<exists>x y. a = Inr x \<and> b = Inr y) \<and> s' = s3"
    using assms(1,2) key ikey data nz ttl c1 c2 c3
    by (cases a; cases b; cases c) (auto simp: RegisterGameServer_def Let_def)
  have v1: "view s1 = view s \<or> view s1 = ?m1" by (rule c_Set_view [OF c1 ttl])
  have v1': "view s1 = ?m1" if "a = Inr x" for x using c_Set_Inr [OF c1 [unfolded that] ttl] .
  have v2: "view s2 = ?m1 \<or> view s2 = ?m1(ikey \<mapsto> (RSet ?A, ?t))" if "a = Inr x" for x
    using c_SAdd_view [OF c2] v1' [OF that] sk ne by (simp add: set_key_def)
  have v2': "view s2 = ?m1(ikey \<mapsto> (RSet ?A, ?t))" if "a = Inr x" and "b = Inr y" for x y
    using c_SAdd_Inr [OF c2 [unfolded that(2)]] v1' [OF that(1)] sk ne by (simp add: set_key_def)
  have v3: "view s3 = ?m1(ikey \<mapsto> (RSet ?A, ?t)) \<or> view s3 = ?m1(ikey \<mapsto> (RSet ?A, Some (ex_ms rc (gss_serverTTL st))))"
    if "a = Inr x" and "b = Inr y" for x y
    using c_Expire_view [OF c3 assms(3)] v2' [OF that] by auto
  from ttl have e: "now < gs_ExpiresAt g" by simp
  note w = Written [OF key ikey data e refl refl]
  from ends v1 v2 v3 Nothing w [OF disjI1 [OF refl]] w [OF disjI2 [OF refl]] show ?thesis by metis
qed

text \<open>A registration, whatever it reports, writes to the server key and the index only.\<close>

lemma register_within:
  assumes "RegisterGameServer js (Some st) now g s = (r, s')" and "gss_client st = Some rc"
    and "0 < gss_serverTTL st" and "wf_keys (gss_keys st) (view s)"
  shows "keeps_to {''server'', ''servers''} (gss_keys st) (view s) (view s')"
  using assms
proof (cases rule: register_cases)
  case Nothing
  with assms(4) show ?thesis by (simp add: keeps_to_refl)
next
  case (Written key ikey data m1 A t)
  have w1: "keeps_to {''server'', ''servers''} (gss_keys st) (view s) m1"
    using keeps_to_str [OF assms(4) Written(1) [unfolded key_Server_def]] by (simp add: Written(5))
  with keeps_to_set [OF keeps_to_wf [OF w1] Written(2) [unfolded ServersIndex_def]] Written(8) show ?thesis
    by (auto intro: keeps_to_trans [OF w1])
qed

lemmas wf_register = keeps_to_wf [OF register_within]

end

section \<open>The registry contract\<close>

text \<open>What the game service relies on: listing and lookup read the same registry.\<close>

locale server_registry =
  fixes list_servers :: "'s \<Rightarrow> GameServer list result \<times> 's"
    and get_server :: "string \<Rightarrow> 's \<Rightarrow> GameServer result \<times> 's"
    and at :: "'s \<Rightarrow> string \<Rightarrow> GameServer result"
    and listed :: "'s \<Rightarrow> string set"
    and wf :: "'s \<Rightarrow> bool"
  assumes list_ok: "wf s \<Longrightarrow> list_servers s = (Inr gs, s') \<Longrightarrow>
        sorted (map gs_ID gs) \<and>
        set gs = {g. \<exists>sid \<in> listed s. key_segment maxIDBytes (TrimSpace sid) \<and> at s (TrimSpace sid) = Inr g}"
    and get_ok: "wf s \<Longrightarrow> get_server sid s = (Inr g, s') \<Longrightarrow> at s (TrimSpace sid) = Inr g"
begin

text \<open>The head of a listing is a registered server with the least ID.\<close>

lemma list_head:
  assumes "wf s" and "list_servers s = (Inr (g # gs), s')"
  shows "\<exists>sid \<in> listed s. at s (TrimSpace sid) = Inr g" and "\<forall>h \<in> set gs. gs_ID g \<le> gs_ID h"
  using list_ok [OF assms] by auto

end

locale server_store = redis_server +
  fixes js :: "gameServerPayload json" and st :: "'a GameServerStore"
  assumes st_client: "gss_client st = Some rc"
    and st_prefix: "kb_prefix (gss_keys st) \<noteq> []"
    and st_ttl: "0 < gss_serverTTL st"
begin

lemma list_content:
  assumes "wf_keys (gss_keys st) (view s)" and "ListGameServers js (Some st) s = (Inr gs, s')"
  shows "sorted (map gs_ID gs) \<and>
    set gs = {g. \<exists>sid \<in> indexed_servers (gss_keys st) (view s). key_segment maxIDBytes (TrimSpace sid) \<and>
      server_at js (gss_keys st) (view s) (TrimSpace sid) = Inr g}"
proof -
  obtain ids where ids: "set ids = indexed_servers (gss_keys st) (view s)"
    and gs: "gs = sort_key gs_ID (List.map_filter (visible js (gss_keys st) (view s)) ids)"
    by (rule list_servers_result [OF assms(2) st_client st_prefix assms(1)])
  show ?thesis using ids by (auto simp: gs set_map_filter visible_Some)
qed

sublocale registry: server_registry "ListGameServers js (Some st)" "GetGameServerByID js (Some st)"
  "\<lambda>s. server_at js (gss_keys st) (view s)" "\<lambda>s. indexed_servers (gss_keys st) (view s)"
  "\<lambda>s. wf_keys (gss_keys st) (view s)"
proof (unfold_locales, goal_cases)
  case (1 s gs s')
  then show ?case by (rule list_content)
next
  case (2 s sid g s')
  from get_by_id_result [OF 2(2) st_client st_prefix 2(1)] show ?case by auto
qed

end

text \<open>The store on the in-memory server, with the codec of framed fields.\<close>

definition mem_server_json :: "gameServerPayload json" where
  "mem_server_json = \<lparr>
     marshal = (\<lambda>p. Inr (frame [gp_ID p, gp_Addr p, Itoa (gp_ExpiresAt p)])),
     unmarshal = (\<lambda>d. case unframe d of
         [i, a, t] \<Rightarrow> (case Atoi t of Some n \<Rightarrow> Inr \<lparr>gp_ID = i, gp_Addr = a, gp_ExpiresAt = n\<rparr>
           | None \<Rightarrow> Inl (Opaque ''invalid payload''))
       | _ \<Rightarrow> Inl (Opaque ''invalid payload''))\<rparr>"

definition mem_server_store :: "mem GameServerStore" where
  "mem_server_store = \<lparr>gss_client = Some mem_redis, gss_keys = \<lparr>kb_prefix = ''rpg:local''\<rparr>,
     gss_serverTTL = DefaultServerTTL\<rparr>"

interpretation mem_servers: server_store mem_redis mem_view mem_server_json mem_server_store
  by unfold_locales (simp_all add: mem_server_store_def DefaultServerTTL_def Second_def)

definition server_payload_ok :: "gameServerPayload \<Rightarrow> bool" where
  "server_payload_ok p =
     (is_ascii (gp_ID p) \<and> is_ascii (gp_Addr p) \<and> 0 \<le> gp_ExpiresAt p \<and> gp_ExpiresAt p < 2 ^ 63)"

lemma mem_server_json_roundtrip: "json_roundtrip server_payload_ok mem_server_json"
  unfolding json_roundtrip_def
  by (auto simp: mem_server_json_def server_payload_ok_def unframe_frame is_ascii_Itoa Atoi_Itoa)

section \<open>Properties\<close>


text \<open>
  Registration makes a server visible: until its key or the index expires, lookup
  returns the registered record and every listing contains it, unless Redis did not
  answer or another entry is unreadable.
\<close>

theorem registered_visible:
  assumes "redis_clock rc view pass" and "json_roundtrip server_payload_ok js" and "gss_client st = Some rc"
    and "kb_prefix (gss_keys st) \<noteq> []" and "0 < gss_serverTTL st" and "wf_keys (gss_keys st) (view s)"
    and "RegisterGameServer js (Some st) now g s = (Inr u, s1)"
    and "is_ascii (gs_ID g)" and "is_ascii (gs_Addr g)" and "0 \<le> now" and "gs_ExpiresAt g < 2 ^ 63"
    and "key_segment maxIDBytes (gs_ID g)" and "ServerAddress (gs_Addr g) = Inr a"
    and "0 \<le> d" and "d < px_ms rc (Until now (gs_ExpiresAt g))" and "d < ex_ms rc (gss_serverTTL st)"
    and "GetGameServerByID js (Some st) (gs_ID g) (pass d s1) = (r, s2)"
    and "ListGameServers js (Some st) (pass d s1) = (l, s3)"
  shows "(r = Inr g \<or> (\<exists>e. r = Inl e \<and> errors_is e ErrUnavailable)) \<and> (\<forall>gs. l = Inr gs \<longrightarrow> g \<in> set gs)"
proof -
  have ax: "redis_server rc view" using assms(1) by (simp add: redis_clock_def)
  let ?k = "gss_keys st"
  let ?p = "\<lparr>gp_ID = gs_ID g, gp_Addr = gs_Addr g, gp_ExpiresAt = gs_ExpiresAt g\<rparr>"
  obtain key ikey data where key: "key_Server ?k (gs_ID g) = Inr key" and ikey: "ServersIndex ?k = Inr ikey"
    and m: "marshal js ?p = Inr data" and e: "now < gs_ExpiresAt g"
    and v: "view s1 = (view s)(key \<mapsto> (RStr data, Some (px_ms rc (Until now (gs_ExpiresAt g)))),
       ikey \<mapsto> (RSet (insert (gs_ID g) (set_members (view s ikey))), Some (ex_ms rc (gss_serverTTL st))))"
    by (rule redis_server.register_result [OF ax assms(7,3,5,6)])
  have ne: "key \<noteq> ikey" using server_index_keys [OF key] ikey by auto
  have t: "TrimSpace (gs_ID g) = gs_ID g" by (rule key_segment_trim [OF assms(12)])
  have wf1: "wf_keys ?k (view s1)" by (rule redis_server.wf_register [OF ax assms(7,3,5,6)])
  then have wf: "wf_keys ?k (view (pass d s1))" using redis_clock.pass_view [OF assms(1,14)] by (simp add: wf_keys_age)
  have "server_payload_ok ?p" using assms(8-11) e by (simp add: server_payload_ok_def)
  from json_roundtripD [OF assms(2) this m] have "gameServerOf js data = Inr g"
    using assms(12,13) t by (auto simp: gameServerOf_Inr)
  moreover have "view (pass d s1) key = Some (RStr data, Some (px_ms rc (Until now (gs_ExpiresAt g)) - d))"
    by (rule redis_clock.pass_alive [OF assms(1) _ assms(14,15)]) (use v ne in simp)
  ultimately have at: "server_at js ?k (view (pass d s1)) (gs_ID g) = Inr g" using server_at_key(1) [OF key] by simp
  have "view (pass d s1) ikey = Some (RSet (insert (gs_ID g) (set_members (view s ikey))), Some (ex_ms rc (gss_serverTTL st) - d))"
    by (rule redis_clock.pass_alive [OF assms(1) _ assms(14,16)]) (use v in simp)
  then have i: "gs_ID g \<in> indexed_servers ?k (view (pass d s1))" by (simp add: indexed_servers_def ikey)
  have ss: "server_store rc view st" using ax assms(3-5) by (simp add: server_store_def server_store_axioms_def)
  have "g \<in> set gs" if "l = Inr gs" for gs
    using server_store.list_content [OF ss wf assms(18) [unfolded that]] i at t assms(12) by force
  moreover have "r = Inr g \<or> (\<exists>e. r = Inl e \<and> errors_is e ErrUnavailable)"
    using redis_server.get_server_result [OF ax _ key wf, of js r s2] at assms(17)
    by (auto simp: redis_server.get_by_id_valid [OF ax assms(12,3)])
  ultimately show ?thesis by blast
qed

text \<open>
  Deregistration takes effect at once: after it reported success, lookup by ID never
  returns the server, and no listing contains what was registered under that ID.
\<close>

theorem deregistered_gone:
  assumes "redis_server rc view" and "gss_client st = Some rc" and "kb_prefix (gss_keys st) \<noteq> []"
    and "0 < gss_serverTTL st" and "wf_keys (gss_keys st) (view s)"
    and "DeregisterGameServer (Some st) sid s = (Inr v, s1)"
    and "GetGameServerByID js (Some st) sid s1 = (r, s2)"
    and "ListGameServers js (Some st) s1 = (l, s3)"
  shows "(\<exists>e. r = Inl e) \<and>
    (\<forall>gs. l = Inr gs \<longrightarrow> (\<forall>g \<in> set gs. \<exists>i. TrimSpace i \<noteq> TrimSpace sid \<and>
       server_at js (gss_keys st) (view s) (TrimSpace i) = Inr g))"
proof -
  from redis_server.deregister_view [OF assms(1,6,2)] obtain key where
    key: "key_Server (gss_keys st) (TrimSpace sid) = Inr key" and v: "view s1 = (view s)(key := None)" by auto
  have wf: "wf_keys (gss_keys st) (view s1)" unfolding v by (rule wf_keys_del [OF assms(5)])
  have gone: "server_at js (gss_keys st) (view s1) (TrimSpace sid) = Inl (Sentinel ErrNotFound)"
    using server_at_key(2) [OF key] v by simp
  have ss: "server_store rc view st" using assms(1-4) by (simp add: server_store_def server_store_axioms_def)
  have "\<exists>e. r = Inl e"
    using redis_server.get_by_id_result [OF assms(1,7,2,3) wf] gone by (cases r) auto
  moreover have "\<exists>i. TrimSpace i \<noteq> TrimSpace sid \<and> server_at js (gss_keys st) (view s) (TrimSpace i) = Inr g"
    if l: "l = Inr gs" and g: "g \<in> set gs" for gs g
  proof -
    from server_store.list_content [OF ss wf assms(8) [unfolded l]] g obtain i where
      i: "server_at js (gss_keys st) (view s1) (TrimSpace i) = Inr g" by auto
    with gone have "TrimSpace i \<noteq> TrimSpace sid" by auto
    moreover from this i have "server_at js (gss_keys st) (view s) (TrimSpace i) = Inr g"
      by (simp add: v server_at_upd server_key_inject [OF key])
    ultimately show ?thesis by blast
  qed
  ultimately show ?thesis by blast
qed

section \<open>Witnesses\<close>

definition w_server :: GameServer where
  "w_server = \<lparr>gs_ID = ''s1'', gs_Addr = ''127.0.0.1:7777'', gs_ExpiresAt = 10 * Second\<rparr>"

definition w_registered :: mem where
  "w_registered = snd (RegisterGameServer mem_server_json (Some mem_server_store) 0 w_server mem_empty)"

lemma w_server_registered:
  "RegisterGameServer mem_server_json (Some mem_server_store) 0 w_server mem_empty = (Inr (), w_registered)"
proof -
  have "fst (RegisterGameServer mem_server_json (Some mem_server_store) 0 w_server mem_empty) = Inr ()"
    by code_simp
  then show ?thesis by (simp add: w_registered_def prod_eq_iff)
qed

lemma w_servers_empty: "wf_keys (gss_keys mem_server_store) (mem_view mem_empty)"
proof -
  have "mem_view mem_empty = (\<lambda>_. None)" by (simp add: fun_eq_iff mem_view_def mem_empty_def)
  then show ?thesis by (simp add: wf_keys_empty)
qed

lemma w_registered_wf: "wf_keys (gss_keys mem_server_store) (mem_view w_registered)"
  by (rule mem_server.wf_register [OF w_server_registered mem_servers.st_client mem_servers.st_ttl w_servers_empty])

abbreviation w_list :: "mem \<Rightarrow> GameServer list result \<times> mem" where
  "w_list \<equiv> ListGameServers mem_server_json (Some mem_server_store)"

abbreviation w_get :: "mem \<Rightarrow> GameServer result \<times> mem" where
  "w_get \<equiv> GetGameServerByID mem_server_json (Some mem_server_store) ''s1''"

abbreviation w_deregister :: "mem \<Rightarrow> unit result \<times> mem" where
  "w_deregister \<equiv> DeregisterGameServer (Some mem_server_store) ''s1''"


theorem registered_visible_witness:
  "\<exists>gs. fst (w_list (mem_pass 9999 w_registered)) = Inr gs \<and> w_server \<in> set gs"
proof -
  let ?s = "mem_pass 9999 w_registered"
  have f: "is_ascii (gs_ID w_server)" "is_ascii (gs_Addr w_server)" "gs_ExpiresAt w_server < 2 ^ 63"
    "key_segment maxIDBytes (gs_ID w_server)" "ServerAddress (gs_Addr w_server) = Inr ''127.0.0.1:7777''"
    "9999 < px_ms mem_redis (Until 0 (gs_ExpiresAt w_server))" "9999 < ex_ms mem_redis (gss_serverTTL mem_server_store)"
    by code_simp+
  have g: "GetGameServerByID mem_server_json (Some mem_server_store) (gs_ID w_server) ?s = (fst (w_get ?s), snd (w_get ?s))"
    by (simp add: w_server_def)
  have l: "w_list ?s = (fst (w_list ?s), snd (w_list ?s))" by simp
  have z: "(0::int) \<le> 0" "(0::int) \<le> 9999" by simp_all
  from registered_visible [OF mem_clocked.redis_clock_axioms mem_server_json_roundtrip mem_servers.st_client
      mem_servers.st_prefix mem_servers.st_ttl w_servers_empty w_server_registered f(1,2) z(1) f(3-5) z(2) f(6,7) g l]
  have "w_server \<in> set gs" if "fst (w_list ?s) = Inr gs" for gs using that by blast
  moreover have "fst (w_list ?s) = Inr [w_server]" by code_simp
  ultimately show ?thesis by blast
qed

theorem deregistered_gone_witness:
  "fst (w_get w_registered) = Inr w_server \<and> (\<exists>e. fst (w_get (snd (w_deregister w_registered))) = Inl e)"
proof -
  let ?s = "snd (w_deregister w_registered)"
  have g: "fst (w_get w_registered) = Inr w_server" by code_simp
  have "fst (w_deregister w_registered) = Inr ()" by code_simp
  then have d: "w_deregister w_registered = (Inr (), ?s)" by (simp add: prod_eq_iff)
  have r: "w_get ?s = (fst (w_get ?s), snd (w_get ?s))" and l: "w_list ?s = (fst (w_list ?s), snd (w_list ?s))" by simp_all
  from deregistered_gone [OF mem_server.redis_server_axioms mem_servers.st_client mem_servers.st_prefix
      mem_servers.st_ttl w_registered_wf d r l] g show ?thesis by blast
qed

end
