(* ===== verification/Services.thy ===== *)
theory Services
  imports Auth Postgres Sessions Join_Tokens Game_Servers
begin

text \<open>
  The application services of \<open>internal/service\<close> over the store interfaces of
  \<open>internal/store/interfaces.go\<close>. An interface value is a record of operations on the
  state of the stores. New UUIDs, random bytes and the clock are arguments.
\<close>

section \<open>Definitions: store interfaces\<close>

record 'w UserStoreI =
  us_CreateUser :: "User \<Rightarrow> 'w \<Rightarrow> unit result \<times> 'w"
  us_GetUserByEmail :: "string \<Rightarrow> 'w \<Rightarrow> User result \<times> 'w"
  us_GetUserByID :: "string \<Rightarrow> 'w \<Rightarrow> User result \<times> 'w"

record 'w SessionStoreI =
  si_CreateSession :: "string \<Rightarrow> string \<Rightarrow> 'w \<Rightarrow> unit result \<times> 'w"
  si_GetSessionUserID :: "string \<Rightarrow> 'w \<Rightarrow> string result \<times> 'w"
  si_DeleteSession :: "string \<Rightarrow> 'w \<Rightarrow> unit result \<times> 'w"
  si_DeleteUserSessions :: "string \<Rightarrow> 'w \<Rightarrow> unit result \<times> 'w"

record 'w CharacterStoreI =
  ch_CreateCharacter :: "Character \<Rightarrow> 'w \<Rightarrow> unit result \<times> 'w"
  ch_ListCharactersByUserID :: "string \<Rightarrow> 'w \<Rightarrow> Character list result \<times> 'w"
  ch_GetCharacterByID :: "string \<Rightarrow> 'w \<Rightarrow> Character result \<times> 'w"

record 'w JoinTokenStoreI =
  ji_CreateJoinToken :: "time \<Rightarrow> JoinToken \<Rightarrow> 'w \<Rightarrow> unit result \<times> 'w"
  ji_ConsumeJoinToken :: "string \<Rightarrow> 'w \<Rightarrow> JoinToken result \<times> 'w"

record 'w GameServerStoreI =
  gi_RegisterGameServer :: "time \<Rightarrow> GameServer \<Rightarrow> 'w \<Rightarrow> unit result \<times> 'w"
  gi_DeregisterGameServer :: "string \<Rightarrow> 'w \<Rightarrow> unit result \<times> 'w"
  gi_ListGameServers :: "'w \<Rightarrow> GameServer list result \<times> 'w"
  gi_GetGameServerByID :: "string \<Rightarrow> 'w \<Rightarrow> GameServer result \<times> 'w"

definition required :: "'a option \<Rightarrow> string \<Rightarrow> 'a result" where
  "required x msg = (case x of None \<Rightarrow> Inl (Wrap msg [Sentinel ErrInvalidArgument]) | Some v \<Rightarrow> Inr v)"

text \<open>A method on a service that may be nil.\<close>

definition with_service :: "'v option \<Rightarrow> 'w \<Rightarrow> ('v \<Rightarrow> 'a result \<times> 'w) \<Rightarrow> 'a result \<times> 'w" where
  "with_service svc w body = (case svc of None \<Rightarrow> (Inl (Sentinel ErrInternal), w) | Some v \<Rightarrow> body v)"

section \<open>Definitions: authentication\<close>

definition fakePasswordHash :: string where
  "fakePasswordHash =
     ''$argon2id$v=19$m=19456,t=2,p=1$AAAAAAAAAAAAAAAAAAAAAA$AAAAAAAAAAAAAAAAAAAAAAAAAAAAAAAAAAAAAAAAAAA''"

record 'w AuthService =
  as_users :: "'w UserStoreI"
  as_sessions :: "'w SessionStoreI"

record AuthResult =
  ar_UserID :: string
  ar_SessionToken :: string

definition NewAuthService :: "'w UserStoreI option \<Rightarrow> 'w SessionStoreI option \<Rightarrow> 'w AuthService result" where
  "NewAuthService users sessions =
     bindE (required users ''user store is required'') (\<lambda>us.
     bindE (required sessions ''session store is required'') (\<lambda>ss.
     Inr \<lparr>as_users = us, as_sessions = ss\<rparr>))"

definition createSession :: "random \<Rightarrow> 'w AuthService \<Rightarrow> string \<Rightarrow> 'w \<Rightarrow> AuthResult result \<times> 'w" where
  "createSession rand svc userID w =
     bindP (UserID userID) w (\<lambda>uid.
     bindP (mapErr (\<lambda>e. Wrap ''create session token'' [e]) (NewSessionToken rand)) w (\<lambda>sessionToken.
     bindS (si_CreateSession (as_sessions svc) sessionToken uid w) (\<lambda>_ w1.
     (Inr \<lparr>ar_UserID = uid, ar_SessionToken = sessionToken\<rparr>, w1))))"

definition Register ::
  "text_lib \<Rightarrow> argon \<Rightarrow> random \<Rightarrow> string \<Rightarrow> 'w AuthService option \<Rightarrow> string \<Rightarrow> string \<Rightarrow> 'w \<Rightarrow> AuthResult result \<times> 'w" where
  "Register lib idkey rand uuid service email password w =
     with_service service w (\<lambda>svc.
       bindP (Email lib email) w (\<lambda>em.
       bindP (mapErr (\<lambda>e. Wrap ''hash password'' [e]) (HashPassword idkey rand password)) w (\<lambda>passwordHash.
       let user = \<lparr>user_ID = uuid, user_Email = em, user_PasswordHash = passwordHash,
                   user_CreatedAt = zero_time, user_UpdatedAt = zero_time\<rparr> in
       bindS (us_CreateUser (as_users svc) user w) (\<lambda>_ w1.
       createSession rand svc (user_ID user) w1))))"

definition Login ::
  "text_lib \<Rightarrow> argon \<Rightarrow> random \<Rightarrow> 'w AuthService option \<Rightarrow> string \<Rightarrow> string \<Rightarrow> 'w \<Rightarrow> AuthResult result \<times> 'w" where
  "Login lib idkey rand service email password w =
     with_service service w (\<lambda>svc.
       bindP (Email lib email) w (\<lambda>em.
       (case us_GetUserByEmail (as_users svc) em w of
          (Inl e, w1) \<Rightarrow>
            if errors_is e ErrNotFound then
              (let _ = VerifyPassword idkey fakePasswordHash password in (Inl (Sentinel ErrUnauthenticated), w1))
            else (Inl e, w1)
        | (Inr user, w1) \<Rightarrow>
            (case VerifyPassword idkey (user_PasswordHash user) password of
               Inl e \<Rightarrow> (Inl (Sentinel ErrUnauthenticated), w1)
             | Inr _ \<Rightarrow> createSession rand svc (user_ID user) w1))))"

definition RevokeSession :: "'w AuthService option \<Rightarrow> string \<Rightarrow> 'w \<Rightarrow> unit result \<times> 'w" where
  "RevokeSession service sessionToken w =
     with_service service w (\<lambda>svc.
       bindP (SessionToken sessionToken) w (\<lambda>tok. si_DeleteSession (as_sessions svc) tok w))"

definition RevokeUserSessions :: "'w AuthService option \<Rightarrow> string \<Rightarrow> 'w \<Rightarrow> unit result \<times> 'w" where
  "RevokeUserSessions service userID w =
     with_service service w (\<lambda>svc.
       bindP (UserID userID) w (\<lambda>uid. si_DeleteUserSessions (as_sessions svc) uid w))"

section \<open>Definitions: characters\<close>

definition DefaultMapID :: string where
  "DefaultMapID = ''starter_zone''"

definition DefaultSpawn :: Vec2 where
  "DefaultSpawn = \<lparr>X = f64_zero, Y = f64_zero\<rparr>"

type_synonym 'w CharacterService = "'w CharacterStoreI"

definition NewCharacterService :: "'w CharacterStoreI option \<Rightarrow> 'w CharacterService result" where
  "NewCharacterService characters = required characters ''character store is required''"

definition svc_CreateCharacter ::
  "text_lib \<Rightarrow> string \<Rightarrow> 'w CharacterService option \<Rightarrow> string \<Rightarrow> string \<Rightarrow> 'w \<Rightarrow> string result \<times> 'w" where
  "svc_CreateCharacter lib uuid service userID name w =
     with_service service w (\<lambda>svc.
       bindP (UserID userID) w (\<lambda>uid.
       bindP (CharacterName lib name) w (\<lambda>nm.
       let character = \<lparr>char_ID = uuid, char_UserID = uid, char_Name = nm, char_MapID = DefaultMapID,
             char_Position = DefaultSpawn, char_CreatedAt = zero_time, char_UpdatedAt = zero_time\<rparr> in
       bindS (ch_CreateCharacter svc character w) (\<lambda>_ w1. (Inr (char_ID character), w1)))))"

definition ListCharacters :: "'w CharacterService option \<Rightarrow> string \<Rightarrow> 'w \<Rightarrow> Character list result \<times> 'w" where
  "ListCharacters service userID w =
     with_service service w (\<lambda>svc.
       bindP (UserID userID) w (\<lambda>uid. ch_ListCharactersByUserID svc uid w))"

section \<open>Definitions: game handoff\<close>

record 'w GameService =
  gsv_characters :: "'w CharacterStoreI"
  gsv_joinTokens :: "'w JoinTokenStoreI"
  gsv_servers :: "'w GameServerStoreI"
  gsv_joinTokenTTL :: duration

record IssueJoinTokenResult =
  ij_JoinToken :: string
  ij_GameServerID :: string
  ij_GameServerAddr :: string
  ij_ExpiresInSeconds :: int

definition NewGameService ::
  "'w CharacterStoreI option \<Rightarrow> 'w JoinTokenStoreI option \<Rightarrow> 'w GameServerStoreI option \<Rightarrow> duration
     \<Rightarrow> 'w GameService result" where
  "NewGameService characters joinTokens servers joinTokenTTL =
     bindE (required characters ''character store is required'') (\<lambda>cs.
     bindE (required joinTokens ''join token store is required'') (\<lambda>js.
     bindE (required servers ''game server store is required'') (\<lambda>gs.
     if joinTokenTTL \<le> 0 then Inl (Wrap ''join token TTL must be > 0'' [Sentinel ErrInvalidArgument])
     else Inr \<lparr>gsv_characters = cs, gsv_joinTokens = js, gsv_servers = gs, gsv_joinTokenTTL = joinTokenTTL\<rparr>)))"

definition svc_ListGameServers :: "'w GameService option \<Rightarrow> 'w \<Rightarrow> GameServer list result \<times> 'w" where
  "svc_ListGameServers service w = with_service service w (\<lambda>svc. gi_ListGameServers (gsv_servers svc) w)"

definition selectServer :: "'w GameService \<Rightarrow> string \<Rightarrow> 'w \<Rightarrow> GameServer result \<times> 'w" where
  "selectServer svc requestedServerID w =
     (if requestedServerID \<noteq> [] then gi_GetGameServerByID (gsv_servers svc) requestedServerID w
      else
        bindS (gi_ListGameServers (gsv_servers svc) w) (\<lambda>servers w1.
        case servers of [] \<Rightarrow> (Inl (Sentinel ErrUnavailable), w1) | server # _ \<Rightarrow> (Inr server, w1)))"

text \<open>
  \<open>int64(ttl.Seconds())\<close>: the \<open>float64\<close> of a duration below \<open>2 ^ 23\<close> seconds
  keeps every nanosecond, so that the conversion is the integer quotient.
\<close>

definition whole_seconds :: "duration \<Rightarrow> int" where
  "whole_seconds d = go_div d Second"

definition IssueJoinToken ::
  "random \<Rightarrow> time \<Rightarrow> 'w GameService option \<Rightarrow> string \<Rightarrow> string \<Rightarrow> string \<Rightarrow> 'w \<Rightarrow> IssueJoinTokenResult result \<times> 'w" where
  "IssueJoinToken rand now service userID characterID gameServerID w =
     with_service service w (\<lambda>svc.
       bindP (UserID userID) w (\<lambda>uid.
       bindP (CharacterID characterID) w (\<lambda>cid.
       bindP (OptionalGameServerID gameServerID) w (\<lambda>gid.
       bindS (ch_GetCharacterByID (gsv_characters svc) cid w) (\<lambda>character w1.
       if char_UserID character \<noteq> uid then (Inl (Sentinel ErrPermissionDenied), w1)
       else
         bindS (selectServer svc gid w1) (\<lambda>server w2.
         bindP (mapErr (\<lambda>e. Wrap ''create join token'' [e]) (NewJoinToken rand)) w2 (\<lambda>token.
         let joinToken = \<lparr>jt_Token = token, jt_UserID = uid, jt_CharacterID = cid, jt_ServerID = gs_ID server,
               jt_ServerAddr = gs_Addr server, jt_ExpiresAt = now + gsv_joinTokenTTL svc\<rparr> in
         bindS (ji_CreateJoinToken (gsv_joinTokens svc) now joinToken w2) (\<lambda>_ w3.
         (Inr \<lparr>ij_JoinToken = token, ij_GameServerID = gs_ID server, ij_GameServerAddr = gs_Addr server,
               ij_ExpiresInSeconds = whole_seconds (gsv_joinTokenTTL svc)\<rparr>, w3)))))))))"

section \<open>Lemmas\<close>

lemma with_service_simps [simp]:
  "with_service None w body = (Inl (Sentinel ErrInternal), w)" "with_service (Some v) w body = body v"
  by (simp_all add: with_service_def)

lemma required_Inr [simp]: "required x m = Inr v \<longleftrightarrow> x = Some v"
  by (cases x) (simp_all add: required_def)

lemma createSession_Inr:
  assumes "createSession rand svc u w = (Inr res, w')"
  shows "key_segment maxIDBytes (TrimSpace u)" and "ar_UserID res = TrimSpace u"
    and "NewSessionToken rand = Inr (ar_SessionToken res)"
    and "\<exists>x. si_CreateSession (as_sessions svc) (ar_SessionToken res) (TrimSpace u) w = (Inr x, w')"
  using assms by (auto simp: createSession_def bindP_eq_Inr bindS_eq_Inr ids_Inr)

lemma Register_Inr:
  assumes "Register lib idkey rand uuid (Some svc) email password w = (Inr res, w')"
  obtains em h w1 x where "Email lib email = Inr em" and "HashPassword idkey rand password = Inr h"
    and "us_CreateUser (as_users svc) \<lparr>user_ID = uuid, user_Email = em, user_PasswordHash = h,
           user_CreatedAt = zero_time, user_UpdatedAt = zero_time\<rparr> w = (Inr x, w1)"
    and "createSession rand svc uuid w1 = (Inr res, w')"
  using assms by (auto simp: Register_def Let_def bindP_eq_Inr bindS_eq_Inr)

text \<open>The three outcomes of a login once the address is valid.\<close>

lemma Login_cases:
  assumes "Login lib idkey rand (Some svc) email password w = (r, w')" and "Email lib email = Inr em"
  obtains (failed) e where "us_GetUserByEmail (as_users svc) em w = (Inl e, w')"
      "r = (if errors_is e ErrNotFound then Inl (Sentinel ErrUnauthenticated) else Inl e)"
  | (wrong) user e where "us_GetUserByEmail (as_users svc) em w = (Inr user, w')"
      "VerifyPassword idkey (user_PasswordHash user) password = Inl e" "r = Inl (Sentinel ErrUnauthenticated)"
  | (accepted) user w1 where "us_GetUserByEmail (as_users svc) em w = (Inr user, w1)"
      "VerifyPassword idkey (user_PasswordHash user) password = Inr ()" "createSession rand svc (user_ID user) w1 = (r, w')"
proof -
  obtain q w1 where q: "us_GetUserByEmail (as_users svc) em w = (q, w1)" by force
  show ?thesis
  proof (cases q)
    case (Inl e)
    with q assms failed show ?thesis by (auto simp: Login_def Let_def split: if_splits)
  next
    case (Inr user)
    show ?thesis
    proof (cases "VerifyPassword idkey (user_PasswordHash user) password")
      case l: (Inl e)
      with q assms Inr show ?thesis by (intro wrong) (auto simp: Login_def)
    next
      case r: (Inr u)
      with q assms Inr show ?thesis by (intro accepted) (auto simp: Login_def)
    qed
  qed
qed

text \<open>What a service relies on: a directory of accounts and a map of live sessions.\<close>

locale auth_backend =
  fixes svc :: "'w AuthService"
    and accounts :: "'w \<Rightarrow> User set"
    and owner :: "'w \<Rightarrow> string \<Rightarrow> string option"
    and canon :: "string \<Rightarrow> string option"
    and ci :: "string \<Rightarrow> string"
    and valid :: "'w \<Rightarrow> bool"
  assumes create_user_ok: "valid w \<Longrightarrow> us_CreateUser (as_users svc) u w = (Inr x, w') \<Longrightarrow>
        valid w' \<and> owner w' = owner w \<and> (\<forall>v \<in> accounts w. ci (user_Email v) \<noteq> ci (user_Email u)) \<and>
        (\<exists>v. accounts w' = insert v (accounts w) \<and> user_Email v = user_Email u \<and>
           user_PasswordHash v = user_PasswordHash u \<and> canon (user_ID u) = Some (user_ID v))"
    and find_ok: "valid w \<Longrightarrow> us_GetUserByEmail (as_users svc) em w = (Inr u, w') \<Longrightarrow>
        u \<in> accounts w \<and> ci (user_Email u) = ci em"
    and find_err: "valid w \<Longrightarrow> us_GetUserByEmail (as_users svc) em w = (Inl e, w') \<Longrightarrow>
        e \<noteq> Sentinel ErrUnauthenticated \<and>
        (errors_is e ErrNotFound \<longrightarrow> (\<forall>v \<in> accounts w. ci (user_Email v) \<noteq> ci em))"
    and find_frame: "valid w \<Longrightarrow> us_GetUserByEmail (as_users svc) em w = (r, w') \<Longrightarrow>
        valid w' \<and> owner w' = owner w \<and> accounts w' = accounts w"
    and session_ok: "valid w \<Longrightarrow> key_segment maxIDBytes uid \<Longrightarrow>
        si_CreateSession (as_sessions svc) sid uid w = (Inr x, w') \<Longrightarrow>
        valid w' \<and> owner w' = (owner w)(sid \<mapsto> uid) \<and> accounts w' = accounts w"
    and session_err: "valid w \<Longrightarrow> si_CreateSession (as_sessions svc) sid uid w = (Inl ex, w') \<Longrightarrow>
        ex \<noteq> Sentinel ErrUnauthenticated"
    and unique: "valid w \<Longrightarrow> u \<in> accounts w \<Longrightarrow> v \<in> accounts w \<Longrightarrow> ci (user_Email u) = ci (user_Email v) \<Longrightarrow> u = v"
begin

lemma register_ok:
  assumes "valid w" and "Register lib idkey rand uuid (Some svc) email password w = (Inr res, w')"
  shows "\<exists>em h v. Email lib email = Inr em \<and> HashPassword idkey rand password = Inr h \<and>
    v \<in> accounts w' \<and> user_Email v = em \<and> user_PasswordHash v = h \<and> canon uuid = Some (user_ID v) \<and>
    (\<forall>z \<in> accounts w. ci (user_Email z) \<noteq> ci em) \<and> valid w' \<and> ar_UserID res = TrimSpace uuid \<and>
    owner w' = (owner w)(ar_SessionToken res \<mapsto> TrimSpace uuid)"
proof -
  obtain em h w1 x where em: "Email lib email = Inr em" and h: "HashPassword idkey rand password = Inr h"
    and c: "us_CreateUser (as_users svc) \<lparr>user_ID = uuid, user_Email = em, user_PasswordHash = h,
           user_CreatedAt = zero_time, user_UpdatedAt = zero_time\<rparr> w = (Inr x, w1)"
    and cs: "createSession rand svc uuid w1 = (Inr res, w')"
    by (rule Register_Inr [OF assms(2)])
  note cu = create_user_ok [OF assms(1) c, simplified]
  from cu obtain v where v: "accounts w1 = insert v (accounts w)" "user_Email v = em" "user_PasswordHash v = h"
    "canon uuid = Some (user_ID v)" by blast
  note s = createSession_Inr [OF cs]
  from s(4) obtain y where "si_CreateSession (as_sessions svc) (ar_SessionToken res) (TrimSpace uuid) w1 = (Inr y, w')" by blast
  from session_ok [OF conjunct1 [OF cu] s(1) this] cu v em h s(2) show ?thesis by auto
qed

text \<open>The account stays usable: the right password is never answered with unauthenticated.\<close>

lemma login_known:
  assumes "valid w" and "v \<in> accounts w" and "Email lib email = Inr em" and "ci (user_Email v) = ci em"
    and "VerifyPassword idkey (user_PasswordHash v) password = Inr ()"
    and "Login lib idkey rand (Some svc) email password w = (r, w')"
  shows "r \<noteq> Inl (Sentinel ErrUnauthenticated) \<and>
    (\<forall>res. r = Inr res \<longrightarrow> ar_UserID res = TrimSpace (user_ID v) \<and>
       owner w' = (owner w)(ar_SessionToken res \<mapsto> TrimSpace (user_ID v)))"
  using assms(6,3)
proof (cases rule: Login_cases)
  case (failed e)
  with find_err [OF assms(1) failed(1)] assms(2,4) show ?thesis by auto
next
  case (wrong user e)
  from find_ok [OF assms(1) wrong(1)] unique [OF assms(1)] assms(2,4) have "user = v" by metis
  with wrong assms(5) show ?thesis by simp
next
  case (accepted user w1)
  from find_ok [OF assms(1) accepted(1)] unique [OF assms(1)] assms(2,4) have u: "user = v" by metis
  note f = find_frame [OF assms(1) accepted(1)]
  have "r \<noteq> Inl (Sentinel ErrUnauthenticated)"
  proof
    assume r: "r = Inl (Sentinel ErrUnauthenticated)"
    from accepted(3) r have "\<exists>sid uid w2. si_CreateSession (as_sessions svc) sid uid w1 = (Inl (Sentinel ErrUnauthenticated), w2)"
      by (auto simp: createSession_def bindP_def bindS_def mapErr_def UserID_def requiredKeySegment_def invalid_def Let_def
          split: sum.splits prod.splits if_splits)
    with session_err f show False by blast
  qed
  moreover have "ar_UserID res = TrimSpace (user_ID v) \<and> owner w' = (owner w)(ar_SessionToken res \<mapsto> TrimSpace (user_ID v))"
    if "r = Inr res" for res
  proof -
    note s = createSession_Inr [OF accepted(3) [unfolded that]]
    from s(4) obtain y where "si_CreateSession (as_sessions svc) (ar_SessionToken res) (TrimSpace (user_ID user)) w1 = (Inr y, w')"
      by blast
    from session_ok [OF _ s(1) this] f s(2) u show ?thesis by auto
  qed
  ultimately show ?thesis by blast
qed

text \<open>A session is only given for an account whose password was presented.\<close>

lemma login_sound:
  assumes "valid w" and "Login lib idkey rand (Some svc) email password w = (Inr res, w')"
  shows "\<exists>em u. Email lib email = Inr em \<and> u \<in> accounts w \<and> ci (user_Email u) = ci em \<and>
    VerifyPassword idkey (user_PasswordHash u) password = Inr () \<and> ar_UserID res = TrimSpace (user_ID u) \<and>
    owner w' = (owner w)(ar_SessionToken res \<mapsto> TrimSpace (user_ID u))"
proof -
  from assms(2) obtain em where em: "Email lib email = Inr em"
    by (auto simp: Login_def bindP_def split: sum.splits)
  from assms(2) em show ?thesis
  proof (cases rule: Login_cases)
    case (accepted user w1)
    note f = find_ok [OF assms(1) accepted(1)] find_frame [OF assms(1) accepted(1)]
    note s = createSession_Inr [OF accepted(3)]
    from s(4) obtain y where "si_CreateSession (as_sessions svc) (ar_SessionToken res) (TrimSpace (user_ID user)) w1 = (Inr y, w')"
      by blast
    from session_ok [OF _ s(1) this] f s(2) em accepted(2) show ?thesis by auto
  qed (auto split: if_splits)
qed

end

lemma IssueJoinToken_Inr:
  assumes "IssueJoinToken rand now (Some svc) userID characterID gid w = (Inr res, w')"
  obtains ch w1 server w2 x g where "key_segment maxIDBytes (TrimSpace userID)"
    and "key_segment maxIDBytes (TrimSpace characterID)" and "OptionalGameServerID gid = Inr g"
    and "ch_GetCharacterByID (gsv_characters svc) (TrimSpace characterID) w = (Inr ch, w1)"
    and "char_UserID ch = TrimSpace userID" and "selectServer svc g w1 = (Inr server, w2)"
    and "NewJoinToken rand = Inr (ij_JoinToken res)" and "ij_GameServerID res = gs_ID server"
    and "ij_GameServerAddr res = gs_Addr server"
    and "ji_CreateJoinToken (gsv_joinTokens svc) now
           \<lparr>jt_Token = ij_JoinToken res, jt_UserID = TrimSpace userID, jt_CharacterID = TrimSpace characterID,
            jt_ServerID = gs_ID server, jt_ServerAddr = gs_Addr server, jt_ExpiresAt = now + gsv_joinTokenTTL svc\<rparr> w2
         = (Inr x, w')"
  using assms by (auto simp: IssueJoinToken_def Let_def bindP_eq_Inr bindS_eq_Inr ids_Inr split: if_splits)

text \<open>
  The hash that stands in for an unknown account asks for less memory and fewer passes
  than the hashes of real accounts.
\<close>

lemma fake_hash_cheaper:
  "case parsePasswordHash fakePasswordHash of Inl _ \<Rightarrow> False
   | Inr p \<Rightarrow> MemoryKiB (pph_Params p) = 19456 \<and> Iterations (pph_Params p) = 2 \<and>
       MemoryKiB DefaultPasswordParams = 65536 \<and> Iterations DefaultPasswordParams = 3"
  by code_simp

end
