(* ===== verification/Rpc_Protocol.thy ===== *)
theory Rpc_Protocol
  imports Services
begin

text \<open>
  The wire level of the API: messages and service interfaces of the protocol
  (\<open>internal/protocol/rpg/v1\<close>), the error codes and the interceptor chain of the
  Connect library as it documents them, and the generated routing of
  \<open>rpgv1connect/api.connect.go\<close>. The protobuf codec is a parameter: one decoder per
  request message.
\<close>

section \<open>Definitions: messages\<close>

type_synonym PingRequest = unit

record PingResponse =
  ping_Service :: string
  ping_Message :: string
  ping_ServerTime :: string

record RegisterRequest =
  rreq_Email :: string
  rreq_Password :: string

record RegisterResponse =
  rres_UserId :: string
  rres_SessionToken :: string

record LoginRequest =
  lreq_Email :: string
  lreq_Password :: string

record LoginResponse =
  lres_UserId :: string
  lres_SessionToken :: string

type_synonym LogoutRequest = unit
type_synonym LogoutResponse = unit

record CreateCharacterRequest =
  creq_Name :: string

record CreateCharacterResponse =
  cres_CharacterId :: string

type_synonym ListCharactersRequest = unit

record CharacterSummary =
  csum_CharacterId :: string
  csum_Name :: string
  csum_MapId :: string
  csum_Position :: Vec2

record ListCharactersResponse =
  lc_Characters :: "CharacterSummary list"

type_synonym ListGameServersRequest = unit

record GameServerSummary =
  gsum_GameServerId :: string
  gsum_GameServerAddr :: string
  gsum_ExpiresInSeconds :: int

record ListGameServersResponse =
  lg_Servers :: "GameServerSummary list"

record IssueJoinTokenRequest =
  jreq_CharacterId :: string
  jreq_GameServerId :: string

record IssueJoinTokenResponse =
  jres_JoinToken :: string
  jres_GameServerId :: string
  jres_GameServerAddr :: string
  jres_ExpiresInSeconds :: int

section \<open>Definitions: the Connect library\<close>

text \<open>The codes that the program uses.\<close>

datatype Code =
    CodeUnknown | CodeInvalidArgument | CodeNotFound | CodeAlreadyExists | CodePermissionDenied
  | CodeResourceExhausted | CodeFailedPrecondition | CodeUnimplemented | CodeInternal
  | CodeUnavailable | CodeUnauthenticated

fun code_String :: "Code \<Rightarrow> string" where
  "code_String CodeUnknown = ''unknown''"
| "code_String CodeInvalidArgument = ''invalid_argument''"
| "code_String CodeNotFound = ''not_found''"
| "code_String CodeAlreadyExists = ''already_exists''"
| "code_String CodePermissionDenied = ''permission_denied''"
| "code_String CodeResourceExhausted = ''resource_exhausted''"
| "code_String CodeFailedPrecondition = ''failed_precondition''"
| "code_String CodeUnimplemented = ''unimplemented''"
| "code_String CodeInternal = ''internal''"
| "code_String CodeUnavailable = ''unavailable''"
| "code_String CodeUnauthenticated = ''unauthenticated''"

record ConnectError =
  ce_Code :: Code
  ce_Message :: string

definition NewError :: "Code \<Rightarrow> string \<Rightarrow> ConnectError" where
  "NewError code msg = \<lparr>ce_Code = code, ce_Message = msg\<rparr>"

text \<open>\<open>connect.CodeOf\<close>: the code of a Connect error, and \<open>CodeUnknown\<close> for everything else, nil included.\<close>

definition CodeOf :: "ConnectError option \<Rightarrow> Code" where
  "CodeOf err = (case err of None \<Rightarrow> CodeUnknown | Some e \<Rightarrow> ce_Code e)"

type_synonym 'a rpc = "ConnectError + 'a"

text \<open>A header maps canonical names to values; \<open>Get\<close> and \<open>Set\<close> put the name into canonical form.\<close>

type_synonym header = "string \<Rightarrow> string list"

definition ascii_upper :: "char \<Rightarrow> char" where
  "ascii_upper c =
     (if 97 \<le> (of_char c :: nat) \<and> (of_char c :: nat) \<le> 122 then char_of ((of_char c :: nat) - 32) else c)"

fun canonical_from :: "bool \<Rightarrow> string \<Rightarrow> string" where
  "canonical_from up [] = []"
| "canonical_from up (c # cs) = (if up then ascii_upper c else ascii_lower c) # canonical_from (c = CHR ''-'') cs"

definition CanonicalHeaderKey :: "string \<Rightarrow> string" where
  "CanonicalHeaderKey name = canonical_from True name"

definition header_Get :: "header \<Rightarrow> string \<Rightarrow> string" where
  "header_Get h name = (case h (CanonicalHeaderKey name) of [] \<Rightarrow> [] | v # _ \<Rightarrow> v)"

definition header_Set :: "string \<Rightarrow> string \<Rightarrow> header \<Rightarrow> header" where
  "header_Set name value h = h(CanonicalHeaderKey name := [value])"

text \<open>The request as interceptors see it, and the values of a request context.\<close>

record AnyRequest =
  Procedure :: string
  Header :: header

record AuthUser =
  au_UserID :: string
  au_SessionToken :: string

record Context =
  ctx_authUser :: "AuthUser option"
  ctx_requestID :: "string option"

datatype AnyResponse =
    RPing PingResponse | RRegister RegisterResponse | RLogin LoginResponse | RLogout LogoutResponse
  | RCreateCharacter CreateCharacterResponse | RListCharacters ListCharactersResponse
  | RListGameServers ListGameServersResponse | RIssueJoinToken IssueJoinTokenResponse

type_synonym 'st UnaryFunc = "Context \<Rightarrow> AnyRequest \<Rightarrow> 'st \<Rightarrow> AnyResponse rpc \<times> 'st"
type_synonym 'st Interceptor = "'st UnaryFunc \<Rightarrow> 'st UnaryFunc"

text \<open>Interceptors compose like an onion, the first one outermost.\<close>

definition chain :: "'st Interceptor list \<Rightarrow> 'st UnaryFunc \<Rightarrow> 'st UnaryFunc" where
  "chain interceptors next = foldr (\<lambda>i n. i n) interceptors next"

text \<open>A method of a service, and the endpoint that \<open>connect.NewUnaryHandler\<close> makes of it.\<close>

type_synonym ('m, 'r, 'st) rpc_method = "Context \<Rightarrow> 'm \<Rightarrow> 'st \<Rightarrow> 'r rpc \<times> 'st"
type_synonym 'st endpoint = "Context \<Rightarrow> header \<Rightarrow> string \<Rightarrow> 'st \<Rightarrow> AnyResponse rpc \<times> 'st"

definition NewUnaryHandler ::
  "string \<Rightarrow> (string \<Rightarrow> 'm option) \<Rightarrow> ('m, 'r, 'st) rpc_method \<Rightarrow> ('r \<Rightarrow> AnyResponse) \<Rightarrow> 'st Interceptor list \<Rightarrow> 'st endpoint" where
  "NewUnaryHandler procedure decode meth wrap interceptors ctx hdr body st =
     (case decode body of
        None \<Rightarrow> (Inl (NewError CodeInvalidArgument ''unmarshal message''), st)
      | Some msg \<Rightarrow>
          chain interceptors
            (\<lambda>ctx' req st'. case meth ctx' msg st' of (r, st'') \<Rightarrow> (map_sum id wrap r, st''))
            ctx \<lparr>Procedure = procedure, Header = hdr\<rparr> st)"

record codec =
  dec_Ping :: "string \<Rightarrow> PingRequest option"
  dec_Register :: "string \<Rightarrow> RegisterRequest option"
  dec_Login :: "string \<Rightarrow> LoginRequest option"
  dec_Logout :: "string \<Rightarrow> LogoutRequest option"
  dec_CreateCharacter :: "string \<Rightarrow> CreateCharacterRequest option"
  dec_ListCharacters :: "string \<Rightarrow> ListCharactersRequest option"
  dec_ListGameServers :: "string \<Rightarrow> ListGameServersRequest option"
  dec_IssueJoinToken :: "string \<Rightarrow> IssueJoinTokenRequest option"

section \<open>Definitions: generated service code\<close>

definition SystemServicePingProcedure :: string where
  "SystemServicePingProcedure = ''/rpg.v1.SystemService/Ping''"

definition AuthServiceRegisterProcedure :: string where
  "AuthServiceRegisterProcedure = ''/rpg.v1.AuthService/Register''"

definition AuthServiceLoginProcedure :: string where
  "AuthServiceLoginProcedure = ''/rpg.v1.AuthService/Login''"

definition AuthServiceLogoutProcedure :: string where
  "AuthServiceLogoutProcedure = ''/rpg.v1.AuthService/Logout''"

definition CharacterServiceCreateCharacterProcedure :: string where
  "CharacterServiceCreateCharacterProcedure = ''/rpg.v1.CharacterService/CreateCharacter''"

definition CharacterServiceListCharactersProcedure :: string where
  "CharacterServiceListCharactersProcedure = ''/rpg.v1.CharacterService/ListCharacters''"

definition GameServiceListGameServersProcedure :: string where
  "GameServiceListGameServersProcedure = ''/rpg.v1.GameService/ListGameServers''"

definition GameServiceIssueJoinTokenProcedure :: string where
  "GameServiceIssueJoinTokenProcedure = ''/rpg.v1.GameService/IssueJoinToken''"

record 'st SystemServiceHandler =
  sys_Ping :: "(PingRequest, PingResponse, 'st) rpc_method"

record 'st AuthServiceHandler =
  auth_Register :: "(RegisterRequest, RegisterResponse, 'st) rpc_method"
  auth_Login :: "(LoginRequest, LoginResponse, 'st) rpc_method"
  auth_Logout :: "(LogoutRequest, LogoutResponse, 'st) rpc_method"

record 'st CharacterServiceHandler =
  chr_CreateCharacter :: "(CreateCharacterRequest, CreateCharacterResponse, 'st) rpc_method"
  chr_ListCharacters :: "(ListCharactersRequest, ListCharactersResponse, 'st) rpc_method"

record 'st GameServiceHandler =
  game_ListGameServers :: "(ListGameServersRequest, ListGameServersResponse, 'st) rpc_method"
  game_IssueJoinToken :: "(IssueJoinTokenRequest, IssueJoinTokenResponse, 'st) rpc_method"

text \<open>A service handler: the path it is mounted on, and its endpoints by URL path (no endpoint: not found).\<close>

type_synonym 'st service = "string \<times> (string \<Rightarrow> 'st endpoint option)"

definition NewSystemServiceHandler :: "codec \<Rightarrow> 'st SystemServiceHandler \<Rightarrow> 'st Interceptor list \<Rightarrow> 'st service" where
  "NewSystemServiceHandler cd svc opts =
     (''/rpg.v1.SystemService/'', \<lambda>path.
        if path = SystemServicePingProcedure then
          Some (NewUnaryHandler SystemServicePingProcedure (dec_Ping cd) (sys_Ping svc) RPing opts)
        else None)"

definition NewAuthServiceHandler :: "codec \<Rightarrow> 'st AuthServiceHandler \<Rightarrow> 'st Interceptor list \<Rightarrow> 'st service" where
  "NewAuthServiceHandler cd svc opts =
     (''/rpg.v1.AuthService/'', \<lambda>path.
        if path = AuthServiceRegisterProcedure then
          Some (NewUnaryHandler AuthServiceRegisterProcedure (dec_Register cd) (auth_Register svc) RRegister opts)
        else if path = AuthServiceLoginProcedure then
          Some (NewUnaryHandler AuthServiceLoginProcedure (dec_Login cd) (auth_Login svc) RLogin opts)
        else if path = AuthServiceLogoutProcedure then
          Some (NewUnaryHandler AuthServiceLogoutProcedure (dec_Logout cd) (auth_Logout svc) RLogout opts)
        else None)"

definition NewCharacterServiceHandler :: "codec \<Rightarrow> 'st CharacterServiceHandler \<Rightarrow> 'st Interceptor list \<Rightarrow> 'st service" where
  "NewCharacterServiceHandler cd svc opts =
     (''/rpg.v1.CharacterService/'', \<lambda>path.
        if path = CharacterServiceCreateCharacterProcedure then
          Some (NewUnaryHandler CharacterServiceCreateCharacterProcedure (dec_CreateCharacter cd)
            (chr_CreateCharacter svc) RCreateCharacter opts)
        else if path = CharacterServiceListCharactersProcedure then
          Some (NewUnaryHandler CharacterServiceListCharactersProcedure (dec_ListCharacters cd)
            (chr_ListCharacters svc) RListCharacters opts)
        else None)"

definition NewGameServiceHandler :: "codec \<Rightarrow> 'st GameServiceHandler \<Rightarrow> 'st Interceptor list \<Rightarrow> 'st service" where
  "NewGameServiceHandler cd svc opts =
     (''/rpg.v1.GameService/'', \<lambda>path.
        if path = GameServiceListGameServersProcedure then
          Some (NewUnaryHandler GameServiceListGameServersProcedure (dec_ListGameServers cd)
            (game_ListGameServers svc) RListGameServers opts)
        else if path = GameServiceIssueJoinTokenProcedure then
          Some (NewUnaryHandler GameServiceIssueJoinTokenProcedure (dec_IssueJoinToken cd)
            (game_IssueJoinToken svc) RIssueJoinToken opts)
        else None)"

text \<open>The handlers that implement nothing.\<close>

definition unimplemented :: "string \<Rightarrow> ('m, 'r, 'st) rpc_method" where
  "unimplemented name ctx msg st = (Inl (NewError CodeUnimplemented (name @ '' is not implemented'')), st)"

definition UnimplementedSystemServiceHandler :: "'st SystemServiceHandler" where
  "UnimplementedSystemServiceHandler = \<lparr>sys_Ping = unimplemented ''rpg.v1.SystemService.Ping''\<rparr>"

definition UnimplementedAuthServiceHandler :: "'st AuthServiceHandler" where
  "UnimplementedAuthServiceHandler = \<lparr>auth_Register = unimplemented ''rpg.v1.AuthService.Register'',
     auth_Login = unimplemented ''rpg.v1.AuthService.Login'', auth_Logout = unimplemented ''rpg.v1.AuthService.Logout''\<rparr>"

definition UnimplementedCharacterServiceHandler :: "'st CharacterServiceHandler" where
  "UnimplementedCharacterServiceHandler =
     \<lparr>chr_CreateCharacter = unimplemented ''rpg.v1.CharacterService.CreateCharacter'',
      chr_ListCharacters = unimplemented ''rpg.v1.CharacterService.ListCharacters''\<rparr>"

definition UnimplementedGameServiceHandler :: "'st GameServiceHandler" where
  "UnimplementedGameServiceHandler =
     \<lparr>game_ListGameServers = unimplemented ''rpg.v1.GameService.ListGameServers'',
      game_IssueJoinToken = unimplemented ''rpg.v1.GameService.IssueJoinToken''\<rparr>"

end
