(* ===== verification/Metrics.thy ===== *)
theory Metrics
  imports Domain "HOL-Library.AList" "HOL-Library.Finite_Map" "HOL-Library.Word"
    "HOL-Library.List_Lexorder" "HOL-Library.Char_ord"
begin

text \<open>
  The in-memory metrics collector, \<open>internal/observability/metrics.go\<close>. A set of
  labels is a list of key-value pairs with distinct keys in the order in which the Go map
  is iterated; counters are 64-bit words; a nil collector is \<open>None\<close>. The mutex is left
  out: every operation is one critical section.
\<close>

section \<open>Definitions: names and label values\<close>

definition metric_rune :: "nat \<Rightarrow> bool" where
  "metric_rune r = ((97 \<le> r \<and> r \<le> 122) \<or> (65 \<le> r \<and> r \<le> 90) \<or> (48 \<le> r \<and> r \<le> 57) \<or> r = 95 \<or> r = 58)"

definition metricName :: "string \<Rightarrow> string" where
  "metricName value =
     (let value = TrimSpace value in
      if value = [] then ''unknown_metric''
      else map (\<lambda>r. if metric_rune r then char_of r else CHR ''_'') (runes value))"

definition labelName :: "string \<Rightarrow> string" where
  "labelName value = metricName value"

definition labelValue :: "string \<Rightarrow> string" where
  "labelValue value =
     (let value = TrimSpace value;
          value = ReplaceAll value (CHR 0x5C) [CHR 0x5C, CHR 0x5C];
          value = ReplaceAll value (CHR 0x22) [CHR 0x5C, CHR 0x22];
          value = ReplaceAll value (CHR 0x0A) [CHR 0x5C, CHR ''n'']
      in if value = [] then ''unknown'' else value)"

type_synonym labels = "(string \<times> string) list"

definition withServiceLabel :: "string \<Rightarrow> labels \<Rightarrow> labels" where
  "withServiceLabel service ls =
     foldl (\<lambda>out (key, value). AList.update (labelName key) (labelValue value) out) [(''service'', service)] ls"

text \<open>One label in the text format, \<open>fmt.Sprintf("%s=\"%s\"", ...)\<close>.\<close>

definition label_text :: "labels \<Rightarrow> string \<Rightarrow> string" where
  "label_text ls key =
     labelName key @ [CHR ''='', CHR 0x22] @
     labelValue (case map_of ls key of None \<Rightarrow> [] | Some v \<Rightarrow> v) @ [CHR 0x22]"

definition metricKey :: "string \<Rightarrow> labels \<Rightarrow> string" where
  "metricKey name ls =
     (let name = metricName name in
      if ls = [] then name
      else name @ ''{'' @ Join (map (label_text ls) (sort (map fst ls))) '','' @ ''}'')"

section \<open>Definitions: the collector\<close>

record timerStats =
  ts_Count :: "64 word"
  ts_TotalMillis :: "64 word"
  ts_MaxMillis :: "64 word"

record Metrics =
  m_service :: string
  m_counters :: "(string, 64 word) fmap"
  m_timers :: "(string, timerStats) fmap"

definition unknownService :: string where
  "unknownService = ''unknown''"

definition NewMetrics :: "string \<Rightarrow> Metrics" where
  "NewMetrics service =
     (let service = labelValue service in
      \<lparr>m_service = (if service = [] then unknownService else service), m_counters = fmempty, m_timers = fmempty\<rparr>)"

text \<open>A missing map entry reads as the zero value.\<close>

definition counter :: "Metrics \<Rightarrow> string \<Rightarrow> 64 word" where
  "counter m key = (case fmlookup (m_counters m) key of None \<Rightarrow> 0 | Some n \<Rightarrow> n)"

definition timer :: "Metrics \<Rightarrow> string \<Rightarrow> timerStats" where
  "timer m key = (case fmlookup (m_timers m) key of
     None \<Rightarrow> \<lparr>ts_Count = 0, ts_TotalMillis = 0, ts_MaxMillis = 0\<rparr> | Some t \<Rightarrow> t)"

definition Inc :: "string \<Rightarrow> labels \<Rightarrow> Metrics option \<Rightarrow> Metrics option" where
  "Inc name ls metrics =
     (case metrics of None \<Rightarrow> None
      | Some m \<Rightarrow>
          (let key = metricKey name (withServiceLabel (m_service m) ls)
           in Some (m\<lparr>m_counters := fmupd key (counter m key + 1) (m_counters m)\<rparr>)))"

definition Milliseconds :: "duration \<Rightarrow> int" where
  "Milliseconds d = go_div d Millisecond"

definition observe :: "64 word \<Rightarrow> timerStats \<Rightarrow> timerStats" where
  "observe millis stats =
     \<lparr>ts_Count = ts_Count stats + 1, ts_TotalMillis = ts_TotalMillis stats + millis,
      ts_MaxMillis = (if ts_MaxMillis stats < millis then millis else ts_MaxMillis stats)\<rparr>"

definition ObserveDuration :: "string \<Rightarrow> duration \<Rightarrow> labels \<Rightarrow> Metrics option \<Rightarrow> Metrics option" where
  "ObserveDuration name d ls metrics =
     (case metrics of None \<Rightarrow> None
      | Some m \<Rightarrow>
          (let millis = word_of_int (Milliseconds d);
               key = metricKey name (withServiceLabel (m_service m) ls)
           in Some (m\<lparr>m_timers := fmupd key (observe millis (timer m key)) (m_timers m)\<rparr>)))"

text \<open>\<open>Render\<close> with the iteration orders of the two maps.\<close>

definition newline :: string where
  "newline = [CHR 0x0A]"

definition word_dec :: "64 word \<Rightarrow> string" where
  "word_dec n = Itoa (uint n)"

definition counter_line :: "Metrics \<Rightarrow> string \<Rightarrow> string" where
  "counter_line m key = key @ '' '' @ word_dec (counter m key) @ newline"

definition timer_lines :: "Metrics \<Rightarrow> string \<Rightarrow> string" where
  "timer_lines m key =
     (let stats = timer m key in
      key @ ''_count '' @ word_dec (ts_Count stats) @ newline @
      key @ ''_total_ms '' @ word_dec (ts_TotalMillis stats) @ newline @
      key @ ''_max_ms '' @ word_dec (ts_MaxMillis stats) @ newline)"

definition metrics_unavailable :: string where
  "metrics_unavailable = ''# metrics unavailable'' @ newline"

definition Render :: "string list \<Rightarrow> string list \<Rightarrow> Metrics option \<Rightarrow> string" where
  "Render counterOrder timerOrder metrics =
     (case metrics of None \<Rightarrow> metrics_unavailable
      | Some m \<Rightarrow> concat (map (counter_line m) (sort counterOrder)) @ concat (map (timer_lines m) (sort timerOrder)))"

section \<open>Specification: what a collector has seen\<close>

datatype metric_event = EvInc string labels | EvObserve string duration labels

fun metrics_step :: "metric_event \<Rightarrow> Metrics option \<Rightarrow> Metrics option" where
  "metrics_step (EvInc name ls) m = Inc name ls m"
| "metrics_step (EvObserve name d ls) m = ObserveDuration name d ls m"

text \<open>The events that concern one key.\<close>

fun inc_hits :: "string \<Rightarrow> string \<Rightarrow> metric_event list \<Rightarrow> nat" where
  "inc_hits svc key [] = 0"
| "inc_hits svc key (EvInc name ls # evs) =
     (if metricKey name (withServiceLabel svc ls) = key then 1 else 0) + inc_hits svc key evs"
| "inc_hits svc key (EvObserve name d ls # evs) = inc_hits svc key evs"

fun observed :: "string \<Rightarrow> string \<Rightarrow> metric_event list \<Rightarrow> 64 word list" where
  "observed svc key [] = []"
| "observed svc key (EvInc name ls # evs) = observed svc key evs"
| "observed svc key (EvObserve name d ls # evs) =
     (if metricKey name (withServiceLabel svc ls) = key then [word_of_int (Milliseconds d)] else []) @ observed svc key evs"

text \<open>How the text format reads a label value back.\<close>

fun unescape :: "string \<Rightarrow> string" where
  "unescape [] = []"
| "unescape [c] = [c]"
| "unescape (c # e # s) =
     (if c = CHR 0x5C then (if e = CHR ''n'' then CHR 0x0A else e) # unescape s else c # unescape (e # s))"

section \<open>Lemmas: counting\<close>

lemma step_Some: "\<exists>m'. metrics_step ev (Some m) = Some m' \<and> m_service m' = m_service m"
  by (cases ev) (simp_all add: Inc_def ObserveDuration_def Let_def)

lemma counter_step:
  assumes "metrics_step ev (Some m) = Some m'"
  shows "counter m' key = counter m key + of_nat (inc_hits (m_service m) key [ev])"
  using assms by (cases ev) (auto simp: Inc_def ObserveDuration_def Let_def counter_def)

lemma timer_step:
  assumes "metrics_step ev (Some m) = Some m'"
  shows "timer m' key = fold observe (observed (m_service m) key [ev]) (timer m key)"
  using assms by (cases ev) (auto simp: Inc_def ObserveDuration_def Let_def timer_def)

lemma inc_hits_Cons: "inc_hits svc key (ev # evs) = inc_hits svc key [ev] + inc_hits svc key evs"
  by (cases ev) simp_all

lemma observed_Cons: "observed svc key (ev # evs) = observed svc key [ev] @ observed svc key evs"
  by (cases ev) simp_all

lemma metrics_run:
  "\<exists>m'. fold metrics_step evs (Some m) = Some m' \<and> m_service m' = m_service m \<and>
     counter m' key = counter m key + of_nat (inc_hits (m_service m) key evs) \<and>
     timer m' key = fold observe (observed (m_service m) key evs) (timer m key)"
proof (induction evs arbitrary: m)
  case (Cons ev evs)
  obtain m1 where m1: "metrics_step ev (Some m) = Some m1" "m_service m1 = m_service m" using step_Some by blast
  from Cons [of m1] m1 show ?case
    by (auto simp: counter_step [OF m1(1)] timer_step [OF m1(1)] inc_hits_Cons [of _ _ ev evs] observed_Cons [of _ _ ev evs])
qed simp

lemma fold_observe:
  "fold observe ws t = \<lparr>ts_Count = ts_Count t + of_nat (length ws), ts_TotalMillis = ts_TotalMillis t + sum_list ws,
     ts_MaxMillis = fold max ws (ts_MaxMillis t)\<rparr>"
  by (induction ws arbitrary: t) (auto simp: observe_def max_def not_less)

lemma fold_max: "fold max ws (x :: 64 word) = Max (insert x (set ws))"
proof (induction ws arbitrary: x)
  case (Cons w ws)
  then show ?case by (cases "ws = []") (auto simp: max.assoc max.commute max.left_commute)
qed simp

section \<open>Lemmas: label values\<close>

definition esc :: "char \<Rightarrow> string" where
  "esc c = (if c = CHR 0x5C then [CHR 0x5C, CHR 0x5C] else if c = CHR 0x22 then [CHR 0x5C, CHR 0x22]
     else if c = CHR 0x0A then [CHR 0x5C, CHR ''n''] else [c])"

lemma labelValue_esc:
  "labelValue v = (if TrimSpace v = [] then ''unknown'' else concat (map esc (TrimSpace v)))"
proof -
  have "ReplaceAll (ReplaceAll (ReplaceAll s (CHR 0x5C) [CHR 0x5C, CHR 0x5C]) (CHR 0x22) [CHR 0x5C, CHR 0x22])
      (CHR 0x0A) [CHR 0x5C, CHR ''n''] = concat (map esc s)" for s
    by (induction s) (auto simp: ReplaceAll_def esc_def)
  then show ?thesis by (cases "TrimSpace v") (auto simp: labelValue_def Let_def esc_def)
qed

lemma unescape_esc: "unescape (concat (map esc s)) = s"
proof (induction s)
  case (Cons c s)
  have "unescape (c # concat (map esc s)) = c # unescape (concat (map esc s))" if "c \<noteq> CHR 0x5C"
    using that by (cases "concat (map esc s)") (simp_all del: concat_eq_Nil_conv)
  with Cons show ?case by (auto simp: esc_def [of c])
qed simp

lemma esc_prefix: "has_prefix (concat (map esc s)) p \<Longrightarrow> CHR 0x5C \<notin> set p \<Longrightarrow> has_prefix s p"
proof (induction s arbitrary: p)
  case (Cons c s)
  then show ?case by (cases p) (auto simp: has_prefix_def esc_def split: if_splits)
qed (simp add: has_prefix_def)

lemma esc_suffix:
  "has_prefix (rev (concat (map esc s))) p \<Longrightarrow> set p \<inter> {CHR 0x5C, CHR 0x22, CHR ''n''} = {} \<Longrightarrow> has_prefix (rev s) p"
proof (induction s arbitrary: p rule: rev_induct)
  case (snoc c s)
  then show ?case by (cases p) (auto simp: has_prefix_def esc_def split: if_splits)
qed (simp add: has_prefix_def)

lemma space_plain: "list_all (\<lambda>p. set p \<inter> {CHR 0x5C, CHR 0x22, CHR ''n''} = {}) space_encodings"
  by (simp add: space_encodings_def)

lemma TrimSpace_esc:
  assumes "TrimSpace v = v"
  shows "TrimSpace (concat (map esc v)) = concat (map esc v)"
proof -
  let ?e = "concat (map esc v)"
  note lead = TrimSpace_lead [of v, unfolded assms]
  have "\<not> has_prefix ?e p" if "p \<in> set space_encodings" for p
    using esc_prefix [of v p] lead(1) that space_plain by (auto simp: lead_space_0 list_ex_iff list_all_iff)
  then have "lead_space space_encodings ?e = 0" by (auto simp: lead_space_0 list_ex_iff)
  moreover have "\<not> has_prefix (rev ?e) p" if "p \<in> set (map rev space_encodings)" for p
    using esc_suffix [of v p] lead(2) that space_plain by (auto simp: lead_space_0 list_ex_iff list_all_iff)
  then have "lead_space (map rev space_encodings) (rev ?e) = 0" by (auto simp: lead_space_0 list_ex_iff)
  ultimately show ?thesis by (simp add: TrimSpace_def trim_left_id trim_right_id)
qed

lemma esc_longer: "set v \<inter> {CHR 0x5C, CHR 0x22, CHR 0x0A} \<noteq> {} \<Longrightarrow> concat (map esc v) \<noteq> v"
proof -
  have le: "length s \<le> length (concat (map esc s))" for s by (induction s) (auto simp: esc_def)
  have lt: "length v < length (concat (map esc v))" if "set v \<inter> {CHR 0x5C, CHR 0x22, CHR 0x0A} \<noteq> {}"
    using that
  proof (induction v)
    case (Cons c v)
    show ?case
    proof (cases "c \<in> {CHR 0x5C, CHR 0x22, CHR 0x0A}")
      case True
      then have "length (esc c) = 2" by (auto simp: esc_def)
      with le [of v] show ?thesis by simp
    next
      case False
      with Cons.prems have "set v \<inter> {CHR 0x5C, CHR 0x22, CHR 0x0A} \<noteq> {}" by auto
      from Cons.IH [OF this] False show ?thesis by (simp add: esc_def)
    qed
  qed simp
  show "concat (map esc v) \<noteq> v" if "set v \<inter> {CHR 0x5C, CHR 0x22, CHR 0x0A} \<noteq> {}"
    using lt [OF that] by (metis less_irrefl)
qed

lemma plain_names:
  "labelName ''method'' = ''method''" "labelName ''path'' = ''path''" "labelName ''status'' = ''status''"
  by code_simp+

section \<open>Properties\<close>

text \<open>
  C36. Metrics are exact: after any sequence of increments and observations a counter holds
  the number of increments of its key, and a timer holds the number, the sum and the
  maximum of the observed milliseconds of its key, all modulo \<open>2 ^ 64\<close>.
\<close>

theorem metrics_exact:
  "\<exists>m. fold metrics_step evs (Some (NewMetrics service)) = Some m \<and>
     counter m key = of_nat (inc_hits (m_service m) key evs) \<and>
     timer m key =
       \<lparr>ts_Count = of_nat (length (observed (m_service m) key evs)),
        ts_TotalMillis = sum_list (observed (m_service m) key evs),
        ts_MaxMillis = Max (insert 0 (set (observed (m_service m) key evs)))\<rparr>"
proof -
  have z: "counter (NewMetrics service) key = 0"
    "timer (NewMetrics service) key = \<lparr>ts_Count = 0, ts_TotalMillis = 0, ts_MaxMillis = 0\<rparr>"
    by (simp_all add: NewMetrics_def counter_def timer_def Let_def)
  from metrics_run [of evs "NewMetrics service" key] show ?thesis
    by (auto simp: z fold_observe fold_max)
qed

text \<open>
  Label values are escaped twice: a request path that contains a quote, a backslash or
  a line feed is not the path that a reader of the exposition gets back. The reader gets
  the escaped text.
\<close>

theorem label_double_escaped:
  assumes "TrimSpace path = path" and "set path \<inter> {CHR 0x5C, CHR 0x22, CHR 0x0A} \<noteq> {}"
    and "ls = withServiceLabel service [(''method'', meth), (''path'', path), (''status'', status)]"
  shows "\<exists>v. label_text ls ''path'' = ''path='' @ [CHR 0x22] @ v @ [CHR 0x22] \<and>
    unescape v = labelValue path \<and> unescape v \<noteq> path"
proof -
  have ne: "path \<noteq> []" using assms(2) by auto
  then have l: "labelValue path = concat (map esc path)" by (simp add: labelValue_esc assms(1))
  have "map_of ls ''path'' = Some (labelValue path)"
    by (simp add: assms(3) withServiceLabel_def plain_names update_conv')
  then have t: "label_text ls ''path'' = ''path='' @ [CHR 0x22] @ labelValue (labelValue path) @ [CHR 0x22]"
    by (simp add: label_text_def plain_names)
  have "concat (map esc path) \<noteq> []" using ne by (cases path) (auto simp: esc_def)
  then have "labelValue (labelValue path) = concat (map esc (labelValue path))"
    unfolding l labelValue_esc [of "concat (map esc path)"] TrimSpace_esc [OF assms(1)] by (rule if_not_P)
  with t esc_longer [OF assms(2)] l show ?thesis by (metis unescape_esc)
qed

section \<open>Witnesses\<close>

theorem label_double_escaped_witness:
  "\<exists>v. label_text (withServiceLabel ''api'' [(''method'', ''GET''), (''path'', [CHR ''/'', CHR 0x22]), (''status'', ''404'')]) ''path''
     = ''path='' @ [CHR 0x22] @ v @ [CHR 0x22] \<and> unescape v \<noteq> [CHR ''/'', CHR 0x22]"
proof -
  have "TrimSpace [CHR ''/'', CHR 0x22] = [CHR ''/'', CHR 0x22]" by code_simp
  moreover have "set [CHR ''/'', CHR 0x22] \<inter> {CHR 0x5C, CHR 0x22, CHR 0x0A} \<noteq> {}" by simp
  ultimately obtain v where "label_text (withServiceLabel ''api'' [(''method'', ''GET''), (''path'', [CHR ''/'', CHR 0x22]), (''status'', ''404'')]) ''path''
     = ''path='' @ [CHR 0x22] @ v @ [CHR 0x22]" "unescape v \<noteq> [CHR ''/'', CHR 0x22]"
    using label_double_escaped [OF _ _ refl] by metis
  then show ?thesis by (intro exI conjI)
qed

end
