(* ===== verification/Api_Rpc.thy ===== *)
theory Api_Rpc
  imports Rpc_Protocol Metrics
begin

text \<open>
  The RPC side of the API server: error mapping, request context, interceptors
  (\<open>internal/api\<close>, \<open>internal/observability/rpc.go\<close>) and the service handlers
  (\<open>internal/api/handlers\<close>). What a call reads besides its request (clock, random
  bytes, a new UUID, the time it took) is the record \<open>call_env\<close>; log lines are kept in
  the state.
\<close>

section \<open>Definitions: state of the API process\<close>

record log_entry =
  le_level :: string
  le_msg :: string
  le_attrs :: "(string \<times> string) list"

record 'w api_state =
  st_stores :: 'w
  st_metrics :: "Metrics option"
  st_log :: "log_entry list"

definition on_stores :: "('w \<Rightarrow> 'a \<times> 'w) \<Rightarrow> 'w api_state \<Rightarrow> 'a \<times> 'w api_state" where
  "on_stores f st = (case f (st_stores st) of (r, w) \<Rightarrow> (r, st\<lparr>st_stores := w\<rparr>))"

definition add_log :: "log_entry \<Rightarrow> 'w api_state \<Rightarrow> 'w api_state" where
  "add_log e st = st\<lparr>st_log := st_log st @ [e]\<rparr>"

record call_env =
  env_lib :: text_lib
  env_fold :: "string \<Rightarrow> string \<Rightarrow> bool"
  env_lower :: "string \<Rightarrow> string"
  env_argon :: argon
  env_rand :: random
  env_uuid :: string
  env_now :: time
  env_elapsed :: duration

section \<open>Definitions: errors and context\<close>

definition connectCodeAndMessage :: "gerr \<Rightarrow> Code \<times> string" where
  "connectCodeAndMessage err =
     (if errors_is err ErrInvalidArgument then (CodeInvalidArgument, ''invalid argument'')
      else if errors_is err ErrUnauthenticated then (CodeUnauthenticated, ''unauthenticated'')
      else if errors_is err ErrPermissionDenied then (CodePermissionDenied, ''permission denied'')
      else if errors_is err ErrAlreadyExists then (CodeAlreadyExists, ''already exists'')
      else if errors_is err ErrNotFound then (CodeNotFound, ''not found'')
      else if errors_is err ErrConflict then (CodeFailedPrecondition, ''conflict'')
      else if errors_is err ErrUnavailable then (CodeUnavailable, ''unavailable'')
      else (CodeInternal, ''internal error''))"

definition connect_error :: "gerr \<Rightarrow> ConnectError" where
  "connect_error err = (case connectCodeAndMessage err of (code, message) \<Rightarrow> NewError code message)"

definition ToConnectError :: "gerr option \<Rightarrow> ConnectError option" where
  "ToConnectError err = (case err of None \<Rightarrow> None | Some e \<Rightarrow> Some (connect_error e))"

text \<open>\<open>if err != nil { return nil, api.ToConnectError(err) }\<close>\<close>

definition connected :: "'a result \<times> 'st \<Rightarrow> 'a rpc \<times> 'st" where
  "connected x = (map_sum connect_error id (fst x), snd x)"

definition bindR :: "'a rpc \<times> 'st \<Rightarrow> ('a \<Rightarrow> 'st \<Rightarrow> 'b rpc \<times> 'st) \<Rightarrow> 'b rpc \<times> 'st" where
  "bindR x k = (case x of (Inl e, s) \<Rightarrow> (Inl e, s) | (Inr a, s) \<Rightarrow> k a s)"

definition ContextWithAuthUser :: "Context \<Rightarrow> AuthUser \<Rightarrow> Context" where
  "ContextWithAuthUser ctx user = ctx\<lparr>ctx_authUser := Some user\<rparr>"

definition AuthUserFromContext :: "Context \<Rightarrow> AuthUser option" where
  "AuthUserFromContext ctx = ctx_authUser ctx"

definition RequireAuthUser :: "Context \<Rightarrow> AuthUser result" where
  "RequireAuthUser ctx =
     (case AuthUserFromContext ctx of None \<Rightarrow> Inl (Sentinel ErrUnauthenticated) | Some user \<Rightarrow> Inr user)"

definition ContextWithRequestID :: "Context \<Rightarrow> string \<Rightarrow> Context" where
  "ContextWithRequestID ctx requestID = ctx\<lparr>ctx_requestID := Some requestID\<rparr>"

definition RequestIDFromContext :: "Context \<Rightarrow> string" where
  "RequestIDFromContext ctx = (case ctx_requestID ctx of None \<Rightarrow> [] | Some r \<Rightarrow> r)"

section \<open>Definitions: authentication\<close>

definition PublicProcedures :: "string set" where
  "PublicProcedures =
     {''/rpg.v1.SystemService/Ping'', ''/rpg.v1.AuthService/Register'', ''/rpg.v1.AuthService/Login''}"

definition BearerToken :: "(string \<Rightarrow> string \<Rightarrow> bool) \<Rightarrow> string \<Rightarrow> string result" where
  "BearerToken folds header =
     (case Cut (TrimSpace header) (CHR '' '') of (scheme, value, ok) \<Rightarrow>
        if \<not> ok then Inl (Sentinel ErrUnauthenticated)
        else if \<not> EqualFold folds scheme ''Bearer'' then Inl (Sentinel ErrUnauthenticated)
        else (let token = TrimSpace value in
              if token = [] \<or> ContainsAny token (CHR 0x20 # control_whitespace) then Inl (Sentinel ErrUnauthenticated)
              else Inr token))"

definition NewAuthInterceptor ::
  "call_env \<Rightarrow> 'w SessionStoreI option \<Rightarrow> string set option list \<Rightarrow> 'w api_state Interceptor" where
  "NewAuthInterceptor env sessions publicMethods next ctx req st =
     (let public = (case publicMethods of Some p # _ \<Rightarrow> p | _ \<Rightarrow> PublicProcedures) in
      if Procedure req \<in> public then next ctx req st
      else
        (case sessions of
           None \<Rightarrow> (Inl (connect_error (Sentinel ErrUnavailable)), st)
         | Some ss \<Rightarrow>
             bindR (connected (BearerToken (env_fold env) (header_Get (Header req) ''Authorization''), st)) (\<lambda>token st1.
             bindR (connected (on_stores (si_GetSessionUserID ss token) st1)) (\<lambda>userID st2.
             next (ContextWithAuthUser ctx \<lparr>au_UserID = userID, au_SessionToken = token\<rparr>) req st2))))"

section \<open>Definitions: rate limiting\<close>

definition defaultAuthRateLimitWindow :: duration where
  "defaultAuthRateLimitWindow = 60 * Second"

definition defaultAuthRateLimitBurst :: int where
  "defaultAuthRateLimitBurst = 10"

record 'w RateLimitConfig =
  rlc_Window :: duration
  rlc_Burst :: int
  rlc_Procedures :: "string set option"
  rlc_KeyFunc :: "(Context \<Rightarrow> AnyRequest \<Rightarrow> string) option"
  rlc_Limiter :: "(string \<Rightarrow> 'w \<Rightarrow> bool result \<times> 'w) option"

fun forwarded_parts :: "(string \<Rightarrow> string \<Rightarrow> bool) \<Rightarrow> string list \<Rightarrow> string" where
  "forwarded_parts folds [] = []"
| "forwarded_parts folds (part # parts) =
     (case Cut (TrimSpace part) (CHR ''='') of (key, raw, ok) \<Rightarrow>
        if \<not> ok \<or> \<not> EqualFold folds key ''for'' then forwarded_parts folds parts
        else (let raw = TrimSpace (Trim raw (CHR 0x22)) in
              if raw \<noteq> [] then raw else forwarded_parts folds parts))"

definition forwardedFor :: "(string \<Rightarrow> string \<Rightarrow> bool) \<Rightarrow> string \<Rightarrow> string" where
  "forwardedFor folds value = forwarded_parts folds (Split value (CHR '';''))"

definition firstForwardedIP :: "string \<Rightarrow> string" where
  "firstForwardedIP value = TrimSpace (fst (Cut value (CHR '','')))"

fun first_header :: "header \<Rightarrow> string list \<Rightarrow> string" where
  "first_header h [] = ''anonymous''"
| "first_header h (name # names) =
     (let value = header_Get h name in if value \<noteq> [] then firstForwardedIP value else first_header h names)"

definition defaultRateLimitKey :: "(string \<Rightarrow> string \<Rightarrow> bool) \<Rightarrow> Context \<Rightarrow> AnyRequest \<Rightarrow> string" where
  "defaultRateLimitKey folds ctx req =
     (let value = forwardedFor folds (header_Get (Header req) ''Forwarded'') in
      if value \<noteq> [] then value else first_header (Header req) [''X-Forwarded-For'', ''X-Real-IP''])"

definition rate_limit_defaults :: "call_env \<Rightarrow> 'w RateLimitConfig \<Rightarrow> 'w RateLimitConfig" where
  "rate_limit_defaults env cfg =
     cfg\<lparr>rlc_Window := (if rlc_Window cfg \<le> 0 then defaultAuthRateLimitWindow else rlc_Window cfg),
        rlc_Burst := (if rlc_Burst cfg \<le> 0 then defaultAuthRateLimitBurst else rlc_Burst cfg),
        rlc_Procedures := (case rlc_Procedures cfg of
            None \<Rightarrow> Some {''/rpg.v1.AuthService/Register'', ''/rpg.v1.AuthService/Login''} | Some p \<Rightarrow> Some p),
        rlc_KeyFunc := (case rlc_KeyFunc cfg of None \<Rightarrow> Some (defaultRateLimitKey (env_fold env)) | Some f \<Rightarrow> Some f)\<rparr>"

definition limiter_unavailable :: ConnectError where
  "limiter_unavailable = NewError CodeUnavailable ''rate limiter unavailable''"

definition limited_call ::
  "(string \<Rightarrow> 'w \<Rightarrow> bool result \<times> 'w) option \<Rightarrow> (Context \<Rightarrow> AnyRequest \<Rightarrow> string) \<Rightarrow> 'w api_state Interceptor" where
  "limited_call limiter keyFunc next ctx req st =
     (case limiter of
        None \<Rightarrow> (Inl limiter_unavailable, st)
      | Some allow \<Rightarrow>
          (let key = TrimSpace (keyFunc ctx req);
               key = (if key = [] then ''unknown'' else key) in
           case on_stores (allow (Procedure req @ '':'' @ key)) st of
             (Inl e, st1) \<Rightarrow> (Inl limiter_unavailable, st1)
           | (Inr allowed, st1) \<Rightarrow>
               if \<not> allowed then (Inl (NewError CodeResourceExhausted ''rate limit exceeded''), st1)
               else next ctx req st1))"

definition NewAuthRateLimitInterceptor :: "call_env \<Rightarrow> 'w RateLimitConfig \<Rightarrow> 'w api_state Interceptor" where
  "NewAuthRateLimitInterceptor env config next ctx req st =
     (let cfg = rate_limit_defaults env config in
      case (rlc_Procedures cfg, rlc_KeyFunc cfg) of
        (Some procedures, Some keyFunc) \<Rightarrow>
          if Procedure req \<notin> procedures then next ctx req st
          else limited_call (rlc_Limiter cfg) keyFunc next ctx req st
      | _ \<Rightarrow> next ctx req st)"

section \<open>Definitions: logging and metrics of RPCs\<close>

definition error_of :: "'a rpc \<Rightarrow> ConnectError option" where
  "error_of r = (case r of Inl e \<Rightarrow> Some e | Inr _ \<Rightarrow> None)"

definition NewRPCLoggingInterceptor :: "call_env \<Rightarrow> 'w api_state Interceptor" where
  "NewRPCLoggingInterceptor env next ctx req st =
     (case next ctx req st of (res, st1) \<Rightarrow>
        let attrs = [(''procedure'', Procedure req), (''duration_ms'', Itoa (Milliseconds (env_elapsed env))),
                     (''request_id'', RequestIDFromContext ctx)] in
        case error_of res of
          Some e \<Rightarrow>
            (res, add_log \<lparr>le_level = ''WARN'', le_msg = ''rpc failed'', le_attrs = attrs @
               [(''code'', code_String (CodeOf (Some e))), (''error'', ce_Message e)]\<rparr> st1)
        | None \<Rightarrow> (res, add_log \<lparr>le_level = ''INFO'', le_msg = ''rpc completed'', le_attrs = attrs\<rparr> st1))"

definition rpcRequestsMetric :: string where
  "rpcRequestsMetric = ''rpg_rpc_requests_total''"

definition rpcRequestLatencyMetric :: string where
  "rpcRequestLatencyMetric = ''rpg_rpc_request_duration''"

definition with_metrics :: "(Metrics option \<Rightarrow> Metrics option) \<Rightarrow> 'w api_state \<Rightarrow> 'w api_state" where
  "with_metrics f st = st\<lparr>st_metrics := f (st_metrics st)\<rparr>"

definition RPCInterceptor :: "call_env \<Rightarrow> 'w api_state Interceptor" where
  "RPCInterceptor env next ctx req st =
     (case next ctx req st of (res, st1) \<Rightarrow>
        let code = code_String (CodeOf (error_of res));
            ls = [(''procedure'', Procedure req), (''code'', code)] in
        (res, with_metrics (\<lambda>m. ObserveDuration rpcRequestLatencyMetric (env_elapsed env) ls (Inc rpcRequestsMetric ls m)) st1))"

section \<open>Definitions: time in RFC 3339\<close>

text \<open>
  \<open>time.RFC3339Nano\<close> in UTC: the civil date of a day number counted from 1 March of
  the year 0, in eras of 400 years; the fraction without trailing zeros.
\<close>

definition civil :: "int \<Rightarrow> int \<times> int \<times> int" where
  "civil days =
     (let z = days + 719468; era = z div 146097; doe = z mod 146097;
          yoe = (doe - doe div 1460 + doe div 36524 - doe div 146096) div 365;
          doy = doe - (365 * yoe + yoe div 4 - yoe div 100);
          mp = (5 * doy + 2) div 153;
          d = doy - (153 * mp + 2) div 5 + 1;
          m = (if mp < 10 then mp + 3 else mp - 9);
          y = yoe + era * 400 + (if m \<le> 2 then 1 else 0)
      in (y, m, d))"

definition padded :: "nat \<Rightarrow> int \<Rightarrow> string" where
  "padded width n = (let s = Itoa n in replicate (width - length s) (CHR ''0'') @ s)"

definition fraction :: "int \<Rightarrow> string" where
  "fraction nanos =
     (if nanos = 0 then []
      else CHR ''.'' # rev (dropWhile (\<lambda>c. c = CHR ''0'') (rev (padded 9 nanos))))"

definition Format_RFC3339Nano :: "time \<Rightarrow> string" where
  "Format_RFC3339Nano t =
     (let secs = t div Second; days = secs div 86400; sod = secs mod 86400 in
      case civil days of (y, m, d) \<Rightarrow>
        padded 4 y @ ''-'' @ padded 2 m @ ''-'' @ padded 2 d @ ''T'' @ padded 2 (sod div 3600) @ '':'' @
        padded 2 (sod div 60 mod 60) @ '':'' @ padded 2 (sod mod 60) @ fraction (t mod Second) @ ''Z'')"

section \<open>Definitions: service handlers\<close>

record SystemHandler =
  ServiceName :: string
  sh_Now :: "time option"

definition NewSystemHandler :: "string \<Rightarrow> SystemHandler" where
  "NewSystemHandler serviceName = \<lparr>ServiceName = serviceName, sh_Now = None\<rparr>"

text \<open>\<open>Now\<close> is a stubbed clock or, here \<open>None\<close>, the clock of the process.\<close>

definition h_Ping :: "call_env \<Rightarrow> SystemHandler \<Rightarrow> (PingRequest, PingResponse, 'st) rpc_method" where
  "h_Ping env h ctx req st =
     (let now = (case sh_Now h of None \<Rightarrow> env_now env | Some t \<Rightarrow> t);
          serviceName = (if ServiceName h = [] then ''api'' else ServiceName h)
      in (Inr \<lparr>ping_Service = serviceName, ping_Message = ''pong'', ping_ServerTime = Format_RFC3339Nano now\<rparr>, st))"

definition h_Register :: "call_env \<Rightarrow> 'w AuthService option \<Rightarrow> (RegisterRequest, RegisterResponse, 'w api_state) rpc_method" where
  "h_Register env auth ctx req st =
     bindR (connected (on_stores (Register (env_lib env) (env_argon env) (env_rand env) (env_uuid env) auth
       (rreq_Email req) (rreq_Password req)) st)) (\<lambda>result st1.
     (Inr \<lparr>rres_UserId = ar_UserID result, rres_SessionToken = ar_SessionToken result\<rparr>, st1))"

definition h_Login :: "call_env \<Rightarrow> 'w AuthService option \<Rightarrow> (LoginRequest, LoginResponse, 'w api_state) rpc_method" where
  "h_Login env auth ctx req st =
     bindR (connected (on_stores (Login (env_lib env) (env_argon env) (env_rand env) auth
       (lreq_Email req) (lreq_Password req)) st)) (\<lambda>result st1.
     (Inr \<lparr>lres_UserId = ar_UserID result, lres_SessionToken = ar_SessionToken result\<rparr>, st1))"

definition h_Logout :: "'w AuthService option \<Rightarrow> (LogoutRequest, LogoutResponse, 'w api_state) rpc_method" where
  "h_Logout auth ctx req st =
     bindR (connected (RequireAuthUser ctx, st)) (\<lambda>authUser st1.
     bindR (connected (on_stores (RevokeSession auth (au_SessionToken authUser)) st1)) (\<lambda>_ st2. (Inr (), st2)))"

definition h_CreateCharacter ::
  "call_env \<Rightarrow> 'w CharacterService option \<Rightarrow> (CreateCharacterRequest, CreateCharacterResponse, 'w api_state) rpc_method" where
  "h_CreateCharacter env characters ctx req st =
     bindR (connected (RequireAuthUser ctx, st)) (\<lambda>user st1.
     bindR (connected (on_stores (svc_CreateCharacter (env_lib env) (env_uuid env) characters
       (au_UserID user) (creq_Name req)) st1)) (\<lambda>characterID st2.
     (Inr \<lparr>cres_CharacterId = characterID\<rparr>, st2)))"

definition characterToProto :: "Character \<Rightarrow> CharacterSummary" where
  "characterToProto character =
     \<lparr>csum_CharacterId = char_ID character, csum_Name = char_Name character, csum_MapId = char_MapID character,
      csum_Position = \<lparr>X = X (char_Position character), Y = Y (char_Position character)\<rparr>\<rparr>"

definition h_ListCharacters ::
  "'w CharacterService option \<Rightarrow> (ListCharactersRequest, ListCharactersResponse, 'w api_state) rpc_method" where
  "h_ListCharacters characters ctx req st =
     bindR (connected (RequireAuthUser ctx, st)) (\<lambda>user st1.
     bindR (connected (on_stores (ListCharacters characters (au_UserID user)) st1)) (\<lambda>cs st2.
     (Inr \<lparr>lc_Characters = map characterToProto cs\<rparr>, st2)))"

definition h_ListGameServers ::
  "'w GameService option \<Rightarrow> (ListGameServersRequest, ListGameServersResponse, 'w api_state) rpc_method" where
  "h_ListGameServers games ctx req st =
     bindR (connected (RequireAuthUser ctx, st)) (\<lambda>_ st1.
     bindR (connected (on_stores (svc_ListGameServers games) st1)) (\<lambda>servers st2.
     (Inr \<lparr>lg_Servers = map (\<lambda>server. \<lparr>gsum_GameServerId = gs_ID server, gsum_GameServerAddr = gs_Addr server,
        gsum_ExpiresInSeconds = 0\<rparr>) servers\<rparr>, st2)))"

definition h_IssueJoinToken ::
  "call_env \<Rightarrow> 'w GameService option \<Rightarrow> (IssueJoinTokenRequest, IssueJoinTokenResponse, 'w api_state) rpc_method" where
  "h_IssueJoinToken env games ctx req st =
     bindR (connected (RequireAuthUser ctx, st)) (\<lambda>user st1.
     bindR (connected (on_stores (IssueJoinToken (env_rand env) (env_now env) games (au_UserID user)
       (jreq_CharacterId req) (jreq_GameServerId req)) st1)) (\<lambda>result st2.
     (Inr \<lparr>jres_JoinToken = ij_JoinToken result, jres_GameServerId = ij_GameServerID result,
           jres_GameServerAddr = ij_GameServerAddr result, jres_ExpiresInSeconds = ij_ExpiresInSeconds result\<rparr>, st2)))"

definition SystemHandler_methods :: "call_env \<Rightarrow> SystemHandler \<Rightarrow> 'st SystemServiceHandler" where
  "SystemHandler_methods env h = \<lparr>sys_Ping = h_Ping env h\<rparr>"

definition NewAuthHandler :: "call_env \<Rightarrow> 'w AuthService option \<Rightarrow> 'w api_state AuthServiceHandler" where
  "NewAuthHandler env authService =
     \<lparr>auth_Register = h_Register env authService, auth_Login = h_Login env authService, auth_Logout = h_Logout authService\<rparr>"

definition NewCharacterHandler :: "call_env \<Rightarrow> 'w CharacterService option \<Rightarrow> 'w api_state CharacterServiceHandler" where
  "NewCharacterHandler env characters =
     \<lparr>chr_CreateCharacter = h_CreateCharacter env characters, chr_ListCharacters = h_ListCharacters characters\<rparr>"

definition NewGameHandler :: "call_env \<Rightarrow> 'w GameService option \<Rightarrow> 'w api_state GameServiceHandler" where
  "NewGameHandler env games =
     \<lparr>game_ListGameServers = h_ListGameServers games, game_IssueJoinToken = h_IssueJoinToken env games\<rparr>"

section \<open>Lemmas\<close>

text \<open>A call without an error is counted under the code that the library gives to unknown errors.\<close>

lemma success_counted_as_unknown:
  assumes "next ctx req st = (Inr res, st1)"
  shows "RPCInterceptor env next ctx req st =
    (Inr res, with_metrics (\<lambda>m. ObserveDuration rpcRequestLatencyMetric (env_elapsed env)
        [(''procedure'', Procedure req), (''code'', ''unknown'')]
      (Inc rpcRequestsMetric [(''procedure'', Procedure req), (''code'', ''unknown'')] m)) st1)"
  using assms by (simp add: RPCInterceptor_def error_of_def CodeOf_def Let_def)

end
