(* ===== verification/Api_Http.thy ===== *)
theory Api_Http
  imports Api_Rpc
begin

text \<open>
  The HTTP side of the API server: response writers and their recorder, middleware,
  health routes, routing and the server life cycle (\<open>internal/api\<close>,
  \<open>internal/observability/http.go\<close>). A handler maps a request, a response writer and
  the state to an outcome, which may be a panic. The encoding of RPC results as HTTP
  responses belongs to the Connect library and is a parameter; redirects of unclean
  paths by the standard mux are left out.
\<close>

section \<open>Definitions: response writers\<close>

text \<open>
  The writer of \<open>net/http\<close>: the header map, the status with the headers that went out
  with it, and the body. The first final status wins; informational ones (1xx except 101)
  do not end the header; statuses without a body discard what is written.
\<close>

record response =
  rp_header :: header
  rp_sent :: "(int \<times> header) option"
  rp_body :: string

definition new_response :: response where
  "new_response = \<lparr>rp_header = (\<lambda>_. []), rp_sent = None, rp_body = []\<rparr>"

definition informational :: "int \<Rightarrow> bool" where
  "informational code = (100 \<le> code \<and> code \<le> 199 \<and> code \<noteq> 101)"

definition body_allowed :: "int \<Rightarrow> bool" where
  "body_allowed code = (\<not> (100 \<le> code \<and> code \<le> 199) \<and> code \<noteq> 204 \<and> code \<noteq> 304)"

definition base_WriteHeader :: "int \<Rightarrow> response \<Rightarrow> response" where
  "base_WriteHeader code r =
     (if rp_sent r \<noteq> None \<or> informational code then r else r\<lparr>rp_sent := Some (code, rp_header r)\<rparr>)"

definition base_Write :: "string \<Rightarrow> response \<Rightarrow> int \<times> response" where
  "base_Write data r =
     (let r1 = base_WriteHeader 200 r in
      case rp_sent r1 of
        Some (code, _) \<Rightarrow>
          if body_allowed code then (int (length data), r1\<lparr>rp_body := rp_body r1 @ data\<rparr>) else (0, r1)
      | None \<Rightarrow> (0, r1))"

text \<open>A writer is the one of \<open>net/http\<close> or a recorder around another writer.\<close>

datatype Writer = BaseWriter response | ResponseRecorder Writer int int

fun writer_header :: "Writer \<Rightarrow> header" where
  "writer_header (BaseWriter r) = rp_header r"
| "writer_header (ResponseRecorder w st n) = writer_header w"

fun SetHeader :: "string \<Rightarrow> string \<Rightarrow> Writer \<Rightarrow> Writer" where
  "SetHeader k v (BaseWriter r) = BaseWriter (r\<lparr>rp_header := header_Set k v (rp_header r)\<rparr>)"
| "SetHeader k v (ResponseRecorder w st n) = ResponseRecorder (SetHeader k v w) st n"

fun WriteHeader :: "int \<Rightarrow> Writer \<Rightarrow> Writer" where
  "WriteHeader code (BaseWriter r) = BaseWriter (base_WriteHeader code r)"
| "WriteHeader code (ResponseRecorder w st n) =
     (if st \<noteq> 0 then ResponseRecorder w st n else ResponseRecorder (WriteHeader code w) code n)"

fun Write :: "string \<Rightarrow> Writer \<Rightarrow> int \<times> Writer" where
  "Write data (BaseWriter r) = (case base_Write data r of (n, r') \<Rightarrow> (n, BaseWriter r'))"
| "Write data (ResponseRecorder w st n) =
     (case Write data w of (k, w') \<Rightarrow> (k, ResponseRecorder w' (if st = 0 then 200 else st) (n + k)))"

text \<open>The fields of a recorder and the writer it wraps.\<close>

fun StatusCode :: "Writer \<Rightarrow> int" where
  "StatusCode (ResponseRecorder w st n) = st"
| "StatusCode (BaseWriter r) = 0"

fun BytesWritten :: "Writer \<Rightarrow> int" where
  "BytesWritten (ResponseRecorder w st n) = n"
| "BytesWritten (BaseWriter r) = 0"

fun inner :: "Writer \<Rightarrow> Writer" where
  "inner (ResponseRecorder w st n) = w"
| "inner (BaseWriter r) = BaseWriter r"

fun base_of :: "Writer \<Rightarrow> response" where
  "base_of (BaseWriter r) = r"
| "base_of (ResponseRecorder w st n) = base_of w"

section \<open>Definitions: handlers and middleware\<close>

record HttpRequest =
  hr_Method :: string
  hr_Path :: string
  hr_Header :: header
  hr_Body :: string
  hr_RemoteAddr :: string
  hr_Ctx :: Context

type_synonym 'st Handler = "HttpRequest \<Rightarrow> Writer \<times> 'st \<Rightarrow> unit outcome \<times> Writer \<times> 'st"
type_synonym 'st Middleware = "'st Handler \<Rightarrow> 'st Handler"

definition returned :: "Writer \<times> 'st \<Rightarrow> unit outcome \<times> Writer \<times> 'st" where
  "returned x = (Returned (), x)"

definition ChainMiddleware :: "'st Handler \<Rightarrow> 'st Middleware option list \<Rightarrow> 'st Handler" where
  "ChainMiddleware handler mws = foldr (\<lambda>mw h. case mw of None \<Rightarrow> h | Some f \<Rightarrow> f h) mws handler"

definition requestIDHeader :: string where
  "requestIDHeader = ''X-Request-Id''"

definition normalizeRequestID :: "string \<Rightarrow> string \<Rightarrow> string" where
  "normalizeRequestID uuid raw = (let requestID = TrimSpace raw in if requestID \<noteq> [] then requestID else uuid)"

definition WithRequestID :: "call_env \<Rightarrow> 'st Middleware" where
  "WithRequestID env next r x =
     (let requestID = normalizeRequestID (env_uuid env) (header_Get (hr_Header r) requestIDHeader)
      in next (r\<lparr>hr_Ctx := ContextWithRequestID (hr_Ctx r) requestID\<rparr>)
           (SetHeader requestIDHeader requestID (fst x), snd x))"

definition panic_body :: string where
  "panic_body = ''{'' @ [CHR 0x22] @ ''status'' @ [CHR 0x22] @ '':'' @ [CHR 0x22] @ ''error'' @ [CHR 0x22] @ '','' @
     [CHR 0x22] @ ''message'' @ [CHR 0x22] @ '':'' @ [CHR 0x22] @ ''internal error'' @ [CHR 0x22] @ ''}''"

definition request_attrs :: "HttpRequest \<Rightarrow> (string \<times> string) list" where
  "request_attrs r = [(''method'', hr_Method r), (''path'', hr_Path r),
     (''request_id'', RequestIDFromContext (hr_Ctx r)), (''remote_addr'', hr_RemoteAddr r)]"

definition RecoveryMiddleware :: "'w api_state Middleware" where
  "RecoveryMiddleware next r x =
     (case next r x of
        (Returned _, y) \<Rightarrow> returned y
      | (Panicked, w1, st1) \<Rightarrow>
          (let st2 = add_log \<lparr>le_level = ''ERROR'', le_msg = ''http panic recovered'', le_attrs = request_attrs r\<rparr> st1;
               w2 = WriteHeader 500 (SetHeader ''Content-Type'' ''application/json'' w1)
           in returned (snd (Write panic_body w2), st2)))"

text \<open>\<open>statusCode := rec.StatusCode; if statusCode == 0 { statusCode = http.StatusOK }\<close>\<close>

definition final_status :: "Writer \<Rightarrow> int" where
  "final_status rec = (if StatusCode rec = 0 then 200 else StatusCode rec)"

definition LoggingMiddleware :: "call_env \<Rightarrow> 'w api_state Middleware" where
  "LoggingMiddleware env next r x =
     (case next r (ResponseRecorder (fst x) 0 0, snd x) of
        (Panicked, rec, st1) \<Rightarrow> (Panicked, inner rec, st1)
      | (Returned _, rec, st1) \<Rightarrow>
          returned (inner rec, add_log \<lparr>le_level = ''INFO'', le_msg = ''http request'', le_attrs = request_attrs r @
            [(''status'', Itoa (final_status rec)), (''bytes'', Itoa (BytesWritten rec)),
             (''duration_ms'', Itoa (Milliseconds (env_elapsed env)))]\<rparr> st1))"

definition httpRequestsMetric :: string where
  "httpRequestsMetric = ''rpg_http_requests_total''"

definition httpRequestLatencyMetric :: string where
  "httpRequestLatencyMetric = ''rpg_http_request_duration''"

definition not_found_text :: string where
  "not_found_text = ''404 page not found'' @ newline"

definition NotFound :: "'st Handler" where
  "NotFound r x =
     returned (snd (Write not_found_text (WriteHeader 404 (SetHeader ''X-Content-Type-Options'' ''nosniff''
       (SetHeader ''Content-Type'' ''text/plain; charset=utf-8'' (fst x))))), snd x)"

definition http_labels :: "HttpRequest \<Rightarrow> int \<Rightarrow> labels" where
  "http_labels r status = [(''method'', hr_Method r), (''path'', hr_Path r), (''status'', Itoa status)]"

definition HTTPMiddleware :: "call_env \<Rightarrow> 'w api_state Handler option \<Rightarrow> 'w api_state Handler" where
  "HTTPMiddleware env next r x =
     (let next = (case next of None \<Rightarrow> NotFound | Some h \<Rightarrow> h) in
      case next r (ResponseRecorder (fst x) 0 0, snd x) of
        (Panicked, rec, st1) \<Rightarrow> (Panicked, inner rec, st1)
      | (Returned _, rec, st1) \<Rightarrow>
          (let ls = http_labels r (final_status rec) in
           returned (inner rec, with_metrics (\<lambda>m.
             ObserveDuration httpRequestLatencyMetric (env_elapsed env) ls (Inc httpRequestsMetric ls m)) st1)))"

definition isOriginAllowed :: "(string \<Rightarrow> string \<Rightarrow> bool) \<Rightarrow> string \<Rightarrow> string list \<Rightarrow> bool" where
  "isOriginAllowed folds origin allowedOrigins =
     list_ex (\<lambda>allowed. allowed = ''*'' \<or> EqualFold folds origin allowed) allowedOrigins"

definition cors_headers :: "string \<Rightarrow> Writer \<Rightarrow> Writer" where
  "cors_headers origin w =
     SetHeader ''Access-Control-Expose-Headers'' (Join [''Connect-Protocol-Version'', ''Grpc-Message'', ''Grpc-Status'',
         ''Grpc-Status-Details-Bin'', ''X-Request-Id''] '', '')
     (SetHeader ''Access-Control-Allow-Headers'' (Join [''Authorization'', ''Content-Type'', ''Connect-Protocol-Version'',
         ''Connect-Timeout-Ms'', ''Grpc-Timeout'', ''X-Grpc-Web'', ''X-Request-Id'', ''X-User-Agent''] '', '')
     (SetHeader ''Access-Control-Allow-Methods'' ''GET, POST, OPTIONS''
     (SetHeader ''Vary'' ''Origin'' (SetHeader ''Access-Control-Allow-Origin'' origin w))))"

definition CORSMiddleware :: "call_env \<Rightarrow> string list \<Rightarrow> 'st Middleware" where
  "CORSMiddleware env allowedOrigins next r x =
     (let origin = header_Get (hr_Header r) ''Origin'' in
      if origin \<noteq> [] \<and> \<not> isOriginAllowed (env_fold env) origin allowedOrigins
      then returned (WriteHeader 403 (fst x), snd x)
      else
        (let w1 = (if origin \<noteq> [] then cors_headers origin (fst x) else fst x) in
         if hr_Method r = ''OPTIONS'' then returned (WriteHeader 204 w1, snd x)
         else next r (w1, snd x)))"

definition StandardMiddleware ::
  "call_env \<Rightarrow> string list \<Rightarrow> 'w api_state Middleware option \<Rightarrow> 'w api_state Middleware option list" where
  "StandardMiddleware env allowedOrigins custom =
     [Some (WithRequestID env), Some RecoveryMiddleware, Some (LoggingMiddleware env)] @
     (case custom of None \<Rightarrow> [] | Some c \<Rightarrow> [Some c]) @ [Some (CORSMiddleware env allowedOrigins)]"

section \<open>Definitions: health and metrics routes\<close>

definition writeJSON :: "int \<Rightarrow> string \<Rightarrow> Writer \<Rightarrow> Writer" where
  "writeJSON statusCode body w =
     snd (Write body (WriteHeader statusCode (SetHeader ''Content-Type'' ''application/json'' w)))"

definition status_body :: "string \<Rightarrow> string" where
  "status_body s = ''{'' @ [CHR 0x22] @ ''status'' @ [CHR 0x22] @ '':'' @ [CHR 0x22] @ s @ [CHR 0x22] @ ''}''"

definition healthHandler :: "'st Handler" where
  "healthHandler r x = returned (writeJSON 200 (status_body ''ok'') (fst x), snd x)"

definition readyHandler :: "('st \<Rightarrow> unit result) option \<Rightarrow> 'st Handler" where
  "readyHandler check r x =
     (case check of
        Some chk \<Rightarrow>
          (case chk (snd x) of
             Inl e \<Rightarrow> returned (writeJSON 503 (status_body ''not_ready'') (fst x), snd x)
           | Inr _ \<Rightarrow> returned (writeJSON 200 (status_body ''ready'') (fst x), snd x))
      | None \<Rightarrow> returned (writeJSON 200 (status_body ''ready'') (fst x), snd x))"

text \<open>\<open>Metrics.Handler\<close>, with the iteration orders of the two maps as functions of the collector.\<close>

definition Metrics_Handler :: "(Metrics \<Rightarrow> string list \<times> string list) \<Rightarrow> 'w api_state Handler" where
  "Metrics_Handler orders r x =
     (case st_metrics (snd x) of
        None \<Rightarrow> returned (snd (Write metrics_unavailable (WriteHeader 503 (fst x))), snd x)
      | Some m \<Rightarrow>
          returned (snd (Write (Render (fst (orders m)) (snd (orders m)) (Some m))
            (SetHeader ''Content-Type'' ''text/plain; version=0.0.4; charset=utf-8'' (fst x))), snd x))"

section \<open>Definitions: routing\<close>

type_synonym 'st mux = "(string \<times> 'st Handler) list"

text \<open>The most specific pattern: the path itself, else the longest one that ends in a slash and is a prefix.\<close>

definition mux_match :: "string \<Rightarrow> string \<Rightarrow> bool" where
  "mux_match path pat = (pat = path \<or> (pat \<noteq> [] \<and> last pat = CHR ''/'' \<and> has_prefix path pat))"

definition mux_lookup :: "'st mux \<Rightarrow> string \<Rightarrow> 'st Handler option" where
  "mux_lookup m path =
     (let candidates = filter (\<lambda>(pat, h). mux_match path pat) m in
      map_option snd (find (\<lambda>(pat, h). list_all (\<lambda>(p, _). length p \<le> length pat) candidates) candidates))"

definition mux_serve :: "'st mux \<Rightarrow> 'st Handler" where
  "mux_serve m r x = (case mux_lookup m (hr_Path r) of None \<Rightarrow> NotFound r x | Some h \<Rightarrow> h r x)"

text \<open>An RPC result as status, headers and body; the encoding is the parameter \<open>encode\<close>.\<close>

type_synonym encoding = "AnyResponse rpc \<Rightarrow> int \<times> (string \<times> string) list \<times> string"

definition rpc_http :: "encoding \<Rightarrow> 'st service \<Rightarrow> 'st Handler" where
  "rpc_http encode svc r x =
     (case snd svc (hr_Path r) of
        None \<Rightarrow> NotFound r x
      | Some ep \<Rightarrow>
          (case ep (hr_Ctx r) (hr_Header r) (hr_Body r) (snd x) of (res, st1) \<Rightarrow>
             case encode res of (status, hs, body) \<Rightarrow>
               returned (snd (Write body (WriteHeader status (fold (\<lambda>(k, v). SetHeader k v) hs (fst x)))), st1)))"

record 'st Handlers =
  hs_System :: "'st SystemServiceHandler option"
  hs_Auth :: "'st AuthServiceHandler option"
  hs_Character :: "'st CharacterServiceHandler option"
  hs_Game :: "'st GameServiceHandler option"

definition mountHealthRoutes :: "'st mux \<Rightarrow> ('st \<Rightarrow> unit result) option \<Rightarrow> 'st mux" where
  "mountHealthRoutes m readyCheck = m @ [(''/healthz'', healthHandler), (''/readyz'', readyHandler readyCheck)]"

definition mountMetricsRoute :: "'st mux \<Rightarrow> 'st Handler option \<Rightarrow> 'st mux" where
  "mountMetricsRoute m metricsHandler = (case metricsHandler of None \<Rightarrow> m | Some h \<Rightarrow> m @ [(''/metrics'', h)])"

definition mount :: "encoding \<Rightarrow> 'st service \<Rightarrow> 'st mux \<Rightarrow> 'st mux" where
  "mount encode svc m = m @ [(fst svc, rpc_http encode svc)]"

definition mountRPCRoutes ::
  "encoding \<Rightarrow> codec \<Rightarrow> 'st mux \<Rightarrow> 'st SystemServiceHandler \<Rightarrow> 'st Handlers \<Rightarrow> 'st Interceptor list \<Rightarrow> 'st mux" where
  "mountRPCRoutes encode cd m system hs interceptors =
     (let m1 = mount encode (NewSystemServiceHandler cd system interceptors) m;
          m2 = (case hs_Auth hs of None \<Rightarrow> m1 | Some h \<Rightarrow> mount encode (NewAuthServiceHandler cd h interceptors) m1);
          m3 = (case hs_Character hs of None \<Rightarrow> m2 | Some h \<Rightarrow> mount encode (NewCharacterServiceHandler cd h interceptors) m2)
      in (case hs_Game hs of None \<Rightarrow> m3 | Some h \<Rightarrow> mount encode (NewGameServiceHandler cd h interceptors) m3))"

section \<open>Definitions: the server\<close>

record 'st Options =
  op_Addr :: string
  op_ShutdownTimeout :: duration
  op_AllowedOrigins :: "string list"
  op_UnaryInterceptors :: "'st Interceptor list"
  op_HTTPMiddleware :: "'st Middleware option"
  op_MetricsHandler :: "'st Handler option"
  op_ReadyCheck :: "('st \<Rightarrow> unit result) option"
  op_Handlers :: "'st Handlers"

record 'st Server =
  srv_Addr :: string
  srv_handler :: "'st Handler"
  srv_shutdownTimeout :: duration

definition default_origins :: "string list" where
  "default_origins = [''http://localhost:3000'', ''http://localhost:5173'',
     ''http://127.0.0.1:3000'', ''http://127.0.0.1:5173'']"

definition NewServer ::
  "encoding \<Rightarrow> codec \<Rightarrow> call_env \<Rightarrow> 'w api_state Options \<Rightarrow> 'w api_state Server result" where
  "NewServer encode cd env opts =
     (if TrimSpace (op_Addr opts) = [] then Inl (Opaque ''api server addr is required'')
      else
        (let shutdownTimeout = (if op_ShutdownTimeout opts \<le> 0 then 10 * Second else op_ShutdownTimeout opts);
             allowedOrigins = (if op_AllowedOrigins opts = [] then default_origins else op_AllowedOrigins opts) in
         case hs_System (op_Handlers opts) of
           None \<Rightarrow> Inl (Opaque ''system handler is required'')
         | Some system \<Rightarrow>
             (let m1 = mountHealthRoutes [] (op_ReadyCheck opts);
                  m2 = mountMetricsRoute m1 (op_MetricsHandler opts);
                  m3 = mountRPCRoutes encode cd m2 system (op_Handlers opts) (op_UnaryInterceptors opts)
              in Inr \<lparr>srv_Addr = op_Addr opts,
                   srv_handler = ChainMiddleware (mux_serve m3)
                     (StandardMiddleware env allowedOrigins (op_HTTPMiddleware opts)),
                   srv_shutdownTimeout = shutdownTimeout\<rparr>)))"

text \<open>
  \<open>Server.Run\<close>: which of the two channels fires first, with what the HTTP server
  answers, and the calls that \<open>Run\<close> makes on it.
\<close>

datatype serve_event = CtxDone "unit result" | ListenClosed | ListenFailed gerr

datatype serve_call = ShutdownCall | CloseCall

definition api_Run :: "serve_event \<Rightarrow> unit result \<times> serve_call list" where
  "api_Run ev =
     (case ev of
        CtxDone (Inl e) \<Rightarrow> (Inl (Wrap ''shutdown api http server'' [e]), [ShutdownCall, CloseCall])
      | CtxDone (Inr _) \<Rightarrow> (Inr (), [ShutdownCall])
      | ListenFailed e \<Rightarrow> (Inl (Wrap ''run api http server'' [e]), [])
      | ListenClosed \<Rightarrow> (Inr (), []))"

section \<open>Specification: what a handler does to a writer\<close>

datatype writer_op = OpSetHeader string string | OpWriteHeader int | OpWrite string

fun writer_step :: "writer_op \<Rightarrow> Writer \<Rightarrow> Writer" where
  "writer_step (OpSetHeader k v) w = SetHeader k v w"
| "writer_step (OpWriteHeader code) w = WriteHeader code w"
| "writer_step (OpWrite data) w = snd (Write data w)"

text \<open>Statuses that end the header.\<close>

fun final_op :: "writer_op \<Rightarrow> bool" where
  "final_op (OpWriteHeader code) = (code \<noteq> 0 \<and> \<not> informational code)"
| "final_op op = True"

text \<open>Every recorder on the way to the base agrees with what the base has sent.\<close>

fun wf_writer :: "Writer \<Rightarrow> bool" where
  "wf_writer (BaseWriter r) = True"
| "wf_writer (ResponseRecorder w st n) =
     (wf_writer w \<and> n = int (length (rp_body (base_of w))) \<and>
      (case rp_sent (base_of w) of None \<Rightarrow> st = 0 | Some (code, _) \<Rightarrow> code \<noteq> 0 \<and> st = code))"

definition fresh :: "Writer \<Rightarrow> bool" where
  "fresh w = (wf_writer w \<and> rp_sent (base_of w) = None \<and> rp_body (base_of w) = [])"

section \<open>Lemmas: recorders\<close>

lemma base_SetHeader [simp]: "base_of (SetHeader k v w) = (base_of w)\<lparr>rp_header := header_Set k v (rp_header (base_of w))\<rparr>"
  by (induction w) simp_all

lemma wf_SetHeader: "wf_writer w \<Longrightarrow> wf_writer (SetHeader k v w)"
  by (induction w) (auto split: option.splits)

lemma base_WriteHeader_sent: "rp_sent r \<noteq> None \<Longrightarrow> base_WriteHeader code r = r"
  by (simp add: base_WriteHeader_def)

lemma base_WriteHeader_of:
  "wf_writer w \<Longrightarrow> base_of (WriteHeader code w) = base_WriteHeader code (base_of w)"
  by (induction w) (auto simp: base_WriteHeader_sent split: option.splits)

lemma wf_WriteHeader: "wf_writer w \<Longrightarrow> code \<noteq> 0 \<Longrightarrow> \<not> informational code \<Longrightarrow> wf_writer (WriteHeader code w)"
proof (induction w)
  case (ResponseRecorder w st n)
  then show ?case
    by (auto simp: base_WriteHeader_of base_WriteHeader_def split: option.splits)
qed simp

lemma base_Write_of:
  "wf_writer w \<Longrightarrow> base_of (snd (Write data w)) = snd (base_Write data (base_of w)) \<and>
     fst (Write data w) = fst (base_Write data (base_of w))"
  by (induction w) (auto split: prod.splits)

lemma base_Write_sent:
  "rp_sent (snd (base_Write data r)) = rp_sent (base_WriteHeader 200 r)"
  "int (length (rp_body (snd (base_Write data r)))) = int (length (rp_body r)) + fst (base_Write data r)"
  by (auto simp: base_Write_def base_WriteHeader_def Let_def split: option.splits)

lemma wf_Write: "wf_writer w \<Longrightarrow> wf_writer (snd (Write data w))"
proof (induction w)
  case (ResponseRecorder w st n)
  then have wf: "wf_writer w" by simp
  obtain k w' where kw: "Write data w = (k, w')" by force
  note b = base_Write_of [OF wf, of data, unfolded kw, simplified] base_Write_sent [of data "base_of w"]
  have "wf_writer w'" using ResponseRecorder.IH [OF wf] kw by simp
  moreover have "n + k = int (length (rp_body (base_of w')))" using b ResponseRecorder.prems by simp
  moreover have "case rp_sent (base_of w') of None \<Rightarrow> (if st = 0 then 200 else st) = 0
      | Some (code, _) \<Rightarrow> code \<noteq> 0 \<and> (if st = 0 then 200 else st) = code"
    using b ResponseRecorder.prems
    by (auto simp: base_WriteHeader_def informational_def split: option.splits if_splits)
  ultimately show ?case by (simp add: kw)
qed (simp split: prod.splits)

lemma wf_step: "wf_writer w \<Longrightarrow> final_op op \<Longrightarrow> wf_writer (writer_step op w)"
  by (cases op) (simp_all add: wf_SetHeader wf_WriteHeader wf_Write)

lemma inner_step:
  "wf_writer (ResponseRecorder w st n) \<Longrightarrow> \<exists>st' n'. writer_step op (ResponseRecorder w st n) =
     ResponseRecorder (if \<exists>code. op = OpWriteHeader code \<and> st \<noteq> 0 then w else writer_step op w) st' n'"
  by (cases op) (auto split: prod.splits)

lemma WriteHeader_idle: "wf_writer w \<Longrightarrow> rp_sent (base_of w) \<noteq> None \<Longrightarrow> WriteHeader code w = w"
  by (cases w) (auto simp: base_WriteHeader_sent split: option.splits)

lemma recorder_sim:
  assumes "wf_writer (ResponseRecorder w st n)" and "list_all final_op ops"
  shows "\<exists>st' n'. fold writer_step ops (ResponseRecorder w st n) = ResponseRecorder (fold writer_step ops w) st' n' \<and>
    wf_writer (ResponseRecorder (fold writer_step ops w) st' n')"
  using assms
proof (induction ops arbitrary: w st n)
  case (Cons op ops)
  obtain w1 st1 n1 where s: "writer_step op (ResponseRecorder w st n) = ResponseRecorder w1 st1 n1"
    and w1: "w1 = (if \<exists>code. op = OpWriteHeader code \<and> st \<noteq> 0 then w else writer_step op w)"
    using inner_step [OF Cons.prems(1), of op] by blast
  have "w1 = writer_step op w"
    unfolding w1 using Cons.prems(1) WriteHeader_idle [of w] by (auto split: option.splits)
  moreover have "wf_writer (ResponseRecorder w1 st1 n1)" using wf_step [OF Cons.prems(1), of op] Cons.prems(2) s by simp
  ultimately show ?case using Cons.IH [of w1 st1 n1] Cons.prems(2) s by simp
qed simp

section \<open>Lemmas: the middleware stack\<close>

text \<open>The stack that the API server installs around its routes.\<close>

definition api_stack :: "call_env \<Rightarrow> string list \<Rightarrow> 'w api_state Handler \<Rightarrow> 'w api_state Handler" where
  "api_stack env origins h =
     ChainMiddleware h (StandardMiddleware env origins (Some (\<lambda>next. HTTPMiddleware env (Some next))))"

lemma api_stack_eq:
  "api_stack env origins h =
     WithRequestID env (RecoveryMiddleware (LoggingMiddleware env (HTTPMiddleware env (Some (CORSMiddleware env origins h)))))"
  by (simp add: api_stack_def ChainMiddleware_def StandardMiddleware_def)

lemma recovery_returns: "fst (RecoveryMiddleware h r x) = Returned ()"
  by (simp add: RecoveryMiddleware_def returned_def Let_def split: prod.splits outcome.splits)

section \<open>Lemmas: routing\<close>

text \<open>The mux that \<open>NewServer\<close> makes when all handlers are present.\<close>

definition rpc_mux ::
  "encoding \<Rightarrow> codec \<Rightarrow> ('st \<Rightarrow> unit result) option \<Rightarrow> 'st Handler option \<Rightarrow> 'st SystemServiceHandler \<Rightarrow> 'st AuthServiceHandler \<Rightarrow>
   'st CharacterServiceHandler \<Rightarrow> 'st GameServiceHandler \<Rightarrow> 'st Interceptor list \<Rightarrow> 'st mux" where
  "rpc_mux encode cd ready metrics sys auth chr game ints =
     mountRPCRoutes encode cd (mountMetricsRoute (mountHealthRoutes [] ready) metrics) sys
       \<lparr>hs_System = Some sys, hs_Auth = Some auth, hs_Character = Some chr, hs_Game = Some game\<rparr> ints"

lemma rpc_patterns:
  "map (\<lambda>p. map (mux_match p) [''/healthz'', ''/readyz'', ''/metrics'', ''/rpg.v1.SystemService/'', ''/rpg.v1.AuthService/'',
       ''/rpg.v1.CharacterService/'', ''/rpg.v1.GameService/''])
     [SystemServicePingProcedure, AuthServiceRegisterProcedure, AuthServiceLoginProcedure, AuthServiceLogoutProcedure,
      CharacterServiceCreateCharacterProcedure, CharacterServiceListCharactersProcedure,
      GameServiceListGameServersProcedure, GameServiceIssueJoinTokenProcedure] =
     [[False, False, False, True, False, False, False], [False, False, False, False, True, False, False],
      [False, False, False, False, True, False, False], [False, False, False, False, True, False, False],
      [False, False, False, False, False, True, False], [False, False, False, False, False, True, False],
      [False, False, False, False, False, False, True], [False, False, False, False, False, False, True]]"
  by code_simp

lemma procedures_differ:
  "AuthServiceLoginProcedure \<noteq> AuthServiceRegisterProcedure" "AuthServiceLogoutProcedure \<noteq> AuthServiceRegisterProcedure"
  "AuthServiceLogoutProcedure \<noteq> AuthServiceLoginProcedure"
  "CharacterServiceListCharactersProcedure \<noteq> CharacterServiceCreateCharacterProcedure"
  "GameServiceIssueJoinTokenProcedure \<noteq> GameServiceListGameServersProcedure"
  by code_simp+

text \<open>Every procedure is routed to its service, and there to the endpoint of its method.\<close>

lemma rpc_mux_lookup:
  "mux_lookup (rpc_mux encode cd ready metrics sys auth chr game ints) SystemServicePingProcedure =
     Some (rpc_http encode (NewSystemServiceHandler cd sys ints))"
  "mux_lookup (rpc_mux encode cd ready metrics sys auth chr game ints) AuthServiceRegisterProcedure =
     Some (rpc_http encode (NewAuthServiceHandler cd auth ints))"
  "mux_lookup (rpc_mux encode cd ready metrics sys auth chr game ints) AuthServiceLoginProcedure =
     Some (rpc_http encode (NewAuthServiceHandler cd auth ints))"
  "mux_lookup (rpc_mux encode cd ready metrics sys auth chr game ints) AuthServiceLogoutProcedure =
     Some (rpc_http encode (NewAuthServiceHandler cd auth ints))"
  "mux_lookup (rpc_mux encode cd ready metrics sys auth chr game ints) CharacterServiceCreateCharacterProcedure =
     Some (rpc_http encode (NewCharacterServiceHandler cd chr ints))"
  "mux_lookup (rpc_mux encode cd ready metrics sys auth chr game ints) CharacterServiceListCharactersProcedure =
     Some (rpc_http encode (NewCharacterServiceHandler cd chr ints))"
  "mux_lookup (rpc_mux encode cd ready metrics sys auth chr game ints) GameServiceListGameServersProcedure =
     Some (rpc_http encode (NewGameServiceHandler cd game ints))"
  "mux_lookup (rpc_mux encode cd ready metrics sys auth chr game ints) GameServiceIssueJoinTokenProcedure =
     Some (rpc_http encode (NewGameServiceHandler cd game ints))"
proof -
  note m = rpc_mux_def mountRPCRoutes_def mountMetricsRoute_def mountHealthRoutes_def mount_def
  have paths: "fst (NewSystemServiceHandler cd sys ints) = ''/rpg.v1.SystemService/''" "fst (NewAuthServiceHandler cd auth ints) = ''/rpg.v1.AuthService/''"
    "fst (NewCharacterServiceHandler cd chr ints) = ''/rpg.v1.CharacterService/''" "fst (NewGameServiceHandler cd game ints) = ''/rpg.v1.GameService/''"
    by (simp_all add: NewSystemServiceHandler_def NewAuthServiceHandler_def NewCharacterServiceHandler_def NewGameServiceHandler_def)
  note pats = rpc_patterns [simplified]
  show "mux_lookup (rpc_mux encode cd ready metrics sys auth chr game ints) SystemServicePingProcedure =
      Some (rpc_http encode (NewSystemServiceHandler cd sys ints))"
    by (cases metrics) (simp_all add: m paths mux_lookup_def pats)
  show "mux_lookup (rpc_mux encode cd ready metrics sys auth chr game ints) AuthServiceRegisterProcedure =
      Some (rpc_http encode (NewAuthServiceHandler cd auth ints))"
    by (cases metrics) (simp_all add: m paths mux_lookup_def pats)
  show "mux_lookup (rpc_mux encode cd ready metrics sys auth chr game ints) AuthServiceLoginProcedure =
      Some (rpc_http encode (NewAuthServiceHandler cd auth ints))"
    by (cases metrics) (simp_all add: m paths mux_lookup_def pats)
  show "mux_lookup (rpc_mux encode cd ready metrics sys auth chr game ints) AuthServiceLogoutProcedure =
      Some (rpc_http encode (NewAuthServiceHandler cd auth ints))"
    by (cases metrics) (simp_all add: m paths mux_lookup_def pats)
  show "mux_lookup (rpc_mux encode cd ready metrics sys auth chr game ints) CharacterServiceCreateCharacterProcedure =
      Some (rpc_http encode (NewCharacterServiceHandler cd chr ints))"
    by (cases metrics) (simp_all add: m paths mux_lookup_def pats)
  show "mux_lookup (rpc_mux encode cd ready metrics sys auth chr game ints) CharacterServiceListCharactersProcedure =
      Some (rpc_http encode (NewCharacterServiceHandler cd chr ints))"
    by (cases metrics) (simp_all add: m paths mux_lookup_def pats)
  show "mux_lookup (rpc_mux encode cd ready metrics sys auth chr game ints) GameServiceListGameServersProcedure =
      Some (rpc_http encode (NewGameServiceHandler cd game ints))"
    by (cases metrics) (simp_all add: m paths mux_lookup_def pats)
  show "mux_lookup (rpc_mux encode cd ready metrics sys auth chr game ints) GameServiceIssueJoinTokenProcedure =
      Some (rpc_http encode (NewGameServiceHandler cd game ints))"
    by (cases metrics) (simp_all add: m paths mux_lookup_def pats)
qed

lemma rpc_endpoints:
  "snd (NewSystemServiceHandler cd sys ints) SystemServicePingProcedure =
     Some (NewUnaryHandler SystemServicePingProcedure (dec_Ping cd) (sys_Ping sys) RPing ints)"
  "snd (NewAuthServiceHandler cd auth ints) AuthServiceRegisterProcedure =
     Some (NewUnaryHandler AuthServiceRegisterProcedure (dec_Register cd) (auth_Register auth) RRegister ints)"
  "snd (NewAuthServiceHandler cd auth ints) AuthServiceLoginProcedure =
     Some (NewUnaryHandler AuthServiceLoginProcedure (dec_Login cd) (auth_Login auth) RLogin ints)"
  "snd (NewAuthServiceHandler cd auth ints) AuthServiceLogoutProcedure =
     Some (NewUnaryHandler AuthServiceLogoutProcedure (dec_Logout cd) (auth_Logout auth) RLogout ints)"
  "snd (NewCharacterServiceHandler cd chr ints) CharacterServiceCreateCharacterProcedure =
     Some (NewUnaryHandler CharacterServiceCreateCharacterProcedure (dec_CreateCharacter cd) (chr_CreateCharacter chr) RCreateCharacter ints)"
  "snd (NewCharacterServiceHandler cd chr ints) CharacterServiceListCharactersProcedure =
     Some (NewUnaryHandler CharacterServiceListCharactersProcedure (dec_ListCharacters cd) (chr_ListCharacters chr) RListCharacters ints)"
  "snd (NewGameServiceHandler cd game ints) GameServiceListGameServersProcedure =
     Some (NewUnaryHandler GameServiceListGameServersProcedure (dec_ListGameServers cd) (game_ListGameServers game) RListGameServers ints)"
  "snd (NewGameServiceHandler cd game ints) GameServiceIssueJoinTokenProcedure =
     Some (NewUnaryHandler GameServiceIssueJoinTokenProcedure (dec_IssueJoinToken cd) (game_IssueJoinToken game) RIssueJoinToken ints)"
  by (simp_all add: procedures_differ NewSystemServiceHandler_def NewAuthServiceHandler_def NewCharacterServiceHandler_def NewGameServiceHandler_def)

section \<open>Properties\<close>



text \<open>
  Cross-origin requests from origins that are not allowed end in the CORS middleware:
  status 403 without a body or an allow-origin header, and no route is served.
\<close>

theorem cors_blocks:
  assumes "header_Get (hr_Header r) ''Origin'' = origin" and "origin \<noteq> []"
    and "\<not> isOriginAllowed (env_fold env) origin origins"
    and "api_stack env origins h r (BaseWriter new_response, st) = (out, w', st')"
  shows "out = Returned () \<and> st_stores st' = st_stores st \<and> rp_body (base_of w') = [] \<and>
    (\<exists>hd. rp_sent (base_of w') = Some (403, hd) \<and> hd ''Access-Control-Allow-Origin'' = [])"
proof -
  have "informational 403 = False" by (simp add: informational_def)
  moreover have "CanonicalHeaderKey ''X-Request-Id'' = ''X-Request-Id''" by code_simp
  ultimately show ?thesis
    using assms
    by (auto simp: api_stack_eq WithRequestID_def RecoveryMiddleware_def LoggingMiddleware_def HTTPMiddleware_def
        CORSMiddleware_def returned_def add_log_def with_metrics_def Let_def new_response_def base_WriteHeader_def
        requestIDHeader_def header_Set_def)
qed

section \<open>Witnesses\<close>

definition w_lib :: text_lib where
  "w_lib = \<lparr>lower_uni = id, idna_to_ascii = Some, parse_address = Some, nfc = id, letter_or_number = (\<lambda>_. False)\<rparr>"

definition w_call :: call_env where
  "w_call = \<lparr>env_lib = w_lib, env_fold = (\<lambda>s t. s = t), env_lower = id, env_argon = w_argon, env_rand = w_random,
     env_uuid = ''a1'', env_now = 0, env_elapsed = 5 * Millisecond\<rparr>"

definition w_request :: "string \<Rightarrow> HttpRequest" where
  "w_request origin = \<lparr>hr_Method = ''POST'', hr_Path = AuthServiceLoginProcedure,
     hr_Header = (\<lambda>k. if k = ''Origin'' \<and> origin \<noteq> [] then [origin] else []), hr_Body = [], hr_RemoteAddr = ''10.0.0.1:5000'',
     hr_Ctx = \<lparr>ctx_authUser = None, ctx_requestID = None\<rparr>\<rparr>"

definition w_state :: "'w \<Rightarrow> 'w api_state" where
  "w_state w = \<lparr>st_stores = w, st_metrics = Some (NewMetrics ''api''), st_log = []\<rparr>"

lemma w_origin: "header_Get (hr_Header (w_request origin)) ''Origin'' = origin"
proof -
  have "CanonicalHeaderKey ''Origin'' = ''Origin''" by code_simp
  then show ?thesis by (simp add: header_Get_def w_request_def)
qed

definition w_ops :: "writer_op list" where
  "w_ops = [OpWriteHeader 404, OpWriteHeader 200, OpWrite ''no'']"



theorem cors_blocks_witness:
  "\<exists>w' st' hd. api_stack w_call default_origins NotFound (w_request ''http://evil'') (BaseWriter new_response, w_state ())
       = (Returned (), w', st') \<and> rp_sent (base_of w') = Some (403, hd)"
proof -
  obtain out w' st' where s: "api_stack w_call default_origins NotFound (w_request ''http://evil'') (BaseWriter new_response, w_state ())
      = (out, w', st')"
    by (metis prod.exhaust)
  have "\<not> isOriginAllowed (env_fold w_call) ''http://evil'' default_origins" by code_simp
  from cors_blocks [OF w_origin _ this s] s show ?thesis by auto
qed

end
