(* ===== verification/Character_Locks.thy ===== *)
theory Character_Locks
  imports Keyspace
begin

text \<open>
  The character lock store, \<open>internal/store/redis/character_locks.go\<close>: acquisition
  with \<open>SET NX\<close> and expiry, owner-checked renewal and release by Lua scripts, and the
  owner query. The contract of the game server's \<open>characterLocker\<close> interface is the
  locale \<open>character_locker\<close>; the store on any documented Redis server is an instance.
\<close>

section \<open>Definitions\<close>

record 's CharacterLockStore =
  cl_client :: "'s redis option"
  cl_keys :: KeyBuilder
  cl_lockTTL :: duration

definition NewCharacterLockStore ::
  "'s redis option \<Rightarrow> KeyBuilder \<Rightarrow> duration \<Rightarrow> 's CharacterLockStore result" where
  "NewCharacterLockStore client keys ttl =
     (if client = None then Inl (Wrap ''redis client is required'' [Sentinel ErrInvalidArgument])
      else if ttl \<le> 0 then Inl (Wrap ''lock TTL must be > 0'' [Sentinel ErrInvalidArgument])
      else Inr \<lparr>cl_client = client, cl_keys = keys, cl_lockTTL = ttl\<rparr>)"

text \<open>The scripts: \<open>KEYS[1]\<close> is the lock key, \<open>ARGV[1]\<close> the owner, \<open>ARGV[2]\<close> milliseconds.\<close>

definition renewCharacterLockScript :: "'s redis \<Rightarrow> string \<Rightarrow> string \<Rightarrow> int \<Rightarrow> 's \<Rightarrow> reply \<times> 's" where
  "renewCharacterLockScript rc key owner ms s =
     lua_do (rcall rc (GET key) s) (\<lambda>r s1.
       if r = RBulk owner then rcall rc (PEXPIRE key ms) s1 else (RInt 0, s1))"

definition releaseCharacterLockScript :: "'s redis \<Rightarrow> string \<Rightarrow> string \<Rightarrow> 's \<Rightarrow> reply \<times> 's" where
  "releaseCharacterLockScript rc key owner s =
     lua_do (rcall rc (GET key) s) (\<lambda>r s1.
       if r = RBulk owner then rcall rc (DEL key) s1 else (RInt 0, s1))"

definition validateLockIDs :: "string \<Rightarrow> string \<Rightarrow> (string \<times> string) result" where
  "validateLockIDs characterID ownerID =
     bindE (RequiredID ''character ID'' characterID) (\<lambda>c.
     bindE (RequiredID ''lock owner ID'' ownerID) (\<lambda>ow.
     Inr (c, ow)))"

definition effectiveTTL :: "'s CharacterLockStore \<Rightarrow> duration \<Rightarrow> duration" where
  "effectiveTTL st requested = (if requested \<le> 0 then cl_lockTTL st else requested)"

definition AcquireCharacterLock ::
  "'s CharacterLockStore option \<Rightarrow> string \<Rightarrow> string \<Rightarrow> duration \<Rightarrow> 's \<Rightarrow> bool result \<times> 's" where
  "AcquireCharacterLock store characterID ownerID ttl s =
     with_client store cl_client s (\<lambda>st rc.
       bindP (validateLockIDs characterID ownerID) s (\<lambda>(c, ow).
       bindP (mapErr (redisKeyError ''build character lock key'') (CharacterLock (cl_keys st) c)) s (\<lambda>key.
       mapErrS (\<lambda>e. redisUnavailable ''acquire character lock'' (Some e))
         (c_SetNX rc key ow (effectiveTTL st ttl) s))))"

definition RenewCharacterLock ::
  "'s CharacterLockStore option \<Rightarrow> string \<Rightarrow> string \<Rightarrow> duration \<Rightarrow> 's \<Rightarrow> bool result \<times> 's" where
  "RenewCharacterLock store characterID ownerID ttl s =
     with_client store cl_client s (\<lambda>st rc.
       bindP (validateLockIDs characterID ownerID) s (\<lambda>(c, ow).
       bindP (mapErr (redisKeyError ''build character lock key'') (CharacterLock (cl_keys st) c)) s (\<lambda>key.
       bindS (mapErrS (\<lambda>e. redisUnavailable ''renew character lock'' (Some e))
         (c_Eval rc (renewCharacterLockScript rc key ow (effectiveTTL st ttl div Millisecond)) s)) (\<lambda>r s1.
       (Inr (truthy r), s1)))))"

definition ReleaseCharacterLock ::
  "'s CharacterLockStore option \<Rightarrow> string \<Rightarrow> string \<Rightarrow> 's \<Rightarrow> bool result \<times> 's" where
  "ReleaseCharacterLock store characterID ownerID s =
     with_client store cl_client s (\<lambda>st rc.
       bindP (validateLockIDs characterID ownerID) s (\<lambda>(c, ow).
       bindP (mapErr (redisKeyError ''build character lock key'') (CharacterLock (cl_keys st) c)) s (\<lambda>key.
       bindS (mapErrS (\<lambda>e. redisUnavailable ''release character lock'' (Some e))
         (c_Eval rc (releaseCharacterLockScript rc key ow) s)) (\<lambda>r s1.
       (Inr (truthy r), s1)))))"

definition GetCharacterLockOwner ::
  "'s CharacterLockStore option \<Rightarrow> string \<Rightarrow> 's \<Rightarrow> string result \<times> 's" where
  "GetCharacterLockOwner store characterID s =
     with_client store cl_client s (\<lambda>st rc.
       bindP (RequiredID ''character ID'' characterID) s (\<lambda>c.
       bindP (mapErr (redisKeyError ''build character lock key'') (CharacterLock (cl_keys st) c)) s (\<lambda>key.
       case c_Get rc key s of
         (Inl e, s1) \<Rightarrow>
           if errors_is e RedisNil then (Inl (Sentinel ErrNotFound), s1)
           else (Inl (redisUnavailable ''get character lock owner'' (Some e)), s1)
       | (Inr ownerID, s1) \<Rightarrow>
           (case RequiredID ''lock owner ID'' ownerID of
              Inl e \<Rightarrow> (Inl (Sentinel ErrNotFound), s1)
            | Inr ow \<Rightarrow> (Inr ow, s1)))))"

text \<open>Who holds the lock of a character, read off the live keys.\<close>

definition lock_holder :: "KeyBuilder \<Rightarrow> kv \<Rightarrow> string \<Rightarrow> string option" where
  "lock_holder k m c =
     (case CharacterLock k c of Inl e \<Rightarrow> None
      | Inr key \<Rightarrow> (case m key of Some (RStr ow, t) \<Rightarrow> Some ow | _ \<Rightarrow> None))"

section \<open>The locker contract\<close>

text \<open>
  What the game server relies on (interface \<open>characterLocker\<close> of
  \<open>internal/game/join.go\<close>). A call that reports an error may have taken effect.
\<close>

locale character_locker =
  fixes acquire :: "string \<Rightarrow> string \<Rightarrow> duration \<Rightarrow> 's \<Rightarrow> bool result \<times> 's"
    and release :: "string \<Rightarrow> string \<Rightarrow> 's \<Rightarrow> bool result \<times> 's"
    and holder :: "'s \<Rightarrow> string \<Rightarrow> string option"
    and wf :: "'s \<Rightarrow> bool"
  assumes acquire_ok: "wf s \<Longrightarrow> 0 < ttl \<Longrightarrow> acquire c ow ttl s = (Inr b, s') \<Longrightarrow>
        (b \<longleftrightarrow> holder s (TrimSpace c) = None) \<and>
        holder s' = (if b then (holder s)(TrimSpace c \<mapsto> TrimSpace ow) else holder s)"
    and acquire_err: "wf s \<Longrightarrow> 0 < ttl \<Longrightarrow> acquire c ow ttl s = (Inl e, s') \<Longrightarrow>
        holder s' = holder s \<or>
        (holder s (TrimSpace c) = None \<and> holder s' = (holder s)(TrimSpace c \<mapsto> TrimSpace ow))"
    and release_ok: "wf s \<Longrightarrow> release c ow s = (Inr b, s') \<Longrightarrow>
        (b \<longleftrightarrow> holder s (TrimSpace c) = Some (TrimSpace ow)) \<and>
        holder s' = (if b then (holder s)(TrimSpace c := None) else holder s)"
    and release_err: "wf s \<Longrightarrow> release c ow s = (Inl e, s') \<Longrightarrow>
        holder s' = holder s \<or>
        (holder s (TrimSpace c) = Some (TrimSpace ow) \<and> holder s' = (holder s)(TrimSpace c := None))"
    and wf_acquire: "wf s \<Longrightarrow> 0 < ttl \<Longrightarrow> acquire c ow ttl s = (r, s') \<Longrightarrow> wf s'"
    and wf_release: "wf s \<Longrightarrow> release c ow s = (r', s') \<Longrightarrow> wf s'"
begin

text \<open>Whatever a call reports, it never takes a lock from its holder.\<close>

lemma acquire_never_steals:
  assumes "wf s" and "0 < ttl" and "acquire c ow ttl s = (r, s')" and "holder s d = Some h"
  shows "holder s' d = Some h"
proof (cases r)
  case (Inl e)
  then show ?thesis using acquire_err [of s ttl c ow e s'] assms by (cases "d = TrimSpace c") auto
next
  case (Inr b)
  then show ?thesis using acquire_ok [of s ttl c ow b s'] assms by (cases "d = TrimSpace c") auto
qed

text \<open>Only the holder of a lock can make it free.\<close>

lemma release_only_own:
  assumes "wf s" and "release c ow s = (r, s')" and "holder s d = Some h" and "h \<noteq> TrimSpace ow"
  shows "holder s' d = Some h"
proof (cases r)
  case (Inl e)
  then show ?thesis using release_err [of s c ow e s'] assms by (cases "d = TrimSpace c") auto
next
  case (Inr b)
  then show ?thesis using release_ok [of s c ow b s'] assms by (cases "d = TrimSpace c") auto
qed

text \<open>A release, whatever it reports, concerns one lock only.\<close>

lemma release_other:
  assumes "wf s" and "release c ow s = (r, s')" and "d \<noteq> TrimSpace c"
  shows "holder s' d = holder s d"
proof (cases r)
  case (Inl e)
  then show ?thesis using release_err [of s c ow e s'] assms by auto
next
  case (Inr b)
  then show ?thesis using release_ok [of s c ow b s'] assms by auto
qed

lemma acquire_True:
  assumes "wf s" and "0 < ttl" and "acquire c ow ttl s = (Inr True, s')"
  shows "holder s (TrimSpace c) = None" and "holder s' = (holder s)(TrimSpace c \<mapsto> TrimSpace ow)"
  using acquire_ok [OF assms] by auto

end

section \<open>Lemmas\<close>

lemma validateLockIDs_Inr:
  "validateLockIDs c ow = Inr (c', ow') \<longleftrightarrow>
     c' = TrimSpace c \<and> ow' = TrimSpace ow \<and> key_segment maxIDBytes c' \<and> key_segment maxIDBytes ow'"
  by (auto simp: validateLockIDs_def bindE_eq_Inr ids_Inr)

lemma lock_holder_at:
  "lock_holder k (m(key := e)) c =
     (if CharacterLock k c = Inr key then (case e of Some (RStr ow, t) \<Rightarrow> Some ow | _ \<Rightarrow> None)
      else lock_holder k m c)"
  by (simp add: lock_holder_def split: sum.splits)

lemma lock_key_inject:
  "CharacterLock k c = Inr key \<Longrightarrow> CharacterLock k c' = Inr key \<longleftrightarrow> c' = c"
  unfolding CharacterLock_def
  using build_inject [of k "[''character_lock'', c]" key "[''character_lock'', c']"] by auto

lemma lock_holder_upd:
  assumes "CharacterLock k c = Inr key"
  shows "lock_holder k (m(key \<mapsto> (RStr ow, t))) = (lock_holder k m)(c \<mapsto> ow)"
    and "lock_holder k (m(key := None)) = (lock_holder k m)(c := None)"
  by (simp_all add: fun_eq_iff lock_holder_at lock_key_inject [OF assms])

lemma lock_holder_other:
  assumes "build k parts = Inr key" and "hd parts \<noteq> ''character_lock''"
  shows "lock_holder k (m(key := e)) = lock_holder k m"
proof -
  have "CharacterLock k c \<noteq> Inr key" for c
    using assms build_inject [of k parts key "[''character_lock'', c]"]
    unfolding CharacterLock_def by auto
  then show ?thesis by (simp add: fun_eq_iff lock_holder_at)
qed

lemma lock_holder_key:
  "CharacterLock k c = Inr key \<Longrightarrow> str_key m key \<Longrightarrow>
     lock_holder k m c = None \<longleftrightarrow> m key = None"
  by (auto simp: lock_holder_def str_key_def split: option.splits rval.splits)

lemma lock_holder_Some:
  "CharacterLock k c = Inr key \<Longrightarrow> lock_holder k m c = Some ow \<longleftrightarrow> (\<exists>t. m key = Some (RStr ow, t))"
  by (auto simp: lock_holder_def split: option.splits rval.splits)

lemma lock_key_str: "wf_keys k m \<Longrightarrow> CharacterLock k c = Inr key \<Longrightarrow> str_key m key"
  unfolding CharacterLock_def by (rule wf_keys_str) auto

lemma wf_lock_upd:
  "wf_keys k m \<Longrightarrow> CharacterLock k c = Inr key \<Longrightarrow> wf_keys k (m(key \<mapsto> (RStr v, t)))"
  "wf_keys k m \<Longrightarrow> CharacterLock k c = Inr key \<Longrightarrow> wf_keys k (m(key := None))"
  unfolding CharacterLock_def by (auto intro: wf_keys_str_upd wf_keys_del)

text \<open>Unfolding of a successful call down to the one command it sends.\<close>

lemma AcquireCharacterLock_cases:
  assumes "AcquireCharacterLock store c ow ttl s = (r, s')"
  obtains (early) e where "r = Inl e" "s' = s"
  | (call) st rc key q where "store = Some st" "cl_client st = Some rc"
      "CharacterLock (cl_keys st) (TrimSpace c) = Inr key"
      "c_SetNX rc key (TrimSpace ow) (effectiveTTL st ttl) s = (q, s')"
      "r = mapErr (\<lambda>e. redisUnavailable ''acquire character lock'' (Some e)) q"
proof (cases store)
  case None
  with assms early show ?thesis by (auto simp: AcquireCharacterLock_def)
next
  case (Some st)
  show ?thesis
  proof (cases "cl_client st")
    case None
    with Some assms early show ?thesis by (auto simp: AcquireCharacterLock_def)
  next
    case client: (Some rc)
    show ?thesis
    proof (cases "validateLockIDs c ow")
      case (Inl e)
      with Some client assms early show ?thesis by (auto simp: AcquireCharacterLock_def)
    next
      case (Inr p)
      then obtain c' ow' where v: "validateLockIDs c ow = Inr (c', ow')" by (cases p) auto
      then have n: "c' = TrimSpace c" "ow' = TrimSpace ow" by (auto simp: validateLockIDs_Inr)
      show ?thesis
      proof (cases "CharacterLock (cl_keys st) c'")
        case (Inl e)
        with v Some client assms early show ?thesis by (auto simp: AcquireCharacterLock_def)
      next
        case key: (Inr key)
        obtain q t where q: "c_SetNX rc key ow' (effectiveTTL st ttl) s = (q, t)" by force
        with v key Some client assms have "s' = t"
          "r = mapErr (\<lambda>e. redisUnavailable ''acquire character lock'' (Some e)) q"
          by (auto simp: AcquireCharacterLock_def)
        with call [OF Some client] q n key show ?thesis by auto
      qed
    qed
  qed
qed

text \<open>The two script-based operations share their prologue: an early error or one script call.\<close>

lemma ReleaseCharacterLock_cases:
  assumes "ReleaseCharacterLock store c ow s = (r, s')"
  obtains (early) e where "r = Inl e" "s' = s"
  | (call) st rc key q where "store = Some st" "cl_client st = Some rc"
      "CharacterLock (cl_keys st) (TrimSpace c) = Inr key"
      "c_Eval rc (releaseCharacterLockScript rc key (TrimSpace ow)) s = (q, s')"
      "r = (case q of Inl e \<Rightarrow> Inl (redisUnavailable ''release character lock'' (Some e)) | Inr x \<Rightarrow> Inr (truthy x))"
proof (cases "\<exists>st rc c' ow' key. store = Some st \<and> cl_client st = Some rc \<and>
    validateLockIDs c ow = Inr (c', ow') \<and> CharacterLock (cl_keys st) c' = Inr key")
  case True
  then obtain st rc c' ow' key where d: "store = Some st" "cl_client st = Some rc"
    "validateLockIDs c ow = Inr (c', ow')" "CharacterLock (cl_keys st) c' = Inr key" by blast
  obtain q t where q: "c_Eval rc (releaseCharacterLockScript rc key ow') s = (q, t)" by force
  from d(3) have "c' = TrimSpace c" "ow' = TrimSpace ow" by (auto simp: validateLockIDs_Inr)
  with d q assms call show ?thesis
    by (cases q) (auto simp: ReleaseCharacterLock_def)
next
  case False
  with assms have "\<exists>e. r = Inl e \<and> s' = s"
    by (auto simp: ReleaseCharacterLock_def with_client_def bindP_def split: option.splits sum.splits)
  with early show ?thesis by blast
qed

lemma RenewCharacterLock_cases:
  assumes "RenewCharacterLock store c ow ttl s = (r, s')"
  obtains (early) e where "r = Inl e" "s' = s"
  | (call) st rc key q where "store = Some st" "cl_client st = Some rc"
      "CharacterLock (cl_keys st) (TrimSpace c) = Inr key"
      "c_Eval rc (renewCharacterLockScript rc key (TrimSpace ow) (effectiveTTL st ttl div Millisecond)) s = (q, s')"
proof (cases "\<exists>st rc c' ow' key. store = Some st \<and> cl_client st = Some rc \<and>
    validateLockIDs c ow = Inr (c', ow') \<and> CharacterLock (cl_keys st) c' = Inr key")
  case True
  then obtain st rc c' ow' key where d: "store = Some st" "cl_client st = Some rc"
    "validateLockIDs c ow = Inr (c', ow')" "CharacterLock (cl_keys st) c' = Inr key" by blast
  obtain q t where q: "c_Eval rc (renewCharacterLockScript rc key ow' (effectiveTTL st ttl div Millisecond)) s = (q, t)"
    by force
  from d(3) have "c' = TrimSpace c" "ow' = TrimSpace ow" by (auto simp: validateLockIDs_Inr)
  with d q assms call show ?thesis
    by (cases q) (auto simp: RenewCharacterLock_def)
next
  case False
  with assms have "\<exists>e. r = Inl e \<and> s' = s"
    by (auto simp: RenewCharacterLock_def with_client_def bindP_def split: option.splits sum.splits)
  with early show ?thesis by blast
qed

context redis_server
begin

lemma releaseScript_run:
  assumes "releaseCharacterLockScript rc key ow s = (r, s')" and "str_key (view s) key"
  shows "r = RInt (if \<exists>t. view s key = Some (RStr ow, t) then 1 else 0)"
    and "view s' = (if \<exists>t. view s key = Some (RStr ow, t) then (view s)(key := None) else view s)"
proof -
  obtain g s1 where g: "rcall rc (GET key) s = (g, s1)" by force
  then have v1: "view s1 = view s" using get_view [of key s] by simp
  have "r = RInt (if \<exists>t. view s key = Some (RStr ow, t) then 1 else 0) \<and>
    view s' = (if \<exists>t. view s key = Some (RStr ow, t) then (view s)(key := None) else view s)"
    using assms(2)
  proof (cases rule: str_key_cases)
    case None
    with g have "g = RNil" using get_none [of s key] by simp
    with g assms(1) None v1 show ?thesis by (simp add: releaseCharacterLockScript_def)
  next
    case (Str v t)
    with g have "g = RBulk v" using get_str [OF Str] by simp
    with g assms(1) Str v1 del_reply [of key s1] del_view [of key s1] show ?thesis
      by (cases "v = ow") (auto simp: releaseCharacterLockScript_def)
  qed
  then show "r = RInt (if \<exists>t. view s key = Some (RStr ow, t) then 1 else 0)"
    "view s' = (if \<exists>t. view s key = Some (RStr ow, t) then (view s)(key := None) else view s)"
    by auto
qed

lemma renewScript_run:
  assumes "renewCharacterLockScript rc key ow ms s = (r, s')" and "str_key (view s) key" and "0 < ms"
  shows "r = RInt (if \<exists>t. view s key = Some (RStr ow, t) then 1 else 0)"
    and "view s' = (if \<exists>t. view s key = Some (RStr ow, t)
           then (view s)(key \<mapsto> (RStr ow, Some ms)) else view s)"
proof -
  obtain g s1 where g: "rcall rc (GET key) s = (g, s1)" by force
  then have v1: "view s1 = view s" using get_view [of key s] by simp
  have "r = RInt (if \<exists>t. view s key = Some (RStr ow, t) then 1 else 0) \<and>
    view s' = (if \<exists>t. view s key = Some (RStr ow, t)
           then (view s)(key \<mapsto> (RStr ow, Some ms)) else view s)"
    using assms(2)
  proof (cases rule: str_key_cases)
    case None
    with g have "g = RNil" using get_none [of s key] by simp
    with g assms(1) None v1 show ?thesis by (simp add: renewCharacterLockScript_def)
  next
    case (Str v t)
    with g have "g = RBulk v" using get_str [OF Str] by simp
    with g assms(1) Str v1 pexpire_some [of s1 key "RStr v" t ms] assms(3) show ?thesis
      by (cases "v = ow") (auto simp: renewCharacterLockScript_def)
  qed
  then show "r = RInt (if \<exists>t. view s key = Some (RStr ow, t) then 1 else 0)"
    "view s' = (if \<exists>t. view s key = Some (RStr ow, t)
           then (view s)(key \<mapsto> (RStr ow, Some ms)) else view s)"
    by auto
qed

text \<open>The store on this server: the effect of each operation on the live keys.\<close>

lemma acquire_view:
  assumes "AcquireCharacterLock (Some st) c ow ttl s = (r, s')"
    and "cl_client st = Some rc" and "0 < effectiveTTL st ttl"
  shows "view s' = view s \<or>
    (\<exists>key. CharacterLock (cl_keys st) (TrimSpace c) = Inr key \<and> view s key = None \<and>
       view s' = (view s)(key \<mapsto> (RStr (TrimSpace ow), Some (px_ms rc (effectiveTTL st ttl)))))"
  using assms(1)
proof (cases rule: AcquireCharacterLock_cases)
  case (call st' rc' key q)
  then have same: "st' = st" "rc' = rc" using assms(2) by simp_all
  show ?thesis
  proof (cases q)
    case (Inl e)
    with call same c_SetNX_Inl_view [OF _ assms(3)] show ?thesis by blast
  next
    case (Inr b)
    with call same c_SetNX_Inr [OF _ assms(3)] show ?thesis by (cases b) auto
  qed
qed simp

lemma acquire_result:
  assumes "AcquireCharacterLock (Some st) c ow ttl s = (Inr b, s')"
    and "cl_client st = Some rc" and "0 < effectiveTTL st ttl"
  obtains key where "CharacterLock (cl_keys st) (TrimSpace c) = Inr key"
    and "b \<longleftrightarrow> view s key = None"
    and "view s' = (if b then (view s)(key \<mapsto>
      (RStr (TrimSpace ow), Some (px_ms rc (effectiveTTL st ttl)))) else view s)"
  using assms(1)
proof (cases rule: AcquireCharacterLock_cases)
  case (call st' rc' key q)
  then have same: "st' = st" "rc' = rc" using assms(2) by simp_all
  from call(5) have "q = Inr b" by (cases q) simp_all
  with call(4) same have q: "c_SetNX rc key (TrimSpace ow) (effectiveTTL st ttl) s = (Inr b, s')" by simp
  from call(3) same have "CharacterLock (cl_keys st) (TrimSpace c) = Inr key" by simp
  then show ?thesis using that c_SetNX_Inr [OF q assms(3)] by blast
qed simp

lemma acquire_True_view:
  assumes "AcquireCharacterLock (Some st) c ow ttl s = (Inr True, s')"
    and "cl_client st = Some rc" and "0 < effectiveTTL st ttl"
  obtains key where "CharacterLock (cl_keys st) (TrimSpace c) = Inr key" and "view s key = None"
    and "view s' = (view s)(key \<mapsto> (RStr (TrimSpace ow), Some (px_ms rc (effectiveTTL st ttl))))"
  using acquire_result [OF assms] by auto

lemma release_view:
  assumes "ReleaseCharacterLock (Some st) c ow s = (r, s')"
    and "cl_client st = Some rc" and "wf_keys (cl_keys st) (view s)"
  shows "view s' = view s \<or>
    (\<exists>key t. CharacterLock (cl_keys st) (TrimSpace c) = Inr key \<and>
       view s key = Some (RStr (TrimSpace ow), t) \<and> view s' = (view s)(key := None))"
  using assms(1)
proof (cases rule: ReleaseCharacterLock_cases)
  case (call st' rc' key q)
  then have same: "st' = st" "rc' = rc" using assms(2) by simp_all
  have sk: "str_key (view s) key" using call same assms(3) lock_key_str by auto
  obtain x t where x: "releaseCharacterLockScript rc key (TrimSpace ow) s = (x, t)" by force
  have "view s' = view s \<or> view s' = view t"
  proof (cases q)
    case (Inl e)
    with call same have "c_Eval rc (releaseCharacterLockScript rc key (TrimSpace ow)) s = (Inl e, s')"
      by simp
    from c_Eval_Inl_view [OF this] x show ?thesis by simp
  next
    case (Inr y)
    with call same have "c_Eval rc (releaseCharacterLockScript rc key (TrimSpace ow)) s = (Inr y, s')"
      by simp
    from c_Eval_Inr [OF this] x show ?thesis by simp
  qed
  with releaseScript_run [OF x sk] call same show ?thesis by (auto split: if_splits)
qed simp

lemma release_result:
  assumes "ReleaseCharacterLock (Some st) c ow s = (Inr b, s')"
    and "cl_client st = Some rc" and "wf_keys (cl_keys st) (view s)"
  obtains key where "CharacterLock (cl_keys st) (TrimSpace c) = Inr key"
    and "b \<longleftrightarrow> (\<exists>t. view s key = Some (RStr (TrimSpace ow), t))"
    and "view s' = (if b then (view s)(key := None) else view s)"
  using assms(1)
proof (cases rule: ReleaseCharacterLock_cases)
  case (call st' rc' key q)
  then have same: "st' = st" "rc' = rc" using assms(2) by simp_all
  have sk: "str_key (view s) key" using call same assms(3) lock_key_str by auto
  from call(5) obtain x where q: "q = Inr x" "b = truthy x" by (cases q) auto
  with call same c_Eval_Inr have x: "releaseCharacterLockScript rc key (TrimSpace ow) s = (x, s')" by blast
  from releaseScript_run [OF x sk] q have
    "b \<longleftrightarrow> (\<exists>t. view s key = Some (RStr (TrimSpace ow), t))"
    "view s' = (if b then (view s)(key := None) else view s)" by auto
  with that call same show ?thesis by blast
qed simp

lemma renew_view:
  assumes "RenewCharacterLock (Some st) c ow ttl s = (r, s')"
    and "cl_client st = Some rc" and "wf_keys (cl_keys st) (view s)"
    and "Millisecond \<le> effectiveTTL st ttl"
  shows "view s' = view s \<or>
    (\<exists>key t. CharacterLock (cl_keys st) (TrimSpace c) = Inr key \<and>
       view s key = Some (RStr (TrimSpace ow), t) \<and>
       view s' = (view s)(key \<mapsto> (RStr (TrimSpace ow), Some (effectiveTTL st ttl div Millisecond))))"
  using assms(1)
proof (cases rule: RenewCharacterLock_cases)
  case (call st' rc' key q)
  then have same: "st' = st" "rc' = rc" using assms(2) by simp_all
  let ?f = "renewCharacterLockScript rc key (TrimSpace ow) (effectiveTTL st ttl div Millisecond)"
  have sk: "str_key (view s) key" using call(3) same assms(3) lock_key_str by auto
  have pos: "0 < effectiveTTL st ttl div Millisecond"
    using assms(4) by (simp add: Millisecond_def pos_imp_zdiv_pos_iff)
  have ev: "c_Eval rc ?f s = (q, s')" using call(4) same by simp
  obtain x t where x: "?f s = (x, t)" by force
  have "view s' = view s \<or> view s' = view t"
  proof (cases q)
    case (Inl e)
    from c_Eval_Inl_view [OF ev [unfolded Inl]] x show ?thesis by simp
  next
    case (Inr y)
    from c_Eval_Inr [OF ev [unfolded Inr]] x show ?thesis by simp
  qed
  with renewScript_run [OF x sk pos] call(3) same show ?thesis by (auto split: if_splits)
qed simp

text \<open>The operations keep to the lock keys, whatever they report.\<close>

lemma locks_within:
  assumes "cl_client st = Some rc" and "wf_keys (cl_keys st) (view s)"
  shows "AcquireCharacterLock (Some st) c ow ttl s = (a, s') \<Longrightarrow> 0 < effectiveTTL st ttl \<Longrightarrow>
      keeps_to {''character_lock''} (cl_keys st) (view s) (view s')"
    and "RenewCharacterLock (Some st) c ow ttl s = (b, s') \<Longrightarrow> Millisecond \<le> effectiveTTL st ttl \<Longrightarrow>
      keeps_to {''character_lock''} (cl_keys st) (view s) (view s')"
    and "ReleaseCharacterLock (Some st) c ow s = (d, s') \<Longrightarrow> keeps_to {''character_lock''} (cl_keys st) (view s) (view s')"
  using acquire_view [of st c ow ttl s a s'] renew_view [of st c ow ttl s b s'] release_view [of st c ow s d s'] assms
    keeps_to_refl [OF assms(2)] keeps_to_str [OF assms(2)] keeps_to_del [OF assms(2)]
  unfolding CharacterLock_def by fastforce+

lemma owner_call_view:
  assumes "GetCharacterLockOwner (Some st) c s = (r, s')" and "cl_client st = Some rc"
  shows "view s' = view s"
proof (cases "\<exists>x key. RequiredID ''character ID'' c = Inr x \<and> CharacterLock (cl_keys st) x = Inr key")
  case True
  then obtain x key where x: "RequiredID ''character ID'' c = Inr x" "CharacterLock (cl_keys st) x = Inr key" by blast
  obtain q s1 where q: "c_Get rc key s = (q, s1)" by force
  with assms x have "s' = s1"
    by (cases q) (auto simp: GetCharacterLockOwner_def split: if_splits sum.splits)
  with c_Get_view [OF q] show ?thesis by simp
qed (use assms in \<open>auto simp: GetCharacterLockOwner_def bindP_def split: sum.splits\<close>)

end

locale lock_store = redis_server +
  fixes st :: "'a CharacterLockStore"
  assumes st_client: "cl_client st = Some rc"
    and st_ttl: "0 < cl_lockTTL st"
begin

lemma effectiveTTL_pos: "0 < effectiveTTL st ttl"
  using st_ttl by (simp add: effectiveTTL_def)

text \<open>The store refines the locker contract.\<close>

sublocale locker: character_locker "AcquireCharacterLock (Some st)" "ReleaseCharacterLock (Some st)"
  "\<lambda>s. lock_holder (cl_keys st) (view s)" "\<lambda>s. wf_keys (cl_keys st) (view s)"
proof (unfold_locales, goal_cases)
  case (1 s ttl c ow b s')
  from acquire_result [OF 1(3) st_client effectiveTTL_pos] obtain key where
    k: "CharacterLock (cl_keys st) (TrimSpace c) = Inr key" and b: "b \<longleftrightarrow> view s key = None" and
    v: "view s' = (if b then (view s)(key \<mapsto>
      (RStr (TrimSpace ow), Some (px_ms rc (effectiveTTL st ttl)))) else view s)" by blast
  have "lock_holder (cl_keys st) (view s) (TrimSpace c) = None \<longleftrightarrow> view s key = None"
    by (rule lock_holder_key [OF k lock_key_str [OF 1(1) k]])
  with b v show ?case by (auto simp: lock_holder_upd [OF k])
next
  case (2 s ttl c ow e s')
  from acquire_view [OF 2(3) st_client effectiveTTL_pos] show ?case
  proof
    assume "\<exists>key. CharacterLock (cl_keys st) (TrimSpace c) = Inr key \<and> view s key = None \<and>
       view s' = (view s)(key \<mapsto> (RStr (TrimSpace ow), Some (px_ms rc (effectiveTTL st ttl))))"
    then obtain key where k: "CharacterLock (cl_keys st) (TrimSpace c) = Inr key"
      and n: "view s key = None"
      and v: "view s' = (view s)(key \<mapsto> (RStr (TrimSpace ow), Some (px_ms rc (effectiveTTL st ttl))))"
      by blast
    have "lock_holder (cl_keys st) (view s) (TrimSpace c) = None"
      using lock_holder_key [OF k lock_key_str [OF 2(1) k]] n by simp
    with v show ?case by (simp add: lock_holder_upd [OF k])
  qed simp
next
  case (3 s c ow b s')
  from release_result [OF 3(2) st_client 3(1)] obtain key where
    k: "CharacterLock (cl_keys st) (TrimSpace c) = Inr key" and
    b: "b \<longleftrightarrow> (\<exists>t. view s key = Some (RStr (TrimSpace ow), t))" and
    v: "view s' = (if b then (view s)(key := None) else view s)" by blast
  show ?case using b v by (auto simp: lock_holder_upd [OF k] lock_holder_Some [OF k])
next
  case (4 s c ow e s')
  from release_view [OF 4(2) st_client 4(1)] show ?case
    by (auto simp: lock_holder_upd lock_holder_Some)
next
  case (5 s ttl c ow r s')
  from acquire_view [OF 5(3) st_client effectiveTTL_pos] 5(1) show ?case
    by (auto intro: wf_lock_upd)
next
  case (6 s c ow r s')
  from release_view [OF 6(2) st_client 6(1)] 6(1) show ?case
    by (auto intro: wf_lock_upd)
qed

end

text \<open>The store the game server is wired with, on the in-memory server.\<close>

definition mem_lock_store :: "mem CharacterLockStore" where
  "mem_lock_store = \<lparr>cl_client = Some mem_redis, cl_keys = \<lparr>kb_prefix = ''rpg:local''\<rparr>,
     cl_lockTTL = DefaultCharacterLockTTL\<rparr>"

interpretation mem_locks: lock_store mem_redis mem_view mem_lock_store
  by unfold_locales (simp_all add: mem_lock_store_def DefaultCharacterLockTTL_def Second_def)

section \<open>Properties\<close>


text \<open>
  Expiry: when the lock's time to live has passed, the next delivered acquisition of the
  same character succeeds, whoever asks. Nothing in the game server calls
  \<open>RenewCharacterLock\<close>, so a session that outlives the time to live is no longer
  protected by its lock.
\<close>

theorem lock_expires_unrenewed:
  assumes "redis_clock rc view pass" and "cl_client st = Some rc" and "0 < cl_lockTTL st"
    and "AcquireCharacterLock (Some st) c ow ttl s = (Inr True, s1)"
    and "px_ms rc (effectiveTTL st ttl) \<le> d"
    and "AcquireCharacterLock (Some st) c' ow' ttl' (pass d s1) = (Inr b, s2)"
    and "TrimSpace c' = TrimSpace c"
  shows "b"
proof -
  have ax: "redis_server rc view" using assms(1) by (simp add: redis_clock_def)
  have pos: "0 < effectiveTTL st u" for u using assms(3) by (simp add: effectiveTTL_def)
  obtain key where k: "CharacterLock (cl_keys st) (TrimSpace c) = Inr key"
    and v': "view s1 = (view s)(key \<mapsto> (RStr (TrimSpace ow), Some (px_ms rc (effectiveTTL st ttl))))"
    by (rule redis_server.acquire_True_view [OF ax assms(4,2) pos])
  then have v: "view s1 key = Some (RStr (TrimSpace ow), Some (px_ms rc (effectiveTTL st ttl)))" by simp
  have "0 \<le> d" using redis_server.px_pos [OF ax pos [of ttl]] assms(5) by simp
  then have "view (pass d s1) key = None"
    using redis_clock.pass_expired [OF assms(1) v] assms(5) by simp
  moreover obtain key' where "CharacterLock (cl_keys st) (TrimSpace c') = Inr key'"
    and "b \<longleftrightarrow> view (pass d s1) key' = None"
    using redis_server.acquire_result [OF ax assms(6,2) pos] by metis
  ultimately show ?thesis using k assms(7) by simp
qed

text \<open>
  C17. Release and renewal are owner-checked: whatever they report, a caller that does not
  hold the lock leaves every key as it was.
\<close>

theorem release_renew_owner_checked:
  assumes "redis_server rc view" and "cl_client st = Some rc" and "0 < cl_lockTTL st"
    and "wf_keys (cl_keys st) (view s)"
    and "lock_holder (cl_keys st) (view s) (TrimSpace c) \<noteq> Some (TrimSpace ow)"
    and "Millisecond \<le> effectiveTTL st ttl"
  shows "view (snd (ReleaseCharacterLock (Some st) c ow s)) = view s \<and>
    view (snd (RenewCharacterLock (Some st) c ow ttl s)) = view s"
proof
  obtain r t where r: "ReleaseCharacterLock (Some st) c ow s = (r, t)" by force
  show "view (snd (ReleaseCharacterLock (Some st) c ow s)) = view s"
    using redis_server.release_view [OF assms(1) r assms(2,4)] assms(5) r
    by (auto simp: lock_holder_Some)
next
  obtain r t where r: "RenewCharacterLock (Some st) c ow ttl s = (r, t)" by force
  show "view (snd (RenewCharacterLock (Some st) c ow ttl s)) = view s"
    using redis_server.renew_view [OF assms(1) r assms(2,4,6)] assms(5) r
    by (auto simp: lock_holder_Some)
qed

text \<open>
  Round trip: acquiring and then releasing as the same owner reports success and
  restores the live keys.
\<close>

theorem acquire_release_roundtrip:
  assumes "redis_server rc view" and "cl_client st = Some rc" and "0 < cl_lockTTL st"
    and "wf_keys (cl_keys st) (view s)"
    and "AcquireCharacterLock (Some st) c ow ttl s = (Inr True, s1)"
    and "ReleaseCharacterLock (Some st) c ow s1 = (Inr b, s2)"
  shows "b \<and> view s2 = view s"
proof -
  have pos: "0 < effectiveTTL st ttl" using assms(3) by (simp add: effectiveTTL_def)
  obtain key where k: "CharacterLock (cl_keys st) (TrimSpace c) = Inr key" "view s key = None"
    and v: "view s1 = (view s)(key \<mapsto> (RStr (TrimSpace ow), Some (px_ms rc (effectiveTTL st ttl))))"
    by (rule redis_server.acquire_True_view [OF assms(1,5,2) pos])
  have "wf_keys (cl_keys st) (view s1)" unfolding v by (rule wf_lock_upd [OF assms(4) k(1)])
  from redis_server.release_result [OF assms(1,6,2) this] k(1) v have
    "b \<and> view s2 = (view s1)(key := None)" by (metis fun_upd_same sum.inject(2))
  then show ?thesis using v k(2) by auto
qed

section \<open>Witnesses\<close>

definition w_acq :: "string \<Rightarrow> mem \<Rightarrow> bool result \<times> mem" where
  "w_acq ow s = AcquireCharacterLock (Some mem_lock_store) ''c1'' ow 0 s"

definition w_rel :: "string \<Rightarrow> mem \<Rightarrow> bool result \<times> mem" where
  "w_rel ow s = ReleaseCharacterLock (Some mem_lock_store) ''c1'' ow s"

lemma w_facts:
  "cl_client mem_lock_store = Some mem_redis" "0 < cl_lockTTL mem_lock_store"
  "px_ms mem_redis (effectiveTTL mem_lock_store 0) = 20000"
  "Millisecond \<le> effectiveTTL mem_lock_store 0"
  by (simp_all add: mem_lock_store_def effectiveTTL_def mem_redis_def DefaultCharacterLockTTL_def
      Second_def Millisecond_def)

lemma w_acquired: "fst (w_acq ''s1'' mem_empty) = Inr True"
  by code_simp

lemma w_wf_empty: "wf_keys (cl_keys mem_lock_store) (mem_view mem_empty)"
  by (simp add: wf_keys_def set_key_def str_key_def mem_view_def mem_empty_def)


text \<open>The reply of a call pairs its result with the state it leaves.\<close>

lemma w_acq_eq: "fst (w_acq ow s) = Inr b \<Longrightarrow>
  AcquireCharacterLock (Some mem_lock_store) ''c1'' ow 0 s = (Inr b, snd (w_acq ow s))"
  by (simp add: w_acq_def prod_eq_iff)

lemma w_rel_eq: "fst (w_rel ow s) = Inr b \<Longrightarrow>
  ReleaseCharacterLock (Some mem_lock_store) ''c1'' ow s = (Inr b, snd (w_rel ow s))"
  by (simp add: w_rel_def prod_eq_iff)

theorem lock_expires_unrenewed_witness:
  "fst (w_acq ''s1'' mem_empty) = Inr True \<and>
   fst (w_acq ''s2'' (mem_pass 20000 (snd (w_acq ''s1'' mem_empty)))) = Inr True"
proof -
  let ?s1 = "snd (w_acq ''s1'' mem_empty)"
  have "\<exists>b. fst (w_acq ''s2'' (mem_pass 20000 ?s1)) = Inr b" by code_simp
  then obtain b where b: "fst (w_acq ''s2'' (mem_pass 20000 ?s1)) = Inr b" by blast
  have "b"
    by (rule lock_expires_unrenewed [OF mem_clocked.redis_clock_axioms w_facts(1,2)
          w_acq_eq [OF w_acquired] _ w_acq_eq [OF b]])
       (simp_all add: w_facts(3))
  with b w_acquired show ?thesis by simp
qed

theorem release_renew_owner_checked_witness:
  "mem_view (snd (ReleaseCharacterLock (Some mem_lock_store) ''c1'' ''s2'' (snd (w_acq ''s1'' mem_empty)))) =
     mem_view (snd (w_acq ''s1'' mem_empty)) \<and>
   lock_holder (cl_keys mem_lock_store) (mem_view (snd (w_acq ''s1'' mem_empty))) ''c1'' = Some ''s1''"
proof -
  let ?s1 = "snd (w_acq ''s1'' mem_empty)"
  have h: "lock_holder (cl_keys mem_lock_store) (mem_view ?s1) ''c1'' = Some ''s1''" by code_simp
  have t: "TrimSpace ''c1'' = ''c1''" "TrimSpace ''s2'' = ''s2''" by code_simp+
  have wf: "wf_keys (cl_keys mem_lock_store) (mem_view ?s1)"
  proof (rule mem_server.acquire_True_view [OF w_acq_eq [OF w_acquired] w_facts(1) mem_locks.effectiveTTL_pos])
    fix key
    assume "CharacterLock (cl_keys mem_lock_store) (TrimSpace ''c1'') = Inr key"
      and "mem_view ?s1 = (mem_view mem_empty)(key \<mapsto>
        (RStr (TrimSpace ''s1''), Some (px_ms mem_redis (effectiveTTL mem_lock_store 0))))"
    then show ?thesis using wf_lock_upd(1) [OF w_wf_empty] by simp
  qed
  show ?thesis
    using release_renew_owner_checked [OF mem_server.redis_server_axioms w_facts(1,2) wf, of "''c1''" "''s2''" 0]
      h t w_facts(4) by simp
qed

theorem acquire_release_roundtrip_witness:
  "fst (w_rel ''s1'' (snd (w_acq ''s1'' mem_empty))) = Inr True \<and>
   mem_view (snd (w_rel ''s1'' (snd (w_acq ''s1'' mem_empty)))) = mem_view mem_empty"
proof -
  let ?s1 = "snd (w_acq ''s1'' mem_empty)"
  have "\<exists>b. fst (w_rel ''s1'' ?s1) = Inr b" by code_simp
  then obtain b where b: "fst (w_rel ''s1'' ?s1) = Inr b" by blast
  show ?thesis
    using acquire_release_roundtrip [OF mem_server.redis_server_axioms w_facts(1,2) w_wf_empty
        w_acq_eq [OF w_acquired] w_rel_eq [OF b]] b by simp
qed

end
