(* ===== verification/World.thy ===== *)
theory World
  imports Domain "HOL-Library.Finite_Map" "HOL-Library.Word"
begin

text \<open>
  The state of the game server: the entity map of \<open>internal/game/world.go\<close> and the
  session map of \<open>internal/game/session.go\<close>, as finite maps. Entities and sessions
  are shared by pointer only through these maps, so updating the map entry is updating
  the object. The order in which Go ranges over a map is an argument: a list of keys that
  enumerates the map (\<open>enumerates\<close>). The mutexes guard single-threaded calls of the
  game loop and are left out.
\<close>

section \<open>Definitions: world\<close>

type_synonym EntityType = "32 word"

definition EntityTypePlayer :: EntityType where
  "EntityTypePlayer = 0"

definition EntityTypeNPC :: EntityType where
  "EntityTypeNPC = 1"

record Entity =
  ent_ID :: string
  ent_Type :: EntityType
  ent_Position :: Vec2
  ent_Velocity :: Vec2

record World =
  entities :: "(string, Entity) fmap"
  w_tick :: "64 word"

definition NewWorld :: World where
  "NewWorld = \<lparr>entities = fmempty, w_tick = 0\<rparr>"

definition AddEntity :: "World \<Rightarrow> Entity \<Rightarrow> World" where
  "AddEntity w entity = w\<lparr>entities := fmupd (ent_ID entity) entity (entities w)\<rparr>"

definition GetEntity :: "World \<Rightarrow> string \<Rightarrow> Entity option" where
  "GetEntity w i = fmlookup (entities w) i"

definition RemoveEntity :: "World \<Rightarrow> Entity \<Rightarrow> World" where
  "RemoveEntity w entity = w\<lparr>entities := fmdrop (ent_ID entity) (entities w)\<rparr>"

text \<open>A range over a map visits every key once, in some order.\<close>

definition enumerates :: "'k list \<Rightarrow> ('k, 'v) fmap \<Rightarrow> bool" where
  "enumerates ks m = (distinct ks \<and> fset_of_list ks = fmdom m)"

definition Snapshot :: "string list \<Rightarrow> World \<Rightarrow> Entity list \<times> 64 word" where
  "Snapshot order w = (List.map_filter (fmlookup (entities w)) order, w_tick w)"

definition Tick :: "World \<Rightarrow> 64 word" where
  "Tick w = w_tick w"

definition IncrementTick :: "World \<Rightarrow> World" where
  "IncrementTick w = w\<lparr>w_tick := w_tick w + 1\<rparr>"

section \<open>Definitions: sessions\<close>

text \<open>The client's input packet, \<open>proto/rpg/v1/game.proto\<close>.\<close>

record InputPacket =
  ip_Sequence :: "32 word"
  ip_MoveDirection :: "Vec2 option"

record 'p Session =
  Peer :: 'p
  sess_UserID :: string
  sess_CharacterID :: string
  EntityID :: string
  LatestInput :: "InputPacket option"

type_synonym 'p SessionManager = "('p, 'p Session) fmap"

definition NewSessionManager :: "'p SessionManager" where
  "NewSessionManager = fmempty"

definition Add :: "'p SessionManager \<Rightarrow> 'p Session \<Rightarrow> 'p SessionManager" where
  "Add sm session = fmupd (Peer session) session sm"

definition sm_Get :: "'p SessionManager \<Rightarrow> 'p \<Rightarrow> 'p Session option" where
  "sm_Get sm peer = fmlookup sm peer"

definition Remove :: "'p SessionManager \<Rightarrow> 'p \<Rightarrow> 'p Session option \<times> 'p SessionManager" where
  "Remove sm peer =
     (case fmlookup sm peer of None \<Rightarrow> (None, sm) | Some sess \<Rightarrow> (Some sess, fmdrop peer sm))"

definition All :: "'p list \<Rightarrow> 'p SessionManager \<Rightarrow> 'p Session list" where
  "All order sm = List.map_filter (fmlookup sm) order"

definition Count :: "'p SessionManager \<Rightarrow> nat" where
  "Count sm = fcard (fmdom sm)"

section \<open>Well-formedness\<close>

text \<open>Entities are stored under their own ID and sessions under their own peer.\<close>

definition wf_world :: "World \<Rightarrow> bool" where
  "wf_world w = fmpred (\<lambda>i e. ent_ID e = i) (entities w)"

definition wf_sm :: "'p SessionManager \<Rightarrow> bool" where
  "wf_sm sm = fmpred (\<lambda>p s. Peer s = p) sm"

section \<open>Lemmas\<close>

lemma wf_NewWorld [simp]: "wf_world NewWorld"
  by (simp add: wf_world_def NewWorld_def)

lemma wf_AddEntity: "wf_world w \<Longrightarrow> wf_world (AddEntity w e)"
  by (auto simp: wf_world_def AddEntity_def intro: fmpred_upd)

lemma wf_RemoveEntity: "wf_world w \<Longrightarrow> wf_world (RemoveEntity w e)"
  by (simp add: wf_world_def RemoveEntity_def fmpred_drop)

lemma wf_NewSessionManager [simp]: "wf_sm NewSessionManager"
  by (simp add: wf_sm_def NewSessionManager_def)

lemma wf_Add: "wf_sm sm \<Longrightarrow> wf_sm (Add sm s)"
  by (auto simp: wf_sm_def Add_def intro: fmpred_upd)

lemma wf_Remove: "wf_sm sm \<Longrightarrow> wf_sm (snd (Remove sm p))"
  by (simp add: wf_sm_def Remove_def fmpred_drop split: option.splits)

lemma wf_worldD: "wf_world w \<Longrightarrow> GetEntity w i = Some e \<Longrightarrow> ent_ID e = i"
  unfolding wf_world_def GetEntity_def by (rule fmpredD)

lemma wf_smD: "wf_sm sm \<Longrightarrow> fmlookup sm p = Some s \<Longrightarrow> Peer s = p"
  unfolding wf_sm_def by (rule fmpredD)

lemma GetEntity_AddEntity [simp]:
  "GetEntity (AddEntity w e) i = (if i = ent_ID e then Some e else GetEntity w i)"
  by (simp add: GetEntity_def AddEntity_def)

lemma GetEntity_RemoveEntity [simp]:
  "GetEntity (RemoveEntity w e) i = (if i = ent_ID e then None else GetEntity w i)"
  by (simp add: GetEntity_def RemoveEntity_def)

lemma tick_frame [simp]:
  "w_tick (AddEntity w e) = w_tick w" "w_tick (RemoveEntity w e) = w_tick w"
  by (simp_all add: AddEntity_def RemoveEntity_def)

lemma Remove_lookup: "fmlookup (snd (Remove sm p)) q = (if q = p then None else fmlookup sm q)"
  by (simp add: Remove_def split: option.splits)

lemma Remove_fst [simp]: "fst (Remove sm p) = fmlookup sm p"
  by (simp add: Remove_def split: option.splits)

lemma enumerates_dom: "enumerates ks m \<Longrightarrow> k \<in> set ks \<longleftrightarrow> fmlookup m k \<noteq> None"
proof -
  assume "enumerates ks m"
  then have "fset (fmdom m) = set ks" by (metis enumerates_def fset_of_list.rep_eq)
  then show ?thesis by (simp add: fmlookup_dom_iff [symmetric] fmdom.rep_eq domIff)
qed

lemma map_filter_enumerates:
  assumes "enumerates ks m"
  shows "set (List.map_filter (fmlookup m) ks) = fmran' m"
  using enumerates_dom [OF assms] by (fastforce simp: set_map_filter fmlookup_ran'_iff)

lemma length_enumerates:
  assumes "enumerates ks m"
  shows "length (List.map_filter (fmlookup m) ks) = fcard (fmdom m)"
proof -
  have "\<forall>k \<in> set ks. fmlookup m k \<noteq> None" using enumerates_dom [OF assms] by blast
  then have "length (List.map_filter (fmlookup m) ks) = length ks"
    by (induction ks) (auto simp: map_filter_simps)
  moreover have "fset (fmdom m) = set ks" "distinct ks"
    using assms by (metis enumerates_def fset_of_list.rep_eq)+
  then have "length ks = fcard (fmdom m)" by (simp add: fcard.rep_eq distinct_card)
  ultimately show ?thesis by simp
qed

end
