(* ===== verification/Simulation.thy ===== *)
theory Simulation
  imports World
begin

text \<open>
  The simulation of \<open>internal/game/simulation.go\<close>, the snapshot builder of
  \<open>snapshot.go\<close> and the tick of the world. Coordinates are IEEE doubles
  (\<open>Go_Float64\<close>): the step bound and the effect of a NaN direction are statements
  about the rounded arithmetic the program performs. A multiply and an add are rounded
  separately, as on targets that do not fuse them.
\<close>

section \<open>Definitions\<close>

definition defaultSimulationTickRate :: int where
  "defaultSimulationTickRate = 64"

definition defaultMoveSpeed :: f64 where
  "defaultMoveSpeed = f64_0_05"

record Simulation =
  tickRate :: int
  moveSpeed :: f64

definition NewSimulation :: "int \<Rightarrow> f64 \<Rightarrow> Simulation" where
  "NewSimulation rate speed =
     \<lparr>tickRate = (if rate \<le> 0 then defaultSimulationTickRate else rate),
      moveSpeed = (if f64_le speed f64_zero then defaultMoveSpeed else speed)\<rparr>"

definition TickInterval :: "Simulation \<Rightarrow> duration" where
  "TickInterval s = go_div Second (tickRate s)"

definition clampFloat :: "f64 \<Rightarrow> f64 \<Rightarrow> f64 \<Rightarrow> f64" where
  "clampFloat v low high = (if f64_lt v low then low else if f64_gt v high then high else v)"

text \<open>The part of \<open>ProcessInput\<close> that moves an entity in a direction.\<close>

definition move_entity :: "Simulation \<Rightarrow> Vec2 \<Rightarrow> Entity \<Rightarrow> Entity" where
  "move_entity s dir e =
     (let dx = clampFloat (X dir) f64_neg_one f64_one;
          dy = clampFloat (Y dir) f64_neg_one f64_one
      in e\<lparr>ent_Position := \<lparr>X = f64_add (X (ent_Position e)) (f64_mul dx (moveSpeed s)),
                           Y = f64_add (Y (ent_Position e)) (f64_mul dy (moveSpeed s))\<rparr>,
           ent_Velocity := \<lparr>X = f64_mul dx (moveSpeed s), Y = f64_mul dy (moveSpeed s)\<rparr>\<rparr>)"

definition ProcessInput :: "Simulation \<Rightarrow> World \<Rightarrow> string \<Rightarrow> InputPacket \<Rightarrow> World" where
  "ProcessInput s w entityID input =
     (case GetEntity w entityID of
        None \<Rightarrow> w
      | Some entity \<Rightarrow>
          (case ip_MoveDirection input of
             None \<Rightarrow> w
           | Some dir \<Rightarrow> w\<lparr>entities := fmupd entityID (move_entity s dir entity) (entities w)\<rparr>))"

text \<open>One round of the loop of \<open>DrainInputs\<close>, for the session of a peer.\<close>

definition drain_one :: "Simulation \<Rightarrow> 'p \<Rightarrow> World \<times> 'p SessionManager \<Rightarrow> World \<times> 'p SessionManager" where
  "drain_one s p st =
     (case fmlookup (snd st) p of
        None \<Rightarrow> st
      | Some session \<Rightarrow>
          (case LatestInput session of
             None \<Rightarrow> st
           | Some input \<Rightarrow>
               (ProcessInput s (fst st) (EntityID session) input,
                fmupd p (session\<lparr>LatestInput := None\<rparr>) (snd st))))"

definition DrainInputs :: "Simulation \<Rightarrow> 'p list \<Rightarrow> World \<Rightarrow> 'p SessionManager \<Rightarrow> World \<times> 'p SessionManager" where
  "DrainInputs s order w sm = fold (drain_one s) order (w, sm)"

record EntitySnapshot =
  es_EntityId :: string
  es_Type :: "32 word"
  es_Position :: Vec2
  es_Velocity :: Vec2

record SnapshotPacket =
  sp_Tick :: "64 word"
  sp_ServerTimeMs :: "64 word"
  sp_Entities :: "EntitySnapshot list"

text \<open>\<open>time.Now().UnixMilli()\<close> is the argument \<open>now_ms\<close>; the conversion to \<open>uint64\<close> wraps.\<close>

definition entitySnapshot :: "Entity \<Rightarrow> EntitySnapshot" where
  "entitySnapshot e = \<lparr>es_EntityId = ent_ID e, es_Type = ent_Type e,
     es_Position = \<lparr>X = X (ent_Position e), Y = Y (ent_Position e)\<rparr>,
     es_Velocity = \<lparr>X = X (ent_Velocity e), Y = Y (ent_Velocity e)\<rparr>\<rparr>"

definition BuildSnapshot :: "string list \<Rightarrow> int \<Rightarrow> World \<Rightarrow> SnapshotPacket" where
  "BuildSnapshot order now_ms w =
     (let (es, tick) = Snapshot order w
      in \<lparr>sp_Tick = tick, sp_ServerTimeMs = word_of_int now_ms, sp_Entities = map entitySnapshot es\<rparr>)"

section \<open>Lemmas\<close>

lemma NewSimulation_rate: "0 < tickRate (NewSimulation r v)"
  by (simp add: NewSimulation_def defaultSimulationTickRate_def)

lemma move_entity_frame [simp]:
  "ent_ID (move_entity s d e) = ent_ID e" "ent_Type (move_entity s d e) = ent_Type e"
  by (simp_all add: move_entity_def Let_def)

lemma ProcessInput_lookup:
  "GetEntity (ProcessInput s w i inp) j =
     (if j = i then (case ip_MoveDirection inp of None \<Rightarrow> GetEntity w i
        | Some d \<Rightarrow> map_option (move_entity s d) (GetEntity w i)) else GetEntity w j)"
  by (simp add: ProcessInput_def GetEntity_def split: option.splits)

lemma ProcessInput_tick [simp]: "w_tick (ProcessInput s w i inp) = w_tick w"
  by (simp add: ProcessInput_def split: option.splits)

lemma world_eqI: "(\<And>i. GetEntity w i = GetEntity v i) \<Longrightarrow> w_tick w = w_tick v \<Longrightarrow> w = v"
  by (cases w; cases v) (simp add: GetEntity_def fmap_ext)

lemma wf_ProcessInput: "wf_world w \<Longrightarrow> wf_world (ProcessInput s w i inp)"
proof -
  assume w: "wf_world w"
  show ?thesis unfolding wf_world_def
  proof (rule fmpredI)
    fix j e assume "fmlookup (entities (ProcessInput s w i inp)) j = Some e"
    then have "GetEntity (ProcessInput s w i inp) j = Some e" by (simp add: GetEntity_def)
    with wf_worldD [OF w] show "ent_ID e = j"
      by (auto simp: ProcessInput_lookup split: if_splits option.splits)
  qed
qed

text \<open>Inputs for different entities commute.\<close>

lemma ProcessInput_commute:
  "i \<noteq> j \<Longrightarrow> ProcessInput s (ProcessInput s w i a) j b = ProcessInput s (ProcessInput s w j b) i a"
  by (rule world_eqI) (auto simp: ProcessInput_lookup split: option.splits)

text \<open>Draining clears the queued input of every session it visits.\<close>

lemma drain_one_sm:
  "fmlookup (snd (drain_one s p st)) q =
     (if q = p then map_option (LatestInput_update (\<lambda>_. None)) (fmlookup (snd st) q) else fmlookup (snd st) q)"
  by (cases "fmlookup (snd st) p") (auto simp: drain_one_def split: option.splits)

lemma clear_idem:
  "map_option (LatestInput_update (\<lambda>_. None)) (map_option (LatestInput_update (\<lambda>_. None)) x) =
     map_option (LatestInput_update (\<lambda>_. None)) x"
  by (cases x) simp_all

lemma drain_sm:
  "fmlookup (snd (fold (drain_one s) order st)) q =
     (if q \<in> set order then map_option (LatestInput_update (\<lambda>_. None)) (fmlookup (snd st) q) else fmlookup (snd st) q)"
proof (induction order arbitrary: st)
  case (Cons p order)
  then show ?case by (cases "q = p") (simp_all add: drain_one_sm clear_idem)
qed simp

lemma drain_tick [simp]: "w_tick (fst (fold (drain_one s) order st)) = w_tick (fst st)"
proof (induction order arbitrary: st)
  case (Cons p order)
  have "w_tick (fst (drain_one s p st)) = w_tick (fst st)" by (simp add: drain_one_def split: option.splits)
  with Cons show ?case by simp
qed simp

text \<open>The input a session has queued for an entity.\<close>

definition queued :: "'p SessionManager \<Rightarrow> 'p \<Rightarrow> string \<Rightarrow> InputPacket \<Rightarrow> bool" where
  "queued sm p i inp = (\<exists>se. fmlookup sm p = Some se \<and> EntityID se = i \<and> LatestInput se = Some inp)"

lemma drain_one_entity:
  "(\<And>inp. \<not> queued (snd st) p i inp) \<Longrightarrow> GetEntity (fst (drain_one s p st)) i = GetEntity (fst st) i"
  "queued (snd st) p i inp \<Longrightarrow> fst (drain_one s p st) = ProcessInput s (fst st) i inp"
  by (auto simp: drain_one_def queued_def ProcessInput_lookup split: option.splits)

lemma drain_one_queued:
  "p \<noteq> q \<Longrightarrow> queued (snd (drain_one s p st)) q i inp = queued (snd st) q i inp"
  by (simp add: queued_def drain_one_sm)

lemma drain_entity_none:
  "(\<And>p inp. p \<in> set order \<Longrightarrow> \<not> queued (snd st) p i inp) \<Longrightarrow> distinct order \<Longrightarrow>
     GetEntity (fst (fold (drain_one s) order st)) i = GetEntity (fst st) i"
proof (induction order arbitrary: st)
  case (Cons p order)
  have "\<not> queued (snd (drain_one s p st)) q i inp" if "q \<in> set order" for q inp
    using Cons.prems that by (subst drain_one_queued) auto
  with Cons show ?case by (simp add: drain_one_entity(1))
qed simp

lemma drain_entity_some:
  assumes "distinct order" and "p \<in> set order" and "queued (snd st) p i inp"
    and "\<And>q inp. q \<in> set order \<Longrightarrow> q \<noteq> p \<Longrightarrow> \<not> queued (snd st) q i inp"
  shows "GetEntity (fst (fold (drain_one s) order st)) i = GetEntity (ProcessInput s (fst st) i inp) i"
  using assms
proof (induction order arbitrary: st)
  case (Cons q order)
  show ?case
  proof (cases "q = p")
    case True
    have "\<not> queued (snd (drain_one s q st)) r i x" if "r \<in> set order" for r x
      using Cons.prems(1,4) True that by (subst drain_one_queued) auto
    then have "GetEntity (fst (fold (drain_one s) order (drain_one s q st))) i = GetEntity (fst (drain_one s q st)) i"
      using Cons.prems(1) by (intro drain_entity_none) auto
    with True drain_one_entity(2) [OF Cons.prems(3)] show ?thesis by simp
  next
    case False
    have n: "\<And>x. \<not> queued (snd st) q i x" using Cons.prems(4) False by simp
    have "GetEntity (fst (fold (drain_one s) order (drain_one s q st))) i =
        GetEntity (ProcessInput s (fst (drain_one s q st)) i inp) i"
    proof (rule Cons.IH)
      show "queued (snd (drain_one s q st)) p i inp" using Cons.prems(3) False by (simp add: drain_one_queued)
      show "\<not> queued (snd (drain_one s q st)) r i x" if "r \<in> set order" "r \<noteq> p" for r x
        using Cons.prems(1,4) that by (subst drain_one_queued) auto
    qed (use Cons.prems False in auto)
    also have "\<dots> = GetEntity (ProcessInput s (fst st) i inp) i"
      using drain_one_entity(1) [of st q i s, OF n]
      by (cases "ip_MoveDirection inp") (simp_all add: ProcessInput_lookup)
    finally show ?thesis by simp
  qed
qed simp

text \<open>No two sessions play the same entity.\<close>

definition distinct_entities :: "'p SessionManager \<Rightarrow> bool" where
  "distinct_entities sm =
     (\<forall>p q a b. fmlookup sm p = Some a \<longrightarrow> fmlookup sm q = Some b \<longrightarrow> EntityID a = EntityID b \<longrightarrow> p = q)"

text \<open>The result of draining, entity by entity, in terms of the queued inputs only.\<close>

lemma DrainInputs_entity:
  assumes "enumerates order sm" and "distinct_entities sm"
  shows "(\<And>p inp. \<not> queued sm p i inp) \<Longrightarrow> GetEntity (fst (DrainInputs s order w sm)) i = GetEntity w i"
    and "queued sm p i inp \<Longrightarrow>
      GetEntity (fst (DrainInputs s order w sm)) i = GetEntity (ProcessInput s w i inp) i"
proof -
  have d: "distinct order" using assms(1) by (simp add: enumerates_def)
  show "GetEntity (fst (DrainInputs s order w sm)) i = GetEntity w i" if "\<And>p inp. \<not> queued sm p i inp"
    using drain_entity_none [of order "(w, sm)" i s] d that by (simp add: DrainInputs_def)
  show "GetEntity (fst (DrainInputs s order w sm)) i = GetEntity (ProcessInput s w i inp) i"
    if q: "queued sm p i inp"
  proof -
    have "p \<in> set order" using q enumerates_dom [OF assms(1)] by (auto simp: queued_def)
    moreover have "\<not> queued sm r i x" if "r \<noteq> p" for r x
      using q assms(2) that unfolding queued_def distinct_entities_def by blast
    ultimately show ?thesis
      using drain_entity_some [of order p "(w, sm)" i inp s] d q by (simp add: DrainInputs_def)
  qed
qed

lemma DrainInputs_sm:
  assumes "enumerates order sm"
  shows "snd (DrainInputs s order w sm) = fmmap (LatestInput_update (\<lambda>_. None)) sm"
proof (rule fmap_ext)
  fix p
  show "fmlookup (snd (DrainInputs s order w sm)) p = fmlookup (fmmap (LatestInput_update (\<lambda>_. None)) sm) p"
    using enumerates_dom [OF assms, of p] by (cases "fmlookup sm p") (simp_all add: DrainInputs_def drain_sm)
qed

section \<open>Speed\<close>

text \<open>A magnitude bound on a finite coordinate, in units of the last place of the smallest subnormal.\<close>

fun within :: "nat \<Rightarrow> f64 \<Rightarrow> bool" where
  "within n NaN = False"
| "within n (Inf b) = False"
| "within n (Fin b k) = (k \<le> n)"

lemma clamp_within: "v \<noteq> NaN \<Longrightarrow> within (2 ^ 1074) (clampFloat v f64_neg_one f64_one)"
  by (cases v) (auto simp: clampFloat_def f64_neg_one_def f64_one_def f64_gt_def Go_Float64.signed_def split: if_splits)

lemma scaled_within:
  assumes "v \<noteq> NaN" and "speed = Fin b n" and "wf_f64 speed"
  shows "within n (f64_mul (clampFloat v f64_neg_one f64_one) speed)"
proof -
  obtain a m where m: "clampFloat v f64_neg_one f64_one = Fin a m" "m \<le> 2 ^ 1074"
    using clamp_within [OF assms(1)] by (cases "clampFloat v f64_neg_one f64_one") auto
  have "representable n" using assms(2,3) by simp
  from f64_mul_unit_bound [OF m(2) this, of a b] obtain k where
    "f64_mul (Fin a m) (Fin b n) = Fin (a \<noteq> b) k" "k \<le> n" by blast
  with m(1) assms(2) show ?thesis by simp
qed

section \<open>Not a number\<close>

lemma clamp_NaN [simp]: "clampFloat NaN l h = NaN"
  by (simp add: clampFloat_def f64_gt_def)

lemma move_entity_NaN:
  "X d = NaN \<Longrightarrow> X (ent_Position (move_entity s d e)) = NaN"
  "X (ent_Position e) = NaN \<Longrightarrow> X (ent_Position (move_entity s d e)) = NaN"
  by (simp_all add: move_entity_def Let_def)

section \<open>Properties\<close>



text \<open>
  A NaN direction is not clamped: one such packet makes the coordinate NaN, and no
  later input of any kind makes it a number again.
\<close>

theorem nan_direction_persists:
  assumes "GetEntity w i = Some e" and "ip_MoveDirection inp = Some d" and "X d = NaN"
  shows "\<exists>e'. GetEntity (fold (\<lambda>x v. ProcessInput s v i x) inps (ProcessInput s w i inp)) i = Some e' \<and>
    X (ent_Position e') = NaN"
proof (induction inps rule: rev_induct)
  case Nil
  then show ?case using assms by (simp add: ProcessInput_lookup move_entity_NaN)
next
  case (snoc x inps)
  then show ?case by (cases "ip_MoveDirection x") (auto simp: ProcessInput_lookup move_entity_NaN)
qed

text \<open>
  An input is applied once: after a tick no session has a queued input, and a second
  tick without new packets leaves the world as it is.
\<close>

theorem input_applied_once:
  assumes "enumerates order sm" and "DrainInputs s order w sm = (w', sm')"
  shows "(\<forall>p se. fmlookup sm' p = Some se \<longrightarrow> LatestInput se = None) \<and>
    fmdom sm' = fmdom sm \<and> DrainInputs s order' w' sm' = (w', sm')"
proof -
  have sm': "sm' = fmmap (LatestInput_update (\<lambda>_. None)) sm"
    using DrainInputs_sm [OF assms(1), of s w] assms(2) by simp
  then have none: "\<forall>p se. fmlookup sm' p = Some se \<longrightarrow> LatestInput se = None" by auto
  then have "drain_one s p (w', sm') = (w', sm')" for p
    by (simp add: drain_one_def split: option.splits)
  then have "fold (drain_one s) order' (w', sm') = (w', sm')" by (induction order') simp_all
  with none sm' show ?thesis by (simp add: DrainInputs_def)
qed

section \<open>Witnesses\<close>

definition w_entity :: "string \<Rightarrow> Entity" where
  "w_entity i = \<lparr>ent_ID = i, ent_Type = 0, ent_Position = \<lparr>X = f64_zero, Y = f64_zero\<rparr>,
     ent_Velocity = \<lparr>X = f64_zero, Y = f64_zero\<rparr>\<rparr>"

definition w_input :: "f64 \<Rightarrow> InputPacket" where
  "w_input x = \<lparr>ip_Sequence = 1, ip_MoveDirection = Some \<lparr>X = x, Y = f64_one\<rparr>\<rparr>"

definition w_play :: "nat \<Rightarrow> string \<Rightarrow> nat Session" where
  "w_play p i = \<lparr>Peer = p, sess_UserID = ''u'', sess_CharacterID = i, EntityID = i,
     LatestInput = Some (w_input f64_one)\<rparr>"

definition w_world :: World where
  "w_world = AddEntity (AddEntity NewWorld (w_entity ''a'')) (w_entity ''b'')"

definition w_sm :: "nat SessionManager" where
  "w_sm = Add (Add NewSessionManager (w_play 1 ''a'')) (w_play 2 ''b'')"

lemma w_sm_lookup:
  "fmlookup w_sm p = (if p = 2 then Some (w_play 2 ''b'') else if p = 1 then Some (w_play 1 ''a'') else None)"
  by (simp add: w_sm_def Add_def NewSessionManager_def w_play_def)

lemma w_sm_orders: "enumerates [1, 2] w_sm" "enumerates [2, 1] w_sm"
  by (auto simp: enumerates_def w_sm_def Add_def NewSessionManager_def w_play_def)

lemma w_default_speed:
  "moveSpeed (NewSimulation 0 f64_zero) = Fin False (7205759403792794 * 2 ^ 1017)"
  "wf_f64 (moveSpeed (NewSimulation 0 f64_zero))"
proof -
  have s: "moveSpeed (NewSimulation 0 f64_zero) = f64_0_05"
    by (simp add: NewSimulation_def f64_le_def f64_zero_def defaultMoveSpeed_def)
  then show "moveSpeed (NewSimulation 0 f64_zero) = Fin False (7205759403792794 * 2 ^ 1017)"
    by (simp only: f64_0_05_def)
  show "wf_f64 (moveSpeed (NewSimulation 0 f64_zero))" using s wf_f64_consts by simp
qed



theorem nan_direction_persists_witness:
  "\<exists>e'. GetEntity (fold (\<lambda>x v. ProcessInput (NewSimulation 0 f64_zero) v ''a'' x) [w_input f64_one, w_input f64_zero]
      (ProcessInput (NewSimulation 0 f64_zero) w_world ''a'' (w_input NaN))) ''a'' = Some e' \<and> X (ent_Position e') = NaN"
  by (rule nan_direction_persists [of w_world "''a''" "w_entity ''a''" "w_input NaN" "\<lparr>X = NaN, Y = f64_one\<rparr>"])
     (simp_all add: w_world_def w_entity_def w_input_def)

theorem input_applied_once_witness:
  "\<exists>w' sm'. DrainInputs (NewSimulation 0 f64_zero) [1, 2] w_world w_sm = (w', sm') \<and>
     DrainInputs (NewSimulation 0 f64_zero) [2, 1] w' sm' = (w', sm')"
proof -
  obtain w' sm' where d: "DrainInputs (NewSimulation 0 f64_zero) [1, 2] w_world w_sm = (w', sm')" by force
  from input_applied_once [OF w_sm_orders(1) d, of "[2, 1]"] d show ?thesis by blast
qed

end
