(* ===== verification/Game_Join.thy ===== *)
theory Game_Join
  imports Character_Locks Join_Tokens Simulation
begin

text \<open>
  The join handshake of the game server, \<open>internal/game/join.go\<close> with the packets of
  \<open>packets.go\<close>. The handler works on the world, the sessions and the state of the
  stores behind its three interfaces, and appends what it does to a peer to an action
  log. The protobuf codec is a parameter.
\<close>

section \<open>Definitions: packets\<close>

record JoinRequest =
  jr_JoinToken :: string
  jr_CharacterId :: string

record JoinResponse =
  rsp_Ok :: bool
  rsp_Reason :: string

text \<open>\<open>proto.Marshal\<close> and \<open>proto.Unmarshal\<close> at the message types of the game channel.\<close>

record proto =
  pb_unmarshal_join :: "string \<Rightarrow> JoinRequest result"
  pb_marshal_response :: "JoinResponse \<Rightarrow> string result"
  pb_unmarshal_input :: "string \<Rightarrow> InputPacket result"
  pb_marshal_snapshot :: "SnapshotPacket \<Rightarrow> string result"

definition marshalJoinResponse :: "proto \<Rightarrow> JoinResponse \<Rightarrow> string result" where
  "marshalJoinResponse pb resp =
     mapErr (\<lambda>e. Wrap ''marshal join response'' [e]) (pb_marshal_response pb resp)"

definition unmarshalJoinRequest :: "proto \<Rightarrow> string \<Rightarrow> JoinRequest result" where
  "unmarshalJoinRequest pb data =
     mapErr (\<lambda>e. Wrap ''unmarshal join request'' [e]) (pb_unmarshal_join pb data)"

definition unmarshalInputPacket :: "proto \<Rightarrow> string \<Rightarrow> InputPacket result" where
  "unmarshalInputPacket pb data =
     mapErr (\<lambda>e. Wrap ''unmarshal input packet'' [e]) (pb_unmarshal_input pb data)"

definition marshalSnapshotPacket :: "proto \<Rightarrow> SnapshotPacket \<Rightarrow> string result" where
  "marshalSnapshotPacket pb pkt =
     mapErr (\<lambda>e. Wrap ''marshal snapshot packet'' [e]) (pb_marshal_snapshot pb pkt)"

section \<open>Definitions: the handler\<close>

definition channelReliable :: nat where
  "channelReliable = 0"

definition channelUnreliable :: nat where
  "channelUnreliable = 1"

datatype PacketFlags = PacketFlagReliable | PacketFlagUnsequenced

text \<open>
  What the process asks of the ENet library and of its health server, in order: packets and
  disconnects, and the lifetime of the library, of the host and of the server.
\<close>

datatype 'p action =
    SendBytes 'p string nat PacketFlags
  | Disconnect 'p
  | BroadcastBytes string nat PacketFlags
  | Initialize
  | NewHost
  | ListenAndServe
  | HealthShutdown
  | DestroyHost
  | Deinitialize

record ('p, 's) game =
  g_world :: World
  g_sessions :: "'p SessionManager"
  g_store :: 's
  g_out :: "'p action list"

record 's JoinHandler =
  jh_ConsumeJoinToken :: "string \<Rightarrow> 's \<Rightarrow> JoinToken result \<times> 's"
  jh_AcquireCharacterLock :: "string \<Rightarrow> string \<Rightarrow> duration \<Rightarrow> 's \<Rightarrow> bool result \<times> 's"
  jh_ReleaseCharacterLock :: "string \<Rightarrow> string \<Rightarrow> 's \<Rightarrow> bool result \<times> 's"
  jh_GetCharacterByID :: "string \<Rightarrow> 's \<Rightarrow> Character result \<times> 's"
  jh_lockTTL :: duration
  jh_serverID :: string

definition NewJoinHandler ::
  "(string \<Rightarrow> 's \<Rightarrow> JoinToken result \<times> 's) \<Rightarrow> (string \<Rightarrow> string \<Rightarrow> duration \<Rightarrow> 's \<Rightarrow> bool result \<times> 's) \<Rightarrow>
   (string \<Rightarrow> string \<Rightarrow> 's \<Rightarrow> bool result \<times> 's) \<Rightarrow> (string \<Rightarrow> 's \<Rightarrow> Character result \<times> 's) \<Rightarrow>
   duration \<Rightarrow> string \<Rightarrow> 's JoinHandler" where
  "NewJoinHandler consume acquire release get_character lockTTL serverID =
     \<lparr>jh_ConsumeJoinToken = consume, jh_AcquireCharacterLock = acquire, jh_ReleaseCharacterLock = release,
      jh_GetCharacterByID = get_character, jh_lockTTL = lockTTL, jh_serverID = serverID\<rparr>"

definition emit :: "'p action \<Rightarrow> ('p, 's) game \<Rightarrow> ('p, 's) game" where
  "emit a g = g\<lparr>g_out := g_out g @ [a]\<rparr>"

text \<open>A failed send is only logged, so its outcome does not matter to the handler.\<close>

definition sendJoinResponse :: "proto \<Rightarrow> 'p \<Rightarrow> bool \<Rightarrow> string \<Rightarrow> ('p, 's) game \<Rightarrow> ('p, 's) game" where
  "sendJoinResponse pb peer ok reason g =
     (case marshalJoinResponse pb \<lparr>rsp_Ok = ok, rsp_Reason = reason\<rparr> of
        Inl e \<Rightarrow> emit (Disconnect peer) g
      | Inr data \<Rightarrow>
          let g1 = emit (SendBytes peer data channelReliable PacketFlagReliable) g
          in if \<not> ok then emit (Disconnect peer) g1 else g1)"

definition char_key :: "string \<Rightarrow> string" where
  "char_key c = ''char_'' @ c"

definition char_entity :: "Character \<Rightarrow> Entity" where
  "char_entity ch = \<lparr>ent_ID = char_key (char_ID ch), ent_Type = EntityTypePlayer,
     ent_Position = char_Position ch, ent_Velocity = \<lparr>X = f64_zero, Y = f64_zero\<rparr>\<rparr>"

text \<open>Steps 4 to 6 of the handler: add the entity, register the session, answer.\<close>

definition admit :: "proto \<Rightarrow> 'p \<Rightarrow> JoinToken \<Rightarrow> Character \<Rightarrow> ('p, 's) game \<Rightarrow> ('p, 's) game" where
  "admit pb peer tok ch g =
     (let entity = char_entity ch;
          session = \<lparr>Peer = peer, sess_UserID = jt_UserID tok, sess_CharacterID = char_ID ch,
                     EntityID = ent_ID entity, LatestInput = None\<rparr>
      in sendJoinResponse pb peer True []
           (g\<lparr>g_world := AddEntity (g_world g) entity, g_sessions := Add (g_sessions g) session\<rparr>))"

definition HandleJoinRequest ::
  "proto \<Rightarrow> 's JoinHandler \<Rightarrow> 'p \<Rightarrow> string \<Rightarrow> ('p, 's) game \<Rightarrow> ('p, 's) game" where
  "HandleJoinRequest pb h peer data g =
     (case unmarshalJoinRequest pb data of
        Inl e \<Rightarrow> sendJoinResponse pb peer False ''invalid join request'' g
      | Inr req \<Rightarrow>
     (case jh_ConsumeJoinToken h (jr_JoinToken req) (g_store g) of
        (Inl e, s1) \<Rightarrow> sendJoinResponse pb peer False ''invalid or expired join token'' (g\<lparr>g_store := s1\<rparr>)
      | (Inr tok, s1) \<Rightarrow>
          if jt_CharacterID tok \<noteq> jr_CharacterId req then
            sendJoinResponse pb peer False ''character ID mismatch'' (g\<lparr>g_store := s1\<rparr>)
          else if jt_ServerID tok \<noteq> jh_serverID h then
            sendJoinResponse pb peer False ''join token is for a different server'' (g\<lparr>g_store := s1\<rparr>)
          else
     (case jh_AcquireCharacterLock h (jt_CharacterID tok) (jh_serverID h) (jh_lockTTL h) s1 of
        (Inl e, s2) \<Rightarrow> sendJoinResponse pb peer False ''internal error'' (g\<lparr>g_store := s2\<rparr>)
      | (Inr acquired, s2) \<Rightarrow>
          if \<not> acquired then
            sendJoinResponse pb peer False ''character is already in-game'' (g\<lparr>g_store := s2\<rparr>)
          else
     (case jh_GetCharacterByID h (jt_CharacterID tok) s2 of
        (Inl e, s3) \<Rightarrow>
          (case jh_ReleaseCharacterLock h (jt_CharacterID tok) (jh_serverID h) s3 of
             (_, s4) \<Rightarrow> sendJoinResponse pb peer False ''failed to load character'' (g\<lparr>g_store := s4\<rparr>))
      | (Inr ch, s3) \<Rightarrow> admit pb peer tok ch (g\<lparr>g_store := s3\<rparr>)))))"

definition HandleDisconnect :: "'s JoinHandler \<Rightarrow> 'p \<Rightarrow> ('p, 's) game \<Rightarrow> ('p, 's) game" where
  "HandleDisconnect h peer g =
     (case Remove (g_sessions g) peer of
        (None, sm) \<Rightarrow> g
      | (Some session, sm) \<Rightarrow>
          let w = (if EntityID session \<noteq> [] then
                     (case GetEntity (g_world g) (EntityID session) of
                        None \<Rightarrow> g_world g
                      | Some entity \<Rightarrow> RemoveEntity (g_world g) entity)
                   else g_world g)
          in case jh_ReleaseCharacterLock h (sess_CharacterID session) (jh_serverID h) (g_store g) of
               (_, s1) \<Rightarrow> g\<lparr>g_world := w, g_sessions := sm, g_store := s1\<rparr>)"

section \<open>Lemmas\<close>

lemma char_key_inject [simp]: "char_key a = char_key b \<longleftrightarrow> a = b" "char_key a \<noteq> []"
  by (simp_all add: char_key_def)

lemma emit_frame [simp]:
  "g_world (emit a g) = g_world g" "g_sessions (emit a g) = g_sessions g" "g_store (emit a g) = g_store g"
  "g_out (emit a g) = g_out g @ [a]"
  by (simp_all add: emit_def)

lemma sendJoinResponse_frame [simp]:
  "g_world (sendJoinResponse pb p ok r g) = g_world g"
  "g_sessions (sendJoinResponse pb p ok r g) = g_sessions g"
  "g_store (sendJoinResponse pb p ok r g) = g_store g"
  by (simp_all add: sendJoinResponse_def Let_def split: sum.splits)

lemma sendJoinResponse_refuses:
  "\<exists>pre. g_out (sendJoinResponse pb p False r g) = g_out g @ pre @ [Disconnect p]"
proof (cases "marshalJoinResponse pb \<lparr>rsp_Ok = False, rsp_Reason = r\<rparr>")
  case (Inl e)
  then show ?thesis by (simp add: sendJoinResponse_def)
next
  case (Inr data)
  then show ?thesis by (intro exI [of _ "[SendBytes p data channelReliable PacketFlagReliable]"]) (simp add: sendJoinResponse_def)
qed

text \<open>
  The handler in two outcomes: it refuses, leaving world and sessions alone, or it
  consumed a matching token, took the lock, loaded the character and admitted the peer.
\<close>

lemma HandleJoinRequest_cases:
  obtains (refused) r s' where "HandleJoinRequest pb h peer data g = sendJoinResponse pb peer False r (g\<lparr>g_store := s'\<rparr>)"
  | (admitted) req tok s1 s2 ch s3 where "unmarshalJoinRequest pb data = Inr req"
      "jh_ConsumeJoinToken h (jr_JoinToken req) (g_store g) = (Inr tok, s1)"
      "jt_CharacterID tok = jr_CharacterId req" "jt_ServerID tok = jh_serverID h"
      "jh_AcquireCharacterLock h (jt_CharacterID tok) (jh_serverID h) (jh_lockTTL h) s1 = (Inr True, s2)"
      "jh_GetCharacterByID h (jt_CharacterID tok) s2 = (Inr ch, s3)"
      "HandleJoinRequest pb h peer data g = admit pb peer tok ch (g\<lparr>g_store := s3\<rparr>)"
proof (cases "unmarshalJoinRequest pb data")
  case (Inl e)
  then show ?thesis using refused [of "''invalid join request''" "g_store g"] by (simp add: HandleJoinRequest_def)
next
  case req: (Inr req)
  obtain c s1 where c: "jh_ConsumeJoinToken h (jr_JoinToken req) (g_store g) = (c, s1)" by force
  show ?thesis
  proof (cases c)
    case (Inl e)
    with c req show ?thesis by (intro refused) (simp add: HandleJoinRequest_def)
  next
    case tok: (Inr tok)
    show ?thesis
    proof (cases "jt_CharacterID tok = jr_CharacterId req \<and> jt_ServerID tok = jh_serverID h")
      case False
      with c req tok refused show ?thesis by (cases "jt_CharacterID tok = jr_CharacterId req") (auto simp: HandleJoinRequest_def)
    next
      case True
      obtain a s2 where a: "jh_AcquireCharacterLock h (jt_CharacterID tok) (jh_serverID h) (jh_lockTTL h) s1 = (a, s2)" by force
      show ?thesis
      proof (cases "a = Inr True")
        case False
        with a c req tok True refused show ?thesis by (cases a) (auto simp: HandleJoinRequest_def)
      next
        case acq: True
        obtain k s3 where k: "jh_GetCharacterByID h (jt_CharacterID tok) s2 = (k, s3)" by force
        show ?thesis
        proof (cases k)
          case (Inl e)
          obtain q s4 where "jh_ReleaseCharacterLock h (jt_CharacterID tok) (jh_serverID h) s3 = (q, s4)" by force
          with Inl k a acq c req tok True refused show ?thesis by (auto simp: HandleJoinRequest_def)
        next
          case (Inr ch)
          with k a acq c req tok True show ?thesis
            by (intro admitted [of req tok s1 s2 ch s3]) (auto simp: HandleJoinRequest_def)
        qed
      qed
    qed
  qed
qed

section \<open>The handler over its interfaces\<close>

text \<open>The game state that the handshake keeps consistent with the locks.\<close>

definition plays :: "('p, 's) game \<Rightarrow> 'p \<Rightarrow> string \<Rightarrow> bool" where
  "plays g p c = (\<exists>se. fmlookup (g_sessions g) p = Some se \<and> sess_CharacterID se = c)"

definition game_inv :: "('s \<Rightarrow> string \<Rightarrow> string option) \<Rightarrow> 's JoinHandler \<Rightarrow> ('p, 's) game \<Rightarrow> bool" where
  "game_inv holder h g =
     (wf_world (g_world g) \<and> wf_sm (g_sessions g) \<and>
      (\<forall>p se. fmlookup (g_sessions g) p = Some se \<longrightarrow>
         EntityID se = char_key (sess_CharacterID se) \<and> TrimSpace (sess_CharacterID se) = sess_CharacterID se \<and>
         holder (g_store g) (sess_CharacterID se) = Some (TrimSpace (jh_serverID h)) \<and>
         GetEntity (g_world g) (char_key (sess_CharacterID se)) \<noteq> None) \<and>
      (\<forall>p q c. plays g p c \<longrightarrow> plays g q c \<longrightarrow> p = q))"

text \<open>
  The interfaces of the handler: a locker, and a token store and a character provider
  that leave the locks alone.
\<close>

locale join_backend = character_locker "jh_AcquireCharacterLock h" "jh_ReleaseCharacterLock h" holder wf
  for h :: "'s JoinHandler" and holder :: "'s \<Rightarrow> string \<Rightarrow> string option" and wf :: "'s \<Rightarrow> bool" +
  assumes lock_ttl: "0 < jh_lockTTL h"
    and consume_frame: "wf s \<Longrightarrow> jh_ConsumeJoinToken h t s = (r, s') \<Longrightarrow> wf s' \<and> holder s' = holder s"
    and load_frame: "wf s \<Longrightarrow> jh_GetCharacterByID h c s = (k, s') \<Longrightarrow> wf s' \<and> holder s' = holder s"
begin

text \<open>The stores after the calls of an admission: the character's lock was free and is this server's.\<close>

lemma admission_stores:
  assumes "wf s" and "jh_ConsumeJoinToken h t s = (Inr tok, s1)"
    and "jh_AcquireCharacterLock h c (jh_serverID h) (jh_lockTTL h) s1 = (Inr True, s2)"
    and "jh_GetCharacterByID h c s2 = (k, s3)"
  shows "wf s2" and "wf s3" and "holder s (TrimSpace c) = None"
    and "holder s3 = (holder s)(TrimSpace c \<mapsto> TrimSpace (jh_serverID h))"
proof -
  have s1: "wf s1" "holder s1 = holder s" using consume_frame [OF assms(1,2)] by simp_all
  show w2: "wf s2" by (rule wf_acquire [OF s1(1) lock_ttl assms(3)])
  show "wf s3" using load_frame [OF w2 assms(4)] by simp
  show "holder s (TrimSpace c) = None" "holder s3 = (holder s)(TrimSpace c \<mapsto> TrimSpace (jh_serverID h))"
    using acquire_True [OF s1(1) lock_ttl assms(3)] load_frame [OF w2 assms(4)] s1(2) by simp_all
qed

text \<open>A lock that was free, taken and given back: nobody else lost one.\<close>

lemma undo_keeps_locks:
  assumes "wf s1" and "jh_AcquireCharacterLock h c ow (jh_lockTTL h) s1 = (Inr True, s2)"
    and "jh_GetCharacterByID h c s2 = (k, s3)" and "jh_ReleaseCharacterLock h c ow s3 = (q, s4)"
  shows "wf s4 \<and> (\<forall>d o'. holder s1 d = Some o' \<longrightarrow> holder s4 d = Some o')"
proof -
  have w2: "wf s2" by (rule wf_acquire [OF assms(1) lock_ttl assms(2)])
  note s3 = load_frame [OF w2 assms(3)]
  have free: "holder s1 (TrimSpace c) = None" by (rule acquire_True(1) [OF assms(1) lock_ttl assms(2)])
  have "holder s4 d = Some o'" if "holder s1 d = Some o'" for d o'
  proof -
    have "d \<noteq> TrimSpace c" using that free by auto
    moreover have "holder s3 d = Some o'"
      using acquire_never_steals [OF assms(1) lock_ttl assms(2) that] s3 by simp
    ultimately show ?thesis using release_other [OF _ assms(4)] s3 by simp
  qed
  with wf_release [of s3 c ow] s3 assms(4) show ?thesis by blast
qed

text \<open>A refused request takes no lock from anybody; a failed load gives its own lock back.\<close>

lemma join_keeps_locks:
  assumes "wf (g_store g)"
  shows "wf (g_store (HandleJoinRequest pb h peer data g)) \<and>
    (\<forall>d ow. holder (g_store g) d = Some ow \<longrightarrow> holder (g_store (HandleJoinRequest pb h peer data g)) d = Some ow)"
    (is "?kept (g_store (HandleJoinRequest pb h peer data g))")
proof (cases "unmarshalJoinRequest pb data")
  case (Inl e)
  with assms show ?thesis by (simp add: HandleJoinRequest_def)
next
  case req: (Inr req)
  obtain c s1 where c: "jh_ConsumeJoinToken h (jr_JoinToken req) (g_store g) = (c, s1)" by force
  have s1: "wf s1" "holder s1 = holder (g_store g)" using consume_frame [OF assms c] by simp_all
  show ?thesis
  proof (cases "\<exists>tok. c = Inr tok \<and> jt_CharacterID tok = jr_CharacterId req \<and> jt_ServerID tok = jh_serverID h")
    case False
    have "g_store (HandleJoinRequest pb h peer data g) = s1"
      using False req c by (cases c) (auto simp: HandleJoinRequest_def)
    with s1 show ?thesis by simp
  next
    case True
    then obtain tok where tok: "c = Inr tok" "jt_CharacterID tok = jr_CharacterId req" "jt_ServerID tok = jh_serverID h" by blast
    let ?c = "jt_CharacterID tok"
    obtain a s2 where a: "jh_AcquireCharacterLock h ?c (jh_serverID h) (jh_lockTTL h) s1 = (a, s2)" by force
    have s2: "?kept s2" using wf_acquire [OF s1(1) lock_ttl a] acquire_never_steals [OF s1(1) lock_ttl a] s1(2) by simp
    obtain k s3 where k: "jh_GetCharacterByID h ?c s2 = (k, s3)" by force
    have s3: "?kept s3" using load_frame [OF _ k] s2 by simp
    obtain q s4 where q: "jh_ReleaseCharacterLock h ?c (jh_serverID h) s3 = (q, s4)" by force
    have s4: "a = Inr True \<Longrightarrow> ?kept s4" using undo_keeps_locks [OF s1(1) _ k q] a s1(2) by simp
    have "g_store (HandleJoinRequest pb h peer data g) = (if a \<noteq> Inr True then s2 else if isl k then s4 else s3)"
      using req c tok a k q by (cases a; cases k) (auto simp: HandleJoinRequest_def admit_def Let_def)
    with s2 s3 s4 show ?thesis by simp
  qed
qed

lemma refused_keeps_locks:
  assumes "wf (g_store g)" and "HandleJoinRequest pb h peer data g = sendJoinResponse pb peer False r g'"
  shows "wf (g_store g') \<and> (\<forall>d ow. holder (g_store g) d = Some ow \<longrightarrow> holder (g_store g') d = Some ow)"
  using join_keeps_locks [OF assms(1), of pb peer data] assms(2) by simp

end

text \<open>
  The pending tokens name characters by the ID the provider reports for them. The
  provider may find a character under other spellings of its ID as well.
\<close>

locale canonical_backend = join_backend +
  assumes load_id: "wf s \<Longrightarrow> jh_ConsumeJoinToken h t s = (Inr tok, s1) \<Longrightarrow> wf s2 \<Longrightarrow>
      jh_GetCharacterByID h (jt_CharacterID tok) s2 = (Inr ch, s3) \<Longrightarrow>
      char_ID ch = jt_CharacterID tok \<and> TrimSpace (jt_CharacterID tok) = jt_CharacterID tok"
begin

lemma game_inv_join:
  assumes inv: "game_inv holder h g" and wf: "wf (g_store g)"
  shows "game_inv holder h (HandleJoinRequest pb h peer data g) \<and> wf (g_store (HandleJoinRequest pb h peer data g))"
proof (cases rule: HandleJoinRequest_cases [of pb h peer data g])
  case (refused r s')
  from refused_keeps_locks [OF wf refused] have
    k: "wf s'" "\<And>d ow. holder (g_store g) d = Some ow \<Longrightarrow> holder s' d = Some ow" by simp_all
  with inv refused show ?thesis by (auto simp: game_inv_def plays_def)
next
  case (admitted req tok s1 s2 ch s3)
  let ?c = "jt_CharacterID tok"
  note st = admission_stores [OF wf admitted(2,5,6)]
  have id: "char_ID ch = ?c" "TrimSpace ?c = ?c" using load_id [OF wf admitted(2) st(1) admitted(6)] by simp_all
  note h3 = st(4) [unfolded id(2)] and free = st(3) [unfolded id(2)]
  have new: "\<not> plays g p ?c" for p
    using inv free unfolding game_inv_def plays_def by fastforce
  have pl: "plays (HandleJoinRequest pb h peer data g) p d \<longleftrightarrow> (if p = peer then d = ?c else plays g p d)" for p d
    unfolding admitted(7) by (auto simp: admit_def plays_def Add_def id Let_def)
  have "game_inv holder h (HandleJoinRequest pb h peer data g)"
    unfolding game_inv_def
  proof (intro conjI allI impI)
    show "wf_world (g_world (HandleJoinRequest pb h peer data g))"
      using inv unfolding admitted(7) by (simp add: admit_def game_inv_def wf_AddEntity Let_def)
    show "wf_sm (g_sessions (HandleJoinRequest pb h peer data g))"
      using inv unfolding admitted(7) by (simp add: admit_def game_inv_def wf_Add Let_def)
  next
    fix p se
    assume l: "fmlookup (g_sessions (HandleJoinRequest pb h peer data g)) p = Some se"
    show "EntityID se = char_key (sess_CharacterID se)" and "TrimSpace (sess_CharacterID se) = sess_CharacterID se"
      and "holder (g_store (HandleJoinRequest pb h peer data g)) (sess_CharacterID se) = Some (TrimSpace (jh_serverID h))"
      and "GetEntity (g_world (HandleJoinRequest pb h peer data g)) (char_key (sess_CharacterID se)) \<noteq> None"
      using l inv h3 id unfolding admitted(7)
      by (auto simp: admit_def Add_def game_inv_def char_entity_def Let_def split: if_splits)
  next
    fix p q d
    assume "plays (HandleJoinRequest pb h peer data g) p d" and "plays (HandleJoinRequest pb h peer data g) q d"
    with inv new show "p = q" unfolding pl game_inv_def by (auto split: if_splits)
  qed
  with st(2) show ?thesis unfolding admitted(7) by (simp add: admit_def Let_def)
qed

lemma game_inv_disconnect:
  assumes inv: "game_inv holder h g" and wf: "wf (g_store g)"
  shows "game_inv holder h (HandleDisconnect h peer g) \<and> wf (g_store (HandleDisconnect h peer g))"
proof (cases "fmlookup (g_sessions g) peer")
  case None
  with assms show ?thesis by (simp add: HandleDisconnect_def Remove_def)
next
  case (Some se)
  let ?c = "sess_CharacterID se"
  obtain q s1 where q: "jh_ReleaseCharacterLock h ?c (jh_serverID h) (g_store g) = (q, s1)" by force
  from inv Some have se: "EntityID se = char_key ?c" "TrimSpace ?c = ?c" "GetEntity (g_world g) (char_key ?c) \<noteq> None"
    by (auto simp: game_inv_def)
  then obtain e where e: "GetEntity (g_world g) (EntityID se) = Some e" by auto
  have eid: "ent_ID e = EntityID se" using wf_worldD e inv by (auto simp: game_inv_def)
  have g': "HandleDisconnect h peer g =
      g\<lparr>g_world := RemoveEntity (g_world g) e, g_sessions := fmdrop peer (g_sessions g), g_store := s1\<rparr>"
    using Some q e se by (simp add: HandleDisconnect_def Remove_def)
  have other: "sess_CharacterID sf \<noteq> ?c" if "fmlookup (g_sessions g) p = Some sf" "p \<noteq> peer" for p sf
    using inv that Some unfolding game_inv_def plays_def by metis
  have hold: "holder s1 d = holder (g_store g) d" if "d \<noteq> ?c" for d
    using release_other [OF wf q] that se(2) by simp
  have "game_inv holder h (HandleDisconnect h peer g)"
    unfolding game_inv_def g'
  proof (intro conjI allI impI)
    fix p sf
    assume l: "fmlookup (g_sessions (g\<lparr>g_world := RemoveEntity (g_world g) e,
        g_sessions := fmdrop peer (g_sessions g), g_store := s1\<rparr>)) p = Some sf"
    then have l': "fmlookup (g_sessions g) p = Some sf" "p \<noteq> peer" by (simp_all split: if_splits)
    with inv other hold se eid
    show "EntityID sf = char_key (sess_CharacterID sf)" and "TrimSpace (sess_CharacterID sf) = sess_CharacterID sf"
      and "holder (g_store (g\<lparr>g_world := RemoveEntity (g_world g) e,
        g_sessions := fmdrop peer (g_sessions g), g_store := s1\<rparr>)) (sess_CharacterID sf) = Some (TrimSpace (jh_serverID h))"
      and "GetEntity (g_world (g\<lparr>g_world := RemoveEntity (g_world g) e,
        g_sessions := fmdrop peer (g_sessions g), g_store := s1\<rparr>)) (char_key (sess_CharacterID sf)) \<noteq> None"
      by (auto simp: game_inv_def)
  qed (use inv in \<open>auto simp: game_inv_def wf_RemoveEntity wf_sm_def fmpred_drop plays_def split: if_splits\<close>)
  with wf_release [OF wf q] show ?thesis by (simp add: g')
qed

end

end
