(* ===== verification/Enet_Host.thy ===== *)
theory Enet_Host
  imports Game_Join
begin

text \<open>
  The wrapper of an ENet host, \<open>internal/game/enet.go\<close>, with the parsing of the address
  that it listens on. The library is a parameter: whether it can make a host is an argument,
  the event that it reports within a timeout is an input, and what is asked of it is written
  to the action log.
\<close>

section \<open>Definitions\<close>

definition maxPeers :: nat where
  "maxPeers = 32"

definition channelCount :: nat where
  "channelCount = 2"

definition enetServiceTimeoutMS :: nat where
  "enetServiceTimeoutMS = 1"

text \<open>\<open>strings.LastIndex\<close> of a one-byte string, as the split it is used for.\<close>

definition splitLastColon :: "string \<Rightarrow> (string \<times> string) result" where
  "splitLastColon s =
     (if CHR '':'' \<notin> set s then Inl (Wrap ''address missing port'' [])
      else Inr (rev (tl (dropWhile (\<lambda>c. c \<noteq> CHR '':'') (rev s))),
                rev (takeWhile (\<lambda>c. c \<noteq> CHR '':'') (rev s))))"

definition splitHostPort :: "string \<Rightarrow> (string \<times> nat) result" where
  "splitHostPort addr =
     (if addr = [] then Inl (Wrap ''address is empty'' [])
      else if has_prefix addr '':'' then
        (case ParseUint (tl addr) 16 of None \<Rightarrow> Inl (Wrap ''invalid port'' [Opaque ''ParseUint''])
         | Some port \<Rightarrow> Inr ([], port))
      else
        bindE (splitLastColon addr) (\<lambda>(host, portStr).
        case ParseUint portStr 16 of None \<Rightarrow> Inl (Wrap ''invalid port'' [Opaque ''ParseUint''])
        | Some port \<Rightarrow> Inr (host, port)))"

text \<open>The wrapped host may be nil; \<open>enet.NewHost\<close> on a port, with the peer and channel limits, is the argument \<open>new_host\<close>.\<close>

record ENetHost =
  eh_host :: "unit option"

definition NewENetHost :: "(nat \<Rightarrow> nat \<Rightarrow> nat \<Rightarrow> unit result) \<Rightarrow> string \<Rightarrow> ENetHost result" where
  "NewENetHost new_host addr =
     bindE (mapErr (\<lambda>e. Wrap ''parse enet address'' [e]) (splitHostPort addr)) (\<lambda>(_, port).
     bindE (mapErr (\<lambda>e. Wrap ''create enet host'' [e]) (new_host port maxPeers channelCount)) (\<lambda>h.
     Inr \<lparr>eh_host = Some h\<rparr>))"

datatype 'p event =
    EventNone
  | EventConnect 'p
  | EventReceive 'p nat string
  | EventDisconnect 'p

text \<open>\<open>host\<close> tells what the library reports when it is given a timeout in milliseconds.\<close>

definition Service :: "(nat \<Rightarrow> 'p event) \<Rightarrow> 'p event" where
  "Service host = host enetServiceTimeoutMS"

definition ENetHost_Broadcast :: "string \<Rightarrow> nat \<Rightarrow> PacketFlags \<Rightarrow> ('p, 's) game \<Rightarrow> ('p, 's) game" where
  "ENetHost_Broadcast data channel flags g = emit (BroadcastBytes data channel flags) g"

definition Destroy :: "ENetHost \<Rightarrow> ('p, 's) game \<Rightarrow> ('p, 's) game" where
  "Destroy h g = (if eh_host h \<noteq> None then emit DestroyHost g else g)"

section \<open>Lemmas\<close>

lemma splitLastColon_append:
  assumes "CHR '':'' \<notin> set port"
  shows "splitLastColon (host @ CHR '':'' # port) = Inr (host, port)"
proof -
  have a: "\<forall>c \<in> set (rev port). c \<noteq> CHR '':''" using assms by auto
  have "takeWhile (\<lambda>c. c \<noteq> CHR '':'') (rev port @ CHR '':'' # rev host) = rev port"
    "dropWhile (\<lambda>c. c \<noteq> CHR '':'') (rev port @ CHR '':'' # rev host) = CHR '':'' # rev host"
    by (subst takeWhile_append2 dropWhile_append2; use a in simp)+
  then show ?thesis by (simp add: splitLastColon_def)
qed

lemma digits_no_colon: "list_all is_digit s \<Longrightarrow> CHR '':'' \<notin> set s"
  by (auto simp: list_all_iff is_digit_def)

lemma ParseUint_Itoa:
  assumes "n < 2 ^ b"
  shows "ParseUint (nat_to_dec n) b = Some n"
  using assms by (simp add: ParseUint_def nat_to_dec_digits)

lemma ENetHost_Broadcast_frame [simp]:
  "g_world (ENetHost_Broadcast data ch fl g) = g_world g" "g_sessions (ENetHost_Broadcast data ch fl g) = g_sessions g"
  "g_store (ENetHost_Broadcast data ch fl g) = g_store g"
  by (simp_all add: ENetHost_Broadcast_def)

lemma Destroy_frame [simp]:
  "g_world (Destroy h g) = g_world g" "g_sessions (Destroy h g) = g_sessions g" "g_store (Destroy h g) = g_store g"
  by (simp_all add: Destroy_def)

lemma NewENetHost_live: "NewENetHost new_host addr = Inr h \<Longrightarrow> eh_host h \<noteq> None"
  by (auto simp: NewENetHost_def bindE_eq_Inr split: prod.splits)

text \<open>
  Addresses: a host without leading colon and a 16-bit port, joined by a colon, are
  split back into the same host and port, also when the host contains colons.
\<close>

theorem address_roundtrip:
  assumes "host \<noteq> []" and "hd host \<noteq> CHR '':''" and "port < 65536"
  shows "splitHostPort (host @ CHR '':'' # nat_to_dec port) = Inr (host, port)"
proof -
  have p: "ParseUint (nat_to_dec port) 16 = Some port" by (rule ParseUint_Itoa) (use assms(3) in simp)
  have "\<not> has_prefix (host @ CHR '':'' # nat_to_dec port) '':''"
    using assms(1,2) by (cases host) (auto simp: has_prefix_def)
  then show ?thesis
    using splitLastColon_append [OF digits_no_colon [OF nat_to_dec_digits], of host port] p assms(1)
    by (simp add: splitHostPort_def)
qed

theorem address_roundtrip_witness:
  "splitHostPort (''localhost'' @ CHR '':'' # nat_to_dec 7777) = Inr (''localhost'', 7777)"
  using address_roundtrip [of "''localhost''" 7777] by simp

text \<open>
  The host part of the address is not used: a server that is told to listen on one host
  listens on the port of all interfaces.
\<close>

theorem bind_host_ignored:
  assumes "host \<noteq> []" and "hd host \<noteq> CHR '':''" and "port < 65536"
  shows "NewENetHost new_host (host @ CHR '':'' # nat_to_dec port) = NewENetHost new_host (CHR '':'' # nat_to_dec port)"
proof -
  have "splitHostPort (CHR '':'' # nat_to_dec port) = Inr ([], port)"
    using ParseUint_Itoa [of port 16] assms(3) by (simp add: splitHostPort_def has_prefix_def)
  then show ?thesis using address_roundtrip [OF assms] by (simp add: NewENetHost_def)
qed

end
