(* ===== verification/Game_Server.thy ===== *)
theory Game_Server
  imports Enet_Host Game_Servers
begin

text \<open>
  The game server process: snapshot broadcast of \<open>internal/game/broadcast.go\<close>, and
  construction, event dispatch, main loop, registration, heartbeat and shutdown of
  \<open>server.go\<close>. A run of the loop is a list of rounds, the rounds it makes before its
  context is cancelled; the clock and the iteration order of the maps are inputs of each
  round. A run of the process interleaves them with the ticks of the heartbeat.
\<close>

section \<open>Definitions: construction\<close>

definition heartbeatInterval :: duration where
  "heartbeatInterval = 5 * Second"

definition defaultBroadcastTickDivisor :: "64 word" where
  "defaultBroadcastTickDivisor = 2"

text \<open>A store of the configuration is present or nil.\<close>

record 's GameServerConfig =
  ENetAddr :: string
  HTTPAddr :: string
  cfg_ServerID :: string
  cfg_JoinTokens :: "(string \<Rightarrow> 's \<Rightarrow> JoinToken result \<times> 's) option"
  cfg_CharacterLocks :: "((string \<Rightarrow> string \<Rightarrow> duration \<Rightarrow> 's \<Rightarrow> bool result \<times> 's) \<times>
     (string \<Rightarrow> string \<Rightarrow> 's \<Rightarrow> bool result \<times> 's)) option"
  cfg_Characters :: "(string \<Rightarrow> 's \<Rightarrow> Character result \<times> 's) option"
  cfg_GameServers :: "((time \<Rightarrow> GameServer \<Rightarrow> 's \<Rightarrow> unit result \<times> 's) \<times> (string \<Rightarrow> 's \<Rightarrow> unit result \<times> 's)) option"
  ServerTTL :: duration
  LockTTL :: duration
  TickRate :: int
  MoveSpeed :: f64
  ReadyCheck :: "('s \<Rightarrow> unit result) option"

record 's GameServerProc =
  gsp_cfg :: "'s GameServerConfig"
  gsp_host :: ENetHost
  joinHandler :: "'s JoinHandler"
  simulation :: Simulation
  gsp_register :: "time \<Rightarrow> GameServer \<Rightarrow> 's \<Rightarrow> unit result \<times> 's"
  gsp_deregister :: "string \<Rightarrow> 's \<Rightarrow> unit result \<times> 's"
  gsp_release :: "string \<Rightarrow> string \<Rightarrow> 's \<Rightarrow> bool result \<times> 's"

definition missing :: "string \<Rightarrow> 'a result" where
  "missing m = Inl (Wrap m [])"

text \<open>The guards of \<open>NewGameServer\<close>: what must be there before ENet is initialized.\<close>

definition required_stores ::
  "bool \<Rightarrow> 's GameServerConfig \<Rightarrow> ((string \<Rightarrow> 's \<Rightarrow> JoinToken result \<times> 's) \<times>
     ((string \<Rightarrow> string \<Rightarrow> duration \<Rightarrow> 's \<Rightarrow> bool result \<times> 's) \<times> (string \<Rightarrow> string \<Rightarrow> 's \<Rightarrow> bool result \<times> 's)) \<times>
     (string \<Rightarrow> 's \<Rightarrow> Character result \<times> 's) \<times>
     ((time \<Rightarrow> GameServer \<Rightarrow> 's \<Rightarrow> unit result \<times> 's) \<times> (string \<Rightarrow> 's \<Rightarrow> unit result \<times> 's))) result" where
  "required_stores has_log cfg =
     (if \<not> has_log then missing ''logger is required''
      else if ENetAddr cfg = [] then missing ''enet address is required''
      else if HTTPAddr cfg = [] then missing ''http address is required''
      else if cfg_ServerID cfg = [] then missing ''server ID is required''
      else case cfg_JoinTokens cfg of None \<Rightarrow> missing ''join token store is required'' | Some consume \<Rightarrow>
      (case cfg_CharacterLocks cfg of None \<Rightarrow> missing ''character lock store is required'' | Some locks \<Rightarrow>
      (case cfg_Characters cfg of None \<Rightarrow> missing ''character store is required'' | Some get_character \<Rightarrow>
      (case cfg_GameServers cfg of None \<Rightarrow> missing ''game server store is required'' | Some servers \<Rightarrow>
       if ServerTTL cfg \<le> 0 then missing ''server TTL must be positive''
       else if LockTTL cfg \<le> 0 then missing ''lock TTL must be positive''
       else Inr (consume, locks, get_character, servers)))))"

definition NewGameServer ::
  "(nat \<Rightarrow> nat \<Rightarrow> nat \<Rightarrow> unit result) \<Rightarrow> bool \<Rightarrow> 's GameServerConfig \<Rightarrow> 's GameServerProc result" where
  "NewGameServer new_host has_log cfg =
     bindE (required_stores has_log cfg) (\<lambda>(consume, (acquire, release), get_character, (register, deregister)).
     bindE (mapErr (\<lambda>e. Wrap ''create enet host'' [e]) (NewENetHost new_host (ENetAddr cfg))) (\<lambda>host.
     Inr \<lparr>gsp_cfg = cfg, gsp_host = host,
          joinHandler = NewJoinHandler consume acquire release get_character (LockTTL cfg) (cfg_ServerID cfg),
          simulation = NewSimulation (TickRate cfg) (MoveSpeed cfg),
          gsp_register = register, gsp_deregister = deregister, gsp_release = release\<rparr>))"

text \<open>What \<open>NewGameServer\<close> asks of the ENet library: it is deinitialized again when no host can be made.\<close>

definition NewGameServer_calls :: "(nat \<Rightarrow> nat \<Rightarrow> nat \<Rightarrow> unit result) \<Rightarrow> bool \<Rightarrow> 's GameServerConfig \<Rightarrow> 'p action list" where
  "NewGameServer_calls new_host has_log cfg =
     (case required_stores has_log cfg of Inl e \<Rightarrow> []
      | Inr _ \<Rightarrow> (case NewENetHost new_host (ENetAddr cfg) of
          Inl e \<Rightarrow> [Initialize, Deinitialize]
        | Inr host \<Rightarrow> [Initialize, NewHost]))"

definition initial_game :: "'s \<Rightarrow> ('p, 's) game" where
  "initial_game s = \<lparr>g_world = NewWorld, g_sessions = NewSessionManager, g_store = s, g_out = []\<rparr>"

section \<open>Definitions: events and the loop\<close>

definition handleReceive ::
  "proto \<Rightarrow> 's GameServerProc \<Rightarrow> 'p \<Rightarrow> nat \<Rightarrow> string \<Rightarrow> ('p, 's) game \<Rightarrow> ('p, 's) game" where
  "handleReceive pb gs peer channel data g =
     (if channel = channelReliable then
        (if data = [] then g else HandleJoinRequest pb (joinHandler gs) peer data g)
      else if channel = channelUnreliable then
        (case sm_Get (g_sessions g) peer of
           None \<Rightarrow> g
         | Some session \<Rightarrow>
             (case unmarshalInputPacket pb data of
                Inl e \<Rightarrow> g
              | Inr input \<Rightarrow> g\<lparr>g_sessions := fmupd peer (session\<lparr>LatestInput := Some input\<rparr>) (g_sessions g)\<rparr>))
      else g)"

fun handleENetEvent ::
  "proto \<Rightarrow> 's GameServerProc \<Rightarrow> 'p event \<Rightarrow> ('p, 's) game \<Rightarrow> ('p, 's) game" where
  "handleENetEvent pb gs (EventConnect p) g = g"
| "handleENetEvent pb gs (EventReceive p channel data) g = handleReceive pb gs p channel data g"
| "handleENetEvent pb gs (EventDisconnect p) g = HandleDisconnect (joinHandler gs) p g"
| "handleENetEvent pb gs EventNone g = g"

definition Broadcast :: "proto \<Rightarrow> string list \<Rightarrow> int \<Rightarrow> ('p, 's) game \<Rightarrow> ('p, 's) game" where
  "Broadcast pb order now_ms g =
     (case marshalSnapshotPacket pb (BuildSnapshot order now_ms (g_world g)) of
        Inl e \<Rightarrow> g
      | Inr data \<Rightarrow> ENetHost_Broadcast data channelUnreliable PacketFlagUnsequenced g)"

text \<open>The inputs of one round: what the ENet host reports, the clock, and how the maps are ranged over.\<close>

record 'p round =
  r_event :: "nat \<Rightarrow> 'p event"
  r_now :: time
  r_now_ms :: int
  r_sessions :: "'p SessionManager \<Rightarrow> 'p list"
  r_entities :: "(string, Entity) fmap \<Rightarrow> string list"

record ('p, 's) loop =
  l_game :: "('p, 's) game"
  lastTick :: time
  tickSinceBroadcast :: "64 word"

definition tick_phase :: "'s GameServerProc \<Rightarrow> 'p round \<Rightarrow> ('p, 's) loop \<Rightarrow> ('p, 's) loop" where
  "tick_phase gs r l =
     (if TickInterval (simulation gs) \<le> r_now r - lastTick l then
        let g = l_game l;
            (w, sm) = DrainInputs (simulation gs) (r_sessions r (g_sessions g)) (g_world g) (g_sessions g)
        in l\<lparr>l_game := g\<lparr>g_world := IncrementTick w, g_sessions := sm\<rparr>, lastTick := r_now r,
             tickSinceBroadcast := tickSinceBroadcast l + 1\<rparr>
      else l)"

definition broadcast_phase :: "proto \<Rightarrow> 'p round \<Rightarrow> ('p, 's) loop \<Rightarrow> ('p, 's) loop" where
  "broadcast_phase pb r l =
     (if defaultBroadcastTickDivisor \<le> tickSinceBroadcast l then
        let g = l_game l;
            g1 = (if 0 < Count (g_sessions g) then Broadcast pb (r_entities r (entities (g_world g))) (r_now_ms r) g else g)
        in l\<lparr>l_game := g1, tickSinceBroadcast := 0\<rparr>
      else l)"

definition loop_round :: "proto \<Rightarrow> 's GameServerProc \<Rightarrow> 'p round \<Rightarrow> ('p, 's) loop \<Rightarrow> ('p, 's) loop" where
  "loop_round pb gs r l =
     broadcast_phase pb r (tick_phase gs r (l\<lparr>l_game := handleENetEvent pb gs (Service (r_event r)) (l_game l)\<rparr>))"

definition runGameLoop ::
  "proto \<Rightarrow> 's GameServerProc \<Rightarrow> time \<Rightarrow> 'p round list \<Rightarrow> ('p, 's) game \<Rightarrow> ('p, 's) loop" where
  "runGameLoop pb gs start rounds g =
     fold (loop_round pb gs) rounds \<lparr>l_game = g, lastTick = start, tickSinceBroadcast = 0\<rparr>"

section \<open>Definitions: registration and shutdown\<close>

definition self_record :: "'s GameServerProc \<Rightarrow> time \<Rightarrow> GameServer" where
  "self_record gs now = \<lparr>gs_ID = cfg_ServerID (gsp_cfg gs), gs_Addr = ENetAddr (gsp_cfg gs),
     gs_ExpiresAt = now + ServerTTL (gsp_cfg gs)\<rparr>"

definition registerGameServer :: "'s GameServerProc \<Rightarrow> time \<Rightarrow> 's \<Rightarrow> unit result \<times> 's" where
  "registerGameServer gs now s =
     mapErrS (\<lambda>e. Wrap ''register game server in redis'' [e]) (gsp_register gs now (self_record gs now) s)"

text \<open>The heartbeat goroutine at the given ticks of its ticker; errors are logged.\<close>

fun renewHeartbeat :: "'s GameServerProc \<Rightarrow> time list \<Rightarrow> 's \<Rightarrow> 's" where
  "renewHeartbeat gs [] s = s"
| "renewHeartbeat gs (now # nows) s = renewHeartbeat gs nows (snd (gsp_register gs now (self_record gs now) s))"

fun shutdown_sessions :: "'s GameServerProc \<Rightarrow> 'p Session list \<Rightarrow> ('p, 's) game \<Rightarrow> ('p, 's) game" where
  "shutdown_sessions gs [] g = g"
| "shutdown_sessions gs (session # rest) g =
     (let g1 = emit (Disconnect (Peer session)) g;
          s1 = snd (gsp_release gs (sess_CharacterID session) (cfg_ServerID (gsp_cfg gs)) (g_store g1))
      in shutdown_sessions gs rest (g1\<lparr>g_store := s1\<rparr>))"

text \<open>The health server is there: only \<open>Run\<close> calls \<open>shutdown\<close>, after it has started it.\<close>

definition shutdown :: "'s GameServerProc \<Rightarrow> ('p SessionManager \<Rightarrow> 'p list) \<Rightarrow> ('p, 's) game \<Rightarrow> ('p, 's) game" where
  "shutdown gs order g =
     (let g1 = shutdown_sessions gs (All (order (g_sessions g)) (g_sessions g)) (emit HealthShutdown g);
          g2 = emit Deinitialize (Destroy (gsp_host gs) g1)
      in g2\<lparr>g_store := snd (gsp_deregister gs (cfg_ServerID (gsp_cfg gs)) (g_store g2))\<rparr>)"

text \<open>The main loop and the heartbeat goroutine run side by side: a step is a round of the one or a tick of the other.\<close>

datatype 'p step = Round "'p round" | Heartbeat time

fun run_step :: "proto \<Rightarrow> 's GameServerProc \<Rightarrow> 'p step \<Rightarrow> ('p, 's) loop \<Rightarrow> ('p, 's) loop" where
  "run_step pb gs (Round r) l = loop_round pb gs r l"
| "run_step pb gs (Heartbeat now) l = l\<lparr>l_game := (l_game l)\<lparr>g_store := renewHeartbeat gs [now] (g_store (l_game l))\<rparr>\<rparr>"

definition run_steps :: "proto \<Rightarrow> 's GameServerProc \<Rightarrow> time \<Rightarrow> 'p step list \<Rightarrow> ('p, 's) game \<Rightarrow> ('p, 's) game" where
  "run_steps pb gs start steps g =
     l_game (fold (run_step pb gs) steps \<lparr>l_game = g, lastTick = start, tickSinceBroadcast = 0\<rparr>)"

text \<open>
  \<open>Run\<close>: the health server starts in the background and never fails; a failed
  registration ends the run with an error, without shutdown.
\<close>

definition Run ::
  "proto \<Rightarrow> 's GameServerProc \<Rightarrow> time \<Rightarrow> 'p step list \<Rightarrow> ('p SessionManager \<Rightarrow> 'p list) \<Rightarrow> ('p, 's) game
     \<Rightarrow> unit result \<times> ('p, 's) game" where
  "Run pb gs now steps order g =
     (let g0 = emit ListenAndServe g in
      case registerGameServer gs now (g_store g0) of
        (Inl e, s1) \<Rightarrow> (Inl (Wrap ''register game server'' [e]), g0\<lparr>g_store := s1\<rparr>)
      | (Inr _, s1) \<Rightarrow> (Inr (), shutdown gs order (run_steps pb gs now steps (g0\<lparr>g_store := s1\<rparr>))))"

text \<open>The health endpoints: status code and body.\<close>

definition startHealthServer :: "'s GameServerConfig \<Rightarrow> string \<Rightarrow> 's \<Rightarrow> (nat \<times> string) option" where
  "startHealthServer cfg path s =
     (if path = ''/healthz'' then Some (200, ''{\"status\":\"ok\"}'')
      else if path = ''/readyz'' then
        (case ReadyCheck cfg of None \<Rightarrow> None
         | Some check \<Rightarrow>
             (case check s of Inl e \<Rightarrow> Some (503, ''{\"status\":\"not_ready\"}'')
              | Inr _ \<Rightarrow> Some (200, ''{\"status\":\"ready\"}'')))
      else None)"

section \<open>Lemmas: what a run asks of the library\<close>

lemma shutdown_sessions_out:
  "g_out (shutdown_sessions gs ss g) = g_out g @ map (\<lambda>se. Disconnect (Peer se)) ss"
  by (induction ss arbitrary: g) (simp_all add: Let_def emit_def)

lemma shutdown_out:
  "g_out (shutdown gs order g) = g_out g @ HealthShutdown # map (\<lambda>se. Disconnect (Peer se)) (All (order (g_sessions g)) (g_sessions g)) @
     (if eh_host (gsp_host gs) \<noteq> None then [DestroyHost, Deinitialize] else [Deinitialize])"
  by (simp add: shutdown_def Let_def emit_def Destroy_def shutdown_sessions_out)

lemma shutdown_store:
  "g_store (shutdown gs order g) = snd (gsp_deregister gs (cfg_ServerID (gsp_cfg gs))
     (g_store (shutdown_sessions gs (All (order (g_sessions g)) (g_sessions g)) (emit HealthShutdown g))))"
  by (simp add: shutdown_def Let_def)

section \<open>Lemmas: the loop keeps the game consistent\<close>

lemma game_inv_mono:
  assumes "game_inv holder h g" and "wf_world (g_world g')" and "holder (g_store g') = holder (g_store g)"
    and "\<And>i. GetEntity (g_world g) i \<noteq> None \<Longrightarrow> GetEntity (g_world g') i \<noteq> None"
    and "\<And>p se. fmlookup (g_sessions g') p = Some se \<Longrightarrow>
      \<exists>sf. fmlookup (g_sessions g) p = Some sf \<and> Peer se = Peer sf \<and> EntityID se = EntityID sf \<and>
        sess_CharacterID se = sess_CharacterID sf"
  shows "game_inv holder h g'"
proof -
  have sm: "wf_sm (g_sessions g')"
    unfolding wf_sm_def
  proof (rule fmpredI)
    fix p se assume "fmlookup (g_sessions g') p = Some se"
    from assms(5) [OF this] obtain sf where "fmlookup (g_sessions g) p = Some sf" "Peer se = Peer sf" by blast
    with assms(1) show "Peer se = p" by (auto simp: game_inv_def dest: wf_smD)
  qed
  have pl: "plays g' p c \<Longrightarrow> plays g p c" for p c using assms(5) unfolding plays_def by metis
  show ?thesis
    unfolding game_inv_def
  proof (intro conjI allI impI)
    fix p se
    assume "fmlookup (g_sessions g') p = Some se"
    from assms(5) [OF this] obtain sf where sf: "fmlookup (g_sessions g) p = Some sf" "EntityID se = EntityID sf"
      "sess_CharacterID se = sess_CharacterID sf" by blast
    with assms(1,3,4) show "EntityID se = char_key (sess_CharacterID se)"
      and "TrimSpace (sess_CharacterID se) = sess_CharacterID se"
      and "holder (g_store g') (sess_CharacterID se) = Some (TrimSpace (jh_serverID h))"
      and "GetEntity (g_world g') (char_key (sess_CharacterID se)) \<noteq> None"
      unfolding game_inv_def by metis+
  next
    fix p q c assume "plays g' p c" "plays g' q c"
    with pl assms(1) show "p = q" unfolding game_inv_def by blast
  qed (use assms(2) sm in simp_all)
qed

lemma drain_world:
  assumes "wf_world (fst st)"
  shows "wf_world (fst (fold (drain_one s) order st)) \<and>
    (\<forall>i. GetEntity (fst (fold (drain_one s) order st)) i = None \<longleftrightarrow> GetEntity (fst st) i = None)"
  using assms
proof (induction order arbitrary: st)
  case (Cons p order)
  have "wf_world (fst (drain_one s p st))" "\<forall>i. GetEntity (fst (drain_one s p st)) i = None \<longleftrightarrow> GetEntity (fst st) i = None"
    using Cons.prems by (auto simp: drain_one_def wf_ProcessInput ProcessInput_lookup split: option.splits)
  with Cons.IH [of "drain_one s p st"] show ?case by simp
qed simp

lemma game_inv_tick:
  assumes "game_inv holder h (l_game l)"
  shows "game_inv holder h (l_game (tick_phase gs r l)) \<and> g_store (l_game (tick_phase gs r l)) = g_store (l_game l)"
proof (cases "TickInterval (simulation gs) \<le> r_now r - lastTick l")
  case False
  with assms show ?thesis by (simp add: tick_phase_def)
next
  case True
  let ?g = "l_game l"
  obtain w sm where d: "DrainInputs (simulation gs) (r_sessions r (g_sessions ?g)) (g_world ?g) (g_sessions ?g) = (w, sm)" by force
  have g': "l_game (tick_phase gs r l) = ?g\<lparr>g_world := IncrementTick w, g_sessions := sm\<rparr>"
    using True d by (simp add: tick_phase_def Let_def)
  have ww: "wf_world (g_world ?g)" using assms by (simp add: game_inv_def)
  have w: "wf_world w" "\<And>i. GetEntity w i = None \<longleftrightarrow> GetEntity (g_world ?g) i = None"
    using drain_world [of "(g_world ?g, g_sessions ?g)" "simulation gs" "r_sessions r (g_sessions ?g)"] ww d
    by (simp_all add: DrainInputs_def)
  have sm: "fmlookup sm p = fmlookup (g_sessions ?g) p \<or>
      fmlookup sm p = map_option (LatestInput_update (\<lambda>_. None)) (fmlookup (g_sessions ?g) p)" for p
    using drain_sm [of "simulation gs" "r_sessions r (g_sessions ?g)" "(g_world ?g, g_sessions ?g)" p] d
    by (simp add: DrainInputs_def split: if_splits)
  have it: "wf_world (IncrementTick w)" "GetEntity (IncrementTick w) i = GetEntity w i" for i
    using w(1) by (simp_all add: IncrementTick_def wf_world_def GetEntity_def)
  show ?thesis unfolding g'
  proof (intro conjI)
    show "game_inv holder h (?g\<lparr>g_world := IncrementTick w, g_sessions := sm\<rparr>)"
    proof (rule game_inv_mono [OF assms])
      fix p se
      assume "fmlookup (g_sessions (?g\<lparr>g_world := IncrementTick w, g_sessions := sm\<rparr>)) p = Some se"
      then show "\<exists>sf. fmlookup (g_sessions ?g) p = Some sf \<and> Peer se = Peer sf \<and> EntityID se = EntityID sf \<and>
        sess_CharacterID se = sess_CharacterID sf"
        using sm [of p] by (cases "fmlookup (g_sessions ?g) p") auto
    qed (use it w in simp_all)
  qed simp
qed

lemma game_inv_broadcast:
  "game_inv holder h (l_game (broadcast_phase pb r l)) = game_inv holder h (l_game l) \<and>
   g_store (l_game (broadcast_phase pb r l)) = g_store (l_game l)"
proof -
  have "g_world (l_game (broadcast_phase pb r l)) = g_world (l_game l)"
    "g_sessions (l_game (broadcast_phase pb r l)) = g_sessions (l_game l)"
    "g_store (l_game (broadcast_phase pb r l)) = g_store (l_game l)"
    by (auto simp: broadcast_phase_def Broadcast_def Let_def split: sum.splits)
  then show ?thesis by (simp add: game_inv_def plays_def)
qed

lemma game_inv_initial: "game_inv holder h (initial_game s)"
  using wf_NewSessionManager by (simp add: game_inv_def initial_game_def plays_def NewSessionManager_def)

context canonical_backend
begin

lemma game_inv_event:
  assumes "joinHandler gs = h" and "game_inv holder h g" and "wf (g_store g)"
  shows "game_inv holder h (handleENetEvent pb gs ev g) \<and> wf (g_store (handleENetEvent pb gs ev g))"
proof (cases ev)
  case (EventReceive p channel data)
  show ?thesis
  proof (cases "channel = channelReliable")
    case True
    then show ?thesis
      using game_inv_join [OF assms(2,3)] assms EventReceive by (simp add: handleReceive_def)
  next
    case False
    let ?g = "handleENetEvent pb gs ev g"
    have st: "g_store ?g = g_store g" "g_world ?g = g_world g"
      using EventReceive False by (auto simp: handleReceive_def split: option.splits sum.splits)
    have "game_inv holder h ?g"
    proof (rule game_inv_mono [OF assms(2)])
      show "wf_world (g_world ?g)" using assms(2) st by (simp add: game_inv_def)
      fix q se
      assume "fmlookup (g_sessions ?g) q = Some se"
      then show "\<exists>sf. fmlookup (g_sessions g) q = Some sf \<and> Peer se = Peer sf \<and> EntityID se = EntityID sf \<and>
        sess_CharacterID se = sess_CharacterID sf"
        using EventReceive False by (auto simp: handleReceive_def sm_Get_def split: option.splits sum.splits if_splits)
    qed (simp_all add: st)
    with st assms(3) show ?thesis by simp
  qed
next
  case (EventDisconnect p)
  then show ?thesis using game_inv_disconnect [OF assms(2,3)] assms(1) by simp
qed (use assms in simp_all)

lemma game_inv_round:
  assumes "joinHandler gs = h" and "game_inv holder h (l_game l)" and "wf (g_store (l_game l))"
  shows "game_inv holder h (l_game (loop_round pb gs r l)) \<and> wf (g_store (l_game (loop_round pb gs r l)))"
proof -
  let ?l1 = "l\<lparr>l_game := handleENetEvent pb gs (Service (r_event r)) (l_game l)\<rparr>"
  have e: "game_inv holder h (l_game ?l1)" "wf (g_store (l_game ?l1))"
    using game_inv_event [OF assms] by simp_all
  then show ?thesis using game_inv_tick [OF e(1), of gs r] by (simp add: loop_round_def game_inv_broadcast)
qed

text \<open>A heartbeat that leaves the locks alone leaves the game alone.\<close>

lemma game_inv_steps:
  assumes "joinHandler gs = h" and "game_inv holder h (l_game l)" and "wf (g_store (l_game l))"
    and beat: "\<And>now s. wf s \<Longrightarrow> wf (renewHeartbeat gs [now] s) \<and> holder (renewHeartbeat gs [now] s) = holder s"
  shows "game_inv holder h (l_game (fold (run_step pb gs) steps l)) \<and>
    wf (g_store (l_game (fold (run_step pb gs) steps l)))"
  using assms(2,3)
proof (induction steps arbitrary: l)
  case (Cons st steps)
  have "game_inv holder h (l_game (run_step pb gs st l)) \<and> wf (g_store (l_game (run_step pb gs st l)))"
  proof (cases st)
    case (Round r)
    with game_inv_round [OF assms(1) Cons.prems] show ?thesis by simp
  next
    case (Heartbeat now)
    with beat [OF Cons.prems(2), of now] Cons.prems show ?thesis by (simp add: game_inv_def plays_def)
  qed
  with Cons.IH show ?case by simp
qed simp

end

end
