(* ===== verification/Game_Backend.thy ===== *)
theory Game_Backend
  imports Game_Server Postgres
begin

text \<open>
  The game server on its stores: the join handler wired with the Redis lock store, the
  Redis join token store and the PostgreSQL character store, as
  \<open>internal/app/game_deps.go\<close> wires it. The stores meet the contracts of the handler
  on every documented Redis server and database. The theory ends with the properties of
  the handshake and of the main loop.
\<close>

section \<open>Definitions\<close>

definition game_handler ::
  "joinTokenPayload json \<Rightarrow> 's JoinTokenStore \<Rightarrow> 's CharacterLockStore \<Rightarrow> 'd pg \<Rightarrow> duration \<Rightarrow> string
     \<Rightarrow> ('s \<times> 'd) JoinHandler" where
  "game_handler js ts ls pg lockTTL serverID =
     NewJoinHandler (\<lambda>t. on_fst (ConsumeJoinToken js (Some ts) t))
       (\<lambda>c ow ttl. on_fst (AcquireCharacterLock (Some ls) c ow ttl))
       (\<lambda>c ow. on_fst (ReleaseCharacterLock (Some ls) c ow))
       (\<lambda>c. on_snd (GetCharacterByID (Some pg) c)) lockTTL serverID"

text \<open>Every pending token names its character in canonical spelling.\<close>

definition tokens_canonical :: "joinTokenPayload json \<Rightarrow> (string \<Rightarrow> string option) \<Rightarrow> KeyBuilder \<Rightarrow> kv \<Rightarrow> bool" where
  "tokens_canonical js canon k m =
     (\<forall>tok raw t. pending_raw k m tok = Some raw \<longrightarrow> joinTokenOf js tok raw = Inr t \<longrightarrow>
        canon (jt_CharacterID t) = Some (jt_CharacterID t))"

definition wf_stores ::
  "joinTokenPayload json \<Rightarrow> (string \<Rightarrow> string option) \<Rightarrow> KeyBuilder \<Rightarrow> ('s \<Rightarrow> kv) \<Rightarrow> 's \<times> 'd \<Rightarrow> bool" where
  "wf_stores js canon k view sd = (wf_keys k (view (fst sd)) \<and> tokens_canonical js canon k (view (fst sd)))"

definition wf_base :: "KeyBuilder \<Rightarrow> ('s \<Rightarrow> kv) \<Rightarrow> 's \<times> 'd \<Rightarrow> bool" where
  "wf_base k view sd = wf_keys k (view (fst sd))"

definition holder_stores :: "KeyBuilder \<Rightarrow> ('s \<Rightarrow> kv) \<Rightarrow> 's \<times> 'd \<Rightarrow> string \<Rightarrow> string option" where
  "holder_stores k view sd = lock_holder k (view (fst sd))"

section \<open>The stores implement the interfaces\<close>

lemma keeps_to_tokens:
  assumes "keeps_to F k m m'" and "''join_token'' \<notin> F"
  shows "pending_raw k m' = pending_raw k m"
  using assms by (auto simp: fun_eq_iff keeps_to_def pending_raw_def key_JoinToken_def split: sum.splits)

lemma keeps_to_canonical:
  "keeps_to F k m m' \<Longrightarrow> ''join_token'' \<notin> F \<Longrightarrow> tokens_canonical js canon k m \<Longrightarrow> tokens_canonical js canon k m'"
  using keeps_to_tokens [of F k m m'] by (simp add: tokens_canonical_def)

lemma keeps_to_locks:
  assumes "keeps_to F k m m'" and "''character_lock'' \<notin> F"
  shows "lock_holder k m' = lock_holder k m"
  using assms by (auto simp: fun_eq_iff keeps_to_def lock_holder_def CharacterLock_def split: sum.splits)

text \<open>A step in other families of keys leaves locks and tokens alone.\<close>

lemma keeps_to_stores:
  assumes "keeps_to F k (view (fst s)) (view (fst s'))" and "''character_lock'' \<notin> F" and "''join_token'' \<notin> F"
    and "wf_stores js canon k view s"
  shows "wf_stores js canon k view s' \<and> holder_stores k view s' = holder_stores k view s"
  using keeps_to_locks [OF assms(1,2)] keeps_to_canonical [OF assms(1,3)] keeps_to_wf [OF assms(1)] assms(4)
  by (simp add: wf_stores_def holder_stores_def)

lemma tokens_canonical_sub:
  assumes "tokens_canonical js canon k m" and "\<And>tok raw. pending_raw k m' tok = Some raw \<Longrightarrow> pending_raw k m tok = Some raw"
  shows "tokens_canonical js canon k m'"
  using assms unfolding tokens_canonical_def by blast

lemma lock_keeps_tokens:
  "CharacterLock k c = Inr key \<Longrightarrow> pending_raw k (m(key := e)) = pending_raw k m"
  unfolding CharacterLock_def by (rule pending_raw_other) auto

lemma token_keeps_locks:
  "key_JoinToken k t = Inr key \<Longrightarrow> lock_holder k (m(key := e)) = lock_holder k m"
  unfolding key_JoinToken_def by (rule lock_holder_other) auto

locale game_stores = lock_store rc view ls + postgres_db pg users chars canon ci
  for rc :: "'s redis" and view ls and pg :: "'d pg" and users chars canon ci +
  fixes js :: "joinTokenPayload json" and ts :: "'s JoinTokenStore" and lockTTL :: duration and serverID :: string
  assumes ts_client: "jts_client ts = Some rc"
    and ts_keys: "jts_keys ts = cl_keys ls"
    and lockTTL: "0 < lockTTL"
begin

abbreviation "h_stores \<equiv> game_handler js ts ls pg lockTTL serverID"
abbreviation "k_stores \<equiv> cl_keys ls"

lemma wf_storesD:
  "wf_stores js canon k_stores view sd \<Longrightarrow> wf_keys k_stores (view (fst sd))"
  "wf_stores js canon k_stores view sd \<Longrightarrow> tokens_canonical js canon k_stores (view (fst sd))"
  by (simp_all add: wf_stores_def)

lemma acquire_wf:
  assumes "wf_stores js canon k_stores view (s, d)" and "AcquireCharacterLock (Some ls) c ow ttl s = (r, s')"
  shows "wf_stores js canon k_stores view (s', d')"
proof -
  from acquire_view [OF assms(2) st_client effectiveTTL_pos] assms(1) show ?thesis
    by (auto simp: wf_stores_def wf_lock_upd tokens_canonical_def lock_keeps_tokens)
qed

lemma release_wf:
  assumes "wf_stores js canon k_stores view (s, d)" and "ReleaseCharacterLock (Some ls) c ow s = (r, s')"
  shows "wf_stores js canon k_stores view (s', d')"
proof -
  have "wf_keys k_stores (view s)" using assms(1) by (simp add: wf_stores_def)
  from release_view [OF assms(2) st_client this] assms(1) show ?thesis
    by (auto simp: wf_stores_def wf_lock_upd tokens_canonical_def lock_keeps_tokens)
qed

lemma consume_stores:
  assumes "wf_stores js canon k_stores view (s, d)" and "ConsumeJoinToken js (Some ts) t s = (r, s')"
  shows "wf_stores js canon k_stores view (s', d') \<and> lock_holder k_stores (view s') = lock_holder k_stores (view s)"
proof -
  have wf: "wf_keys (jts_keys ts) (view s)" using assms(1) by (simp add: wf_stores_def ts_keys)
  from consume_token_view [OF assms(2) ts_client wf] show ?thesis
  proof
    assume "view s' = view s"
    with assms(1) show ?thesis by (simp add: wf_stores_def)
  next
    assume "\<exists>key. key_JoinToken (jts_keys ts) (TrimSpace t) = Inr key \<and> view s' = (view s)(key := None)"
    then obtain key where key: "key_JoinToken k_stores (TrimSpace t) = Inr key" and v: "view s' = (view s)(key := None)"
      by (auto simp: ts_keys)
    have "tokens_canonical js canon k_stores (view s')"
      by (rule tokens_canonical_sub [OF wf_storesD(2) [OF assms(1)]])
         (auto simp: v pending_raw_upd [OF key] split: if_splits)
    with v key assms(1) show ?thesis
      by (simp add: wf_stores_def token_keeps_locks wf_keys_del)
  qed
qed

text \<open>Creating a token for a character in canonical spelling keeps the stores well formed.\<close>

lemma create_stores:
  assumes "wf_stores js canon k_stores view (s, d)" and "CreateJoinToken js (Some ts) now t s = (Inr u, s')"
    and "json_roundtrip token_payload_ok js" and "canon (jt_CharacterID t) = Some (jt_CharacterID t)"
    and "list_all is_ascii [jt_UserID t, jt_CharacterID t, jt_ServerID t, jt_ServerAddr t]"
    and "0 \<le> now" and "jt_ExpiresAt t < 2 ^ 63"
  shows "wf_stores js canon k_stores view (s', d')"
proof -
  let ?p = "\<lparr>jp_UserID = jt_UserID t, jp_CharacterID = jt_CharacterID t, jp_ServerID = jt_ServerID t,
     jp_ServerAddr = jt_ServerAddr t, jp_ExpiresAt = jt_ExpiresAt t\<rparr>"
  obtain key data where key: "key_JoinToken (jts_keys ts) (jt_Token t) = Inr key"
    and m: "marshal js ?p = Inr data" and e: "now < jt_ExpiresAt t"
    and v: "view s' = (view s)(key \<mapsto> (RStr data, Some (px_ms rc (Until now (jt_ExpiresAt t)))))"
    by (rule create_token_result [OF assms(2) ts_client])
  have "token_payload_ok ?p" using assms(5-7) e by (simp add: token_payload_ok_def)
  from json_roundtripD [OF assms(3) this m] have um: "unmarshal js data = Inr ?p" .
  have "tokens_canonical js canon k_stores (view s')"
    using wf_storesD(2) [OF assms(1)] assms(4) um key
    by (auto simp: tokens_canonical_def v ts_keys pending_raw_upd joinTokenOf_Inr split: if_splits)
  moreover have "wf_keys k_stores (view s')"
    using wf_storesD(1) [OF assms(1)] key unfolding v by (auto simp: ts_keys intro: wf_token_upd)
  ultimately show ?thesis by (simp add: wf_stores_def)
qed

lemma consume_base:
  assumes "wf_keys k_stores (view s)" and "ConsumeJoinToken js (Some ts) t s = (r, s')"
  shows "wf_keys k_stores (view s') \<and> lock_holder k_stores (view s') = lock_holder k_stores (view s)"
  using consume_token_view [OF assms(2) ts_client] assms(1)
  by (auto simp: ts_keys token_keeps_locks wf_keys_del)

text \<open>Whatever the tokens say, the stores never lose or invent a lock.\<close>

sublocale base: join_backend h_stores "holder_stores k_stores view" "wf_base k_stores view"
proof (unfold_locales, goal_cases)
  case (1 s ttl c ow b s')
  then show ?case
    using locker.acquire_ok [of "fst s" ttl c ow b]
    by (cases s) (auto simp: game_handler_def NewJoinHandler_def on_fst_eq holder_stores_def wf_base_def)
next
  case (2 s ttl c ow e s')
  then show ?case
    using locker.acquire_err [of "fst s" ttl c ow e]
    by (cases s) (auto simp: game_handler_def NewJoinHandler_def on_fst_eq holder_stores_def wf_base_def)
next
  case (3 s c ow b s')
  then show ?case
    using locker.release_ok [of "fst s" c ow b]
    by (cases s) (auto simp: game_handler_def NewJoinHandler_def on_fst_eq holder_stores_def wf_base_def)
next
  case (4 s c ow e s')
  then show ?case
    using locker.release_err [of "fst s" c ow e]
    by (cases s) (auto simp: game_handler_def NewJoinHandler_def on_fst_eq holder_stores_def wf_base_def)
next
  case (5 s ttl c ow r s')
  then show ?case
    using locker.wf_acquire [of "fst s" ttl c ow r]
    by (cases s) (auto simp: game_handler_def NewJoinHandler_def on_fst_eq wf_base_def)
next
  case (6 s c ow r s')
  then show ?case
    using locker.wf_release [of "fst s" c ow r]
    by (cases s) (auto simp: game_handler_def NewJoinHandler_def on_fst_eq wf_base_def)
next
  case 7
  then show ?case using lockTTL by (simp add: game_handler_def NewJoinHandler_def)
next
  case (8 s t r s')
  then show ?case
    using consume_base [of "fst s" t r "fst s'"]
    by (cases s) (auto simp: game_handler_def NewJoinHandler_def on_fst_eq holder_stores_def wf_base_def)
next
  case (9 s c k s')
  then show ?case
    by (cases s) (auto simp: game_handler_def NewJoinHandler_def on_snd_eq holder_stores_def wf_base_def)
qed

lemma wf_base_stores: "wf_stores js canon k_stores view sd \<Longrightarrow> wf_base k_stores view sd"
  by (simp add: wf_stores_def wf_base_def)

sublocale game: canonical_backend h_stores "holder_stores k_stores view" "wf_stores js canon k_stores view"
proof (unfold_locales, goal_cases)
  case (1 s ttl c ow b s')
  then show ?case by (intro base.acquire_ok wf_base_stores)
next
  case (2 s ttl c ow e s')
  then show ?case by (intro base.acquire_err wf_base_stores)
next
  case (3 s c ow b s')
  then show ?case by (intro base.release_ok wf_base_stores)
next
  case (4 s c ow e s')
  then show ?case by (intro base.release_err wf_base_stores)
next
  case (5 s ttl c ow r s')
  then show ?case
    by (cases s) (auto simp: game_handler_def NewJoinHandler_def on_fst_eq intro: acquire_wf)
next
  case (6 s c ow r s')
  then show ?case
    by (cases s) (auto simp: game_handler_def NewJoinHandler_def on_fst_eq intro: release_wf)
next
  case 7
  then show ?case using lockTTL by (simp add: game_handler_def NewJoinHandler_def)
next
  case (8 s t r s')
  then show ?case
    using consume_stores [of "fst s" "snd s" t r "fst s'" "snd s'"]
    by (cases s) (auto simp: game_handler_def NewJoinHandler_def on_fst_eq holder_stores_def)
next
  case (9 s c k s')
  then show ?case
    by (cases s) (auto simp: game_handler_def NewJoinHandler_def on_snd_eq holder_stores_def wf_stores_def)
next
  case (10 s t tok s1 s2 ch s3)
  obtain a d where s: "s = (a, d)" by (cases s)
  with 10(2) obtain a' where c: "ConsumeJoinToken js (Some ts) t a = (Inr tok, a')"
    by (auto simp: game_handler_def NewJoinHandler_def on_fst_eq)
  have wf: "wf_keys (jts_keys ts) (view a)" using 10(1) s by (simp add: wf_stores_def ts_keys)
  obtain key raw tm where k: "key_JoinToken (jts_keys ts) (TrimSpace t) = Inr key" "view a key = Some (RStr raw, tm)"
    and dec: "joinTokenOf js (TrimSpace t) raw = Inr tok"
    by (rule consume_token_result [OF c ts_client wf])
  have "pending_raw k_stores (view a) (TrimSpace t) = Some raw"
    using pending_raw_Some [of k_stores "TrimSpace t" key "view a" raw] k by (auto simp: ts_keys)
  with dec 10(1) s have can: "canon (jt_CharacterID tok) = Some (jt_CharacterID tok)"
    by (auto simp: wf_stores_def tokens_canonical_def)
  obtain b e where s2: "s2 = (b, e)" by (cases s2)
  with 10(4) obtain e' where "GetCharacterByID (Some pg) (jt_CharacterID tok) e = (Inr ch, e')"
    by (auto simp: game_handler_def NewJoinHandler_def on_snd_eq)
  from get_character_id [OF this] can canon_trim [OF can] show ?case by simp
qed

lemmas stores_backend = game.canonical_backend_axioms
lemmas stores_base = base.join_backend_axioms

end

definition mem_handler :: "(mem \<times> mem_db) JoinHandler" where
  "mem_handler = game_handler mem_token_json mem_token_store mem_lock_store mem_pg DefaultCharacterLockTTL ''s1''"

interpretation mem_game: game_stores mem_redis mem_view mem_lock_store mem_pg
  "\<lambda>d. set (db_users d)" "\<lambda>d. set (db_chars d)" mem_canon mem_ci
  mem_token_json mem_token_store DefaultCharacterLockTTL "''s1''"
  by unfold_locales
     (simp_all add: mem_token_store_def mem_lock_store_def NewJoinTokenStore_def DefaultCharacterLockTTL_def Second_def)

section \<open>Lemmas: loop accounting and shutdown\<close>

definition is_broadcast :: "'p action \<Rightarrow> bool" where
  "is_broadcast a = (case a of BroadcastBytes data ch fl \<Rightarrow> True | _ \<Rightarrow> False)"

definition is_lifetime :: "'p action \<Rightarrow> bool" where
  "is_lifetime a = (case a of SendBytes p data ch fl \<Rightarrow> False | Disconnect p \<Rightarrow> False | BroadcastBytes data ch fl \<Rightarrow> False | _ \<Rightarrow> True)"

text \<open>Handling an event only sends to peers and disconnects them.\<close>

definition no_peer_action :: "('p action \<Rightarrow> bool) \<Rightarrow> bool" where
  "no_peer_action P = (\<forall>p data ch fl. \<not> P (SendBytes p data ch fl) \<and> \<not> P (Disconnect p))"

lemma no_peer_action [simp]: "no_peer_action is_broadcast" "no_peer_action is_lifetime"
  by (simp_all add: no_peer_action_def is_broadcast_def is_lifetime_def)

lemma emitted_send:
  "no_peer_action P \<Longrightarrow> filter P (g_out (sendJoinResponse pb p ok r g)) = filter P (g_out g)"
  by (auto simp: no_peer_action_def sendJoinResponse_def Let_def emit_def split: sum.splits)

lemma emitted_event:
  assumes "no_peer_action P"
  shows "filter P (g_out (handleENetEvent pb gs ev g)) = filter P (g_out g)"
proof (cases ev)
  case (EventReceive p ch data)
  have "filter P (g_out (HandleJoinRequest pb (joinHandler gs) p data g)) = filter P (g_out g)"
    by (cases rule: HandleJoinRequest_cases [of pb "joinHandler gs" p data g])
       (simp_all add: admit_def Let_def emitted_send [OF assms])
  with EventReceive show ?thesis by (auto simp: handleReceive_def split: option.splits sum.splits)
next
  case (EventDisconnect p)
  then show ?thesis by (simp add: HandleDisconnect_def Let_def split: option.splits prod.splits)
qed simp_all

definition broadcasts :: "('p, 's) game \<Rightarrow> nat" where
  "broadcasts g = length (filter is_broadcast (g_out g))"

lemma broadcasts_upd [simp]:
  "broadcasts (g\<lparr>g_store := s\<rparr>) = broadcasts g" "broadcasts (g\<lparr>g_world := w\<rparr>) = broadcasts g"
  "broadcasts (g\<lparr>g_sessions := sm\<rparr>) = broadcasts g"
  by (simp_all add: broadcasts_def)

lemma broadcasts_event [simp]: "broadcasts (handleENetEvent pb gs ev g) = broadcasts g"
  by (simp add: broadcasts_def emitted_event)

lemma tick_event [simp]: "w_tick (g_world (handleENetEvent pb gs ev g)) = w_tick (g_world g)"
proof (cases ev)
  case (EventReceive p ch data)
  have "w_tick (g_world (HandleJoinRequest pb (joinHandler gs) p data g)) = w_tick (g_world g)"
    by (cases rule: HandleJoinRequest_cases [of pb "joinHandler gs" p data g]) (simp_all add: admit_def Let_def)
  with EventReceive show ?thesis by (auto simp: handleReceive_def split: option.splits sum.splits)
next
  case (EventDisconnect p)
  then show ?thesis by (simp add: HandleDisconnect_def Let_def split: option.splits prod.splits)
qed simp_all

lemma word_less_two: "(c :: 64 word) < 2 \<Longrightarrow> c = 0 \<or> c = 1"
proof -
  assume "c < 2"
  then have "unat c = 0 \<or> unat c = 1" by (simp add: word_less_nat_alt less_2_cases)
  then show ?thesis by (metis unat_eq_0 unsigned_1 unsigned_word_eqI)
qed

text \<open>
  The account of a run: \<open>n\<close> ticks were made, at least an interval apart; of them
  \<open>2 * b\<close> are covered by \<open>b\<close> broadcast slots, of which some sent a snapshot.
\<close>

definition accounted :: "'s GameServerProc \<Rightarrow> time \<Rightarrow> 64 word \<Rightarrow> nat \<Rightarrow> nat \<Rightarrow> nat \<Rightarrow> ('p, 's) loop \<Rightarrow> bool" where
  "accounted gs start t0 b0 n b l =
     (w_tick (g_world (l_game l)) = t0 + of_nat n \<and>
      int n * TickInterval (simulation gs) \<le> lastTick l - start \<and>
      2 * b + unat (tickSinceBroadcast l) = n \<and> tickSinceBroadcast l < 2 \<and>
      broadcasts (l_game l) \<le> b0 + b)"

lemma tick_phase_due:
  assumes "TickInterval (simulation gs) \<le> r_now r - lastTick l"
  shows "w_tick (g_world (l_game (tick_phase gs r l))) = w_tick (g_world (l_game l)) + 1"
    and "lastTick (tick_phase gs r l) = r_now r"
    and "tickSinceBroadcast (tick_phase gs r l) = tickSinceBroadcast l + 1"
    and "broadcasts (l_game (tick_phase gs r l)) = broadcasts (l_game l)"
proof -
  let ?order = "r_sessions r (g_sessions (l_game l))"
  obtain w sm where d: "DrainInputs (simulation gs) ?order (g_world (l_game l)) (g_sessions (l_game l)) = (w, sm)" by force
  have "w_tick w = w_tick (g_world (l_game l))"
    using d drain_tick [of "simulation gs" ?order "(g_world (l_game l), g_sessions (l_game l))"]
    by (simp add: DrainInputs_def)
  with assms d show "w_tick (g_world (l_game (tick_phase gs r l))) = w_tick (g_world (l_game l)) + 1"
    and "lastTick (tick_phase gs r l) = r_now r"
    and "tickSinceBroadcast (tick_phase gs r l) = tickSinceBroadcast l + 1"
    and "broadcasts (l_game (tick_phase gs r l)) = broadcasts (l_game l)"
    by (simp_all add: tick_phase_def IncrementTick_def Let_def)
qed

lemma broadcast_phase_frame:
  "lastTick (broadcast_phase pb r l) = lastTick l" "g_world (l_game (broadcast_phase pb r l)) = g_world (l_game l)"
  "broadcasts (l_game (broadcast_phase pb r l)) \<le> broadcasts (l_game l) + 1"
  "tickSinceBroadcast l < 2 \<Longrightarrow> broadcast_phase pb r l = l"
  "2 \<le> tickSinceBroadcast l \<Longrightarrow> tickSinceBroadcast (broadcast_phase pb r l) = 0"
  by (auto simp: broadcast_phase_def defaultBroadcastTickDivisor_def Broadcast_def ENetHost_Broadcast_def broadcasts_def
      is_broadcast_def Let_def split: sum.splits dest: leD)

lemma accounted_round:
  assumes "accounted gs start t0 b0 n b l"
  shows "\<exists>n' b'. accounted gs start t0 b0 n' b' (loop_round pb gs r l)"
proof -
  let ?l1 = "l\<lparr>l_game := handleENetEvent pb gs (Service (r_event r)) (l_game l)\<rparr>"
  let ?l2 = "tick_phase gs r ?l1"
  have a1: "accounted gs start t0 b0 n b ?l1" using assms by (simp add: accounted_def)
  show ?thesis
  proof (cases "TickInterval (simulation gs) \<le> r_now r - lastTick ?l1")
    case False
    then have "?l2 = ?l1" by (simp add: tick_phase_def)
    moreover have "broadcast_phase pb r ?l1 = ?l1" using a1 by (simp add: accounted_def broadcast_phase_frame(4))
    ultimately show ?thesis using a1 unfolding loop_round_def by auto
  next
    case True
    note l2 = tick_phase_due [OF True]
    have time: "int (Suc n) * TickInterval (simulation gs) \<le> lastTick ?l2 - start"
      using a1 True l2(2) by (simp add: accounted_def distrib_right)
    have tick: "w_tick (g_world (l_game ?l2)) = t0 + of_nat (Suc n)" using a1 l2(1) by (simp add: accounted_def)
    consider (even) "tickSinceBroadcast ?l1 = 0" | (odd) "tickSinceBroadcast ?l1 = 1"
      using a1 unfolding accounted_def by (meson word_less_two)
    then show ?thesis
    proof cases
      case even
      then have "broadcast_phase pb r ?l2 = ?l2" by (intro broadcast_phase_frame(4)) (simp add: l2 word_less_nat_alt)
      moreover have "accounted gs start t0 b0 (Suc n) b ?l2" using a1 even time tick l2 by (simp add: accounted_def)
      ultimately show ?thesis unfolding loop_round_def by auto
    next
      case odd
      then have "accounted gs start t0 b0 (Suc n) (Suc b) (broadcast_phase pb r ?l2)"
        using a1 time tick l2 broadcast_phase_frame [where pb = pb and r = r and l = ?l2] by (simp add: accounted_def)
      then show ?thesis unfolding loop_round_def by auto
    qed
  qed
qed

lemma accounted_loop:
  assumes "accounted gs start t0 b0 n b l"
  shows "\<exists>n' b'. accounted gs start t0 b0 n' b' (fold (loop_round pb gs) rounds l)"
  using assms
proof (induction rounds arbitrary: l n b)
  case (Cons r rounds)
  from accounted_round [OF Cons.prems] Cons.IH show ?case by fastforce
qed auto

text \<open>No step of a run starts or stops the library, the host or the health server.\<close>

lemma lifetime_step: "filter is_lifetime (g_out (l_game (run_step pb gs st l))) = filter is_lifetime (g_out (l_game l))"
proof (cases st)
  case (Round r)
  have t: "g_out (l_game (tick_phase gs r l)) = g_out (l_game l)" for l
    by (simp add: tick_phase_def Let_def split: prod.splits)
  have b: "filter is_lifetime (g_out (l_game (broadcast_phase pb r l))) = filter is_lifetime (g_out (l_game l))" for l
    by (auto simp: broadcast_phase_def Broadcast_def ENetHost_Broadcast_def emit_def is_lifetime_def Let_def split: sum.splits)
  show ?thesis by (simp add: Round loop_round_def b t emitted_event)
qed simp

lemma lifetime_steps: "filter is_lifetime (g_out (run_steps pb gs start steps g)) = filter is_lifetime (g_out g)"
proof -
  have "filter is_lifetime (g_out (l_game (fold (run_step pb gs) steps l))) = filter is_lifetime (g_out (l_game l))" for l
    by (induction steps arbitrary: l) (simp_all add: lifetime_step)
  then show ?thesis by (simp add: run_steps_def)
qed

text \<open>The answers of the lock store to the release calls of a shutdown.\<close>

fun release_results :: "'s GameServerProc \<Rightarrow> 'p Session list \<Rightarrow> 's \<Rightarrow> bool result list" where
  "release_results gs [] s = []"
| "release_results gs (session # rest) s =
     (case gsp_release gs (sess_CharacterID session) (cfg_ServerID (gsp_cfg gs)) s of
        (r, s1) \<Rightarrow> r # release_results gs rest s1)"

context character_locker
begin

text \<open>Releasing the locks of a list of sessions frees each of them when every call is answered.\<close>

lemma shutdown_frees:
  assumes "gsp_release gs = release" and "wf (g_store g)"
    and "list_all (\<lambda>r. \<not> isl r) (release_results gs ss (g_store g))"
  shows "wf (g_store (shutdown_sessions gs ss g)) \<and>
    (\<forall>c. holder (g_store (shutdown_sessions gs ss g)) c =
       (if c \<in> TrimSpace ` sess_CharacterID ` set ss \<and>
           holder (g_store g) c = Some (TrimSpace (cfg_ServerID (gsp_cfg gs)))
        then None else holder (g_store g) c))"
  using assms(2,3)
proof (induction ss arbitrary: g)
  case (Cons se ss)
  let ?me = "cfg_ServerID (gsp_cfg gs)" and ?c = "sess_CharacterID se"
  obtain r s1 where r: "release ?c ?me (g_store g) = (r, s1)" by force
  have rest: "\<not> isl r" "list_all (\<lambda>r. \<not> isl r) (release_results gs ss s1)"
    using Cons.prems(2) r assms(1) by simp_all
  then obtain b where b: "r = Inr b" by (cases r) simp_all
  note ok = release_ok [OF Cons.prems(1) r [unfolded b]]
  let ?g1 = "(emit (Disconnect (Peer se)) g)\<lparr>g_store := s1\<rparr>"
  have "shutdown_sessions gs (se # ss) g = shutdown_sessions gs ss ?g1"
    using r assms(1) by (simp add: Let_def)
  moreover have "wf (g_store ?g1)" using wf_release [OF Cons.prems(1) r] by simp
  moreover have "holder s1 c = (if c = TrimSpace ?c \<and> holder (g_store g) c = Some (TrimSpace ?me) then None
      else holder (g_store g) c)" for c using ok by auto
  ultimately show ?case using Cons.IH [of ?g1] rest(2) by auto
qed simp

end

section \<open>Properties\<close>

lemma game_inv_one_session:
  assumes "game_inv holder h g"
  shows "distinct_entities (g_sessions g) \<and>
    (\<forall>p se. fmlookup (g_sessions g) p = Some se \<longrightarrow>
       GetEntity (g_world g) (EntityID se) \<noteq> None \<and>
       holder (g_store g) (sess_CharacterID se) = Some (TrimSpace (jh_serverID h)))"
proof -
  from assms have inv: "fmlookup (g_sessions g) p = Some se \<Longrightarrow> EntityID se = char_key (sess_CharacterID se) \<and>
      holder (g_store g) (sess_CharacterID se) = Some (TrimSpace (jh_serverID h)) \<and>
      GetEntity (g_world g) (char_key (sess_CharacterID se)) \<noteq> None"
    and uniq: "plays g p c \<Longrightarrow> plays g q c \<Longrightarrow> p = q" for p q se c
    unfolding game_inv_def by blast+
  have "distinct_entities (g_sessions g)"
    unfolding distinct_entities_def
  proof (intro allI impI)
    fix p q a b
    assume l: "fmlookup (g_sessions g) p = Some a" "fmlookup (g_sessions g) q = Some b" "EntityID a = EntityID b"
    then have "sess_CharacterID a = sess_CharacterID b" using inv [OF l(1)] inv [OF l(2)] by simp
    with l uniq show "p = q" unfolding plays_def by metis
  qed
  then show ?thesis using inv by fastforce
qed

text \<open>
  C5. No session without a token: a join request changes the sessions only when a token
  was consumed that names the requested character and this server, its character was
  locked for this server and loaded; the new session then belongs to the token's user,
  and its entity starts at the stored position.
\<close>

theorem join_requires_token:
  assumes "g_sessions (HandleJoinRequest pb h peer data g) \<noteq> g_sessions g"
  shows "\<exists>req tok s1 s2 ch s3 se. unmarshalJoinRequest pb data = Inr req \<and>
    jh_ConsumeJoinToken h (jr_JoinToken req) (g_store g) = (Inr tok, s1) \<and>
    jt_CharacterID tok = jr_CharacterId req \<and> jt_ServerID tok = jh_serverID h \<and>
    jh_AcquireCharacterLock h (jt_CharacterID tok) (jh_serverID h) (jh_lockTTL h) s1 = (Inr True, s2) \<and>
    jh_GetCharacterByID h (jt_CharacterID tok) s2 = (Inr ch, s3) \<and>
    fmlookup (g_sessions (HandleJoinRequest pb h peer data g)) peer = Some se \<and>
    sess_UserID se = jt_UserID tok \<and> sess_CharacterID se = char_ID ch \<and> LatestInput se = None \<and>
    map_option ent_Position (GetEntity (g_world (HandleJoinRequest pb h peer data g)) (EntityID se)) = Some (char_Position ch) \<and>
    (\<forall>q. q \<noteq> peer \<longrightarrow> fmlookup (g_sessions (HandleJoinRequest pb h peer data g)) q = fmlookup (g_sessions g) q)"
proof (cases rule: HandleJoinRequest_cases [of pb h peer data g])
  case (refused r s')
  with assms show ?thesis by simp
next
  case (admitted req tok s1 s2 ch s3)
  have "fmlookup (g_sessions (HandleJoinRequest pb h peer data g)) peer =
      Some \<lparr>Peer = peer, sess_UserID = jt_UserID tok, sess_CharacterID = char_ID ch,
        EntityID = ent_ID (char_entity ch), LatestInput = None\<rparr>"
    unfolding admitted(7) by (simp add: admit_def Add_def Let_def)
  moreover have "map_option ent_Position (GetEntity (g_world (HandleJoinRequest pb h peer data g)) (ent_ID (char_entity ch))) =
      Some (char_Position ch)"
    unfolding admitted(7) by (simp add: admit_def char_entity_def Let_def)
  moreover have "\<forall>q. q \<noteq> peer \<longrightarrow> fmlookup (g_sessions (HandleJoinRequest pb h peer data g)) q = fmlookup (g_sessions g) q"
    unfolding admitted(7) by (simp add: admit_def Add_def Let_def)
  ultimately show ?thesis using admitted(1-6) by fastforce
qed

lemma refusal_clean:
  assumes "join_backend h holder valid" and "valid (g_store g)"
    and "g_sessions (HandleJoinRequest pb h peer data g) = g_sessions g" and "fmlookup (g_sessions g) peer = None"
  shows "g_world (HandleJoinRequest pb h peer data g) = g_world g \<and>
    (\<exists>pre. g_out (HandleJoinRequest pb h peer data g) = g_out g @ pre @ [Disconnect peer]) \<and>
    (\<forall>c ow. holder (g_store g) c = Some ow \<longrightarrow> holder (g_store (HandleJoinRequest pb h peer data g)) c = Some ow)"
proof (cases rule: HandleJoinRequest_cases [of pb h peer data g])
  case (refused r s')
  from join_backend.refused_keeps_locks [OF assms(1,2) refused] sendJoinResponse_refuses [of pb peer r "g\<lparr>g_store := s'\<rparr>"]
  show ?thesis unfolding refused by simp
next
  case (admitted req tok s1 s2 ch s3)
  have "fmlookup (g_sessions (HandleJoinRequest pb h peer data g)) peer \<noteq> None"
    unfolding admitted(7) by (simp add: admit_def Add_def Let_def)
  with assms(3,4) show ?thesis by simp
qed

text \<open>
  C28. Ticks and broadcasts: a run of the main loop advances the tick counter (modulo
  \<open>2 ^ 64\<close>) at most once per tick interval of elapsed time, and broadcasts at most one
  snapshot for every two ticks.
\<close>

theorem loop_rate_bounded:
  "\<exists>n. w_tick (g_world (l_game (runGameLoop pb gs start rounds g))) = w_tick (g_world g) + of_nat n \<and>
     int n * TickInterval (simulation gs) \<le> lastTick (runGameLoop pb gs start rounds g) - start \<and>
     2 * (broadcasts (l_game (runGameLoop pb gs start rounds g)) - broadcasts g) \<le> n"
proof -
  have "accounted gs start (w_tick (g_world g)) (broadcasts g) 0 0 \<lparr>l_game = g, lastTick = start, tickSinceBroadcast = 0\<rparr>"
    by (simp add: accounted_def)
  from accounted_loop [OF this, of pb rounds] obtain n b where
    a: "accounted gs start (w_tick (g_world g)) (broadcasts g) n b (runGameLoop pb gs start rounds g)"
    unfolding runGameLoop_def by blast
  then have "2 * (broadcasts (l_game (runGameLoop pb gs start rounds g)) - broadcasts g) \<le> n"
    unfolding accounted_def by linarith
  with a show ?thesis unfolding accounted_def by blast
qed


lemma shutdown_frees_all:
  assumes "character_locker acquire (gsp_release gs) holder valid" and "valid (g_store g)"
    and "list_all (\<lambda>r. \<not> isl r) (release_results gs (All (order (g_sessions g)) (g_sessions g)) (g_store g))"
    and "\<And>i s. valid s \<Longrightarrow> holder (snd (gsp_deregister gs i s)) = holder s"
    and "enumerates (order (g_sessions g)) (g_sessions g)"
    and "fmlookup (g_sessions g) p = Some se"
  shows "holder (g_store (shutdown gs order g)) (TrimSpace (sess_CharacterID se)) \<noteq> Some (TrimSpace (cfg_ServerID (gsp_cfg gs))) \<and>
    Disconnect (Peer se) \<in> set (g_out (shutdown gs order g))"
proof -
  let ?ss = "All (order (g_sessions g)) (g_sessions g)"
  have "se \<in> set ?ss"
    using map_filter_enumerates [OF assms(5)] assms(6) by (auto simp: All_def fmlookup_ran'_iff)
  with character_locker.shutdown_frees [OF assms(1) refl, of "emit HealthShutdown g" ?ss] assms(2,3) show ?thesis
    by (auto simp: shutdown_out shutdown_store assms(4))
qed

lemma rejoin_leaks:
  assumes "canonical_backend h holder valid" and "game_inv holder h g" and "valid (g_store g)"
    and "fmlookup (g_sessions g) peer = Some se"
    and "g_sessions (HandleJoinRequest pb h peer data g) \<noteq> g_sessions g"
    and "g' = HandleDisconnect h peer (HandleJoinRequest pb h peer data g)"
  shows "GetEntity (g_world g') (EntityID se) \<noteq> None \<and>
    holder (g_store g') (sess_CharacterID se) = Some (TrimSpace (jh_serverID h)) \<and>
    (\<forall>q sf. fmlookup (g_sessions g') q = Some sf \<longrightarrow> EntityID sf \<noteq> EntityID se)"
proof (cases rule: HandleJoinRequest_cases [of pb h peer data g])
  case (refused r s')
  with assms(5) show ?thesis by simp
next
  case (admitted req tok s1 s2 ch s3)
  have jb: "join_backend h holder valid" and cl: "character_locker (jh_AcquireCharacterLock h) (jh_ReleaseCharacterLock h) holder valid"
    using assms(1) by (simp_all add: canonical_backend_def join_backend_def)
  let ?j = "HandleJoinRequest pb h peer data g" and ?c = "jt_CharacterID tok"
  have se: "EntityID se = char_key (sess_CharacterID se)" "holder (g_store g) (sess_CharacterID se) = Some (TrimSpace (jh_serverID h))"
    "GetEntity (g_world g) (char_key (sess_CharacterID se)) \<noteq> None"
    using assms(2,4) by (auto simp: game_inv_def)
  note s3 = join_backend.admission_stores [OF jb assms(3) admitted(2,5,6)]
  have id: "char_ID ch = ?c" "TrimSpace ?c = ?c"
    using canonical_backend.load_id [OF assms(1,3) admitted(2) s3(1) admitted(6)] by simp_all
  have ne: "?c \<noteq> sess_CharacterID se" using s3(3) se(2) id by auto
  have h3: "holder s3 (sess_CharacterID se) = Some (TrimSpace (jh_serverID h))" using s3(4) id ne se(2) by simp
  have lk: "fmlookup (g_sessions ?j) peer = Some \<lparr>Peer = peer, sess_UserID = jt_UserID tok, sess_CharacterID = ?c,
      EntityID = char_key ?c, LatestInput = None\<rparr>"
    unfolding admitted(7) by (simp add: admit_def Add_def char_entity_def id Let_def)
  obtain r s4 where r: "jh_ReleaseCharacterLock h ?c (jh_serverID h) s3 = (r, s4)" by force
  have h4: "holder s4 (sess_CharacterID se) = holder s3 (sess_CharacterID se)"
    using character_locker.release_other [OF cl s3(2) r] ne id by simp
  have st: "g_store ?j = s3" unfolding admitted(7) by (simp add: admit_def Let_def)
  have e: "GetEntity (g_world ?j) (char_key ?c) = Some (char_entity ch)"
    and e': "GetEntity (g_world ?j) (EntityID se) = GetEntity (g_world g) (EntityID se)"
    unfolding admitted(7) using ne se(1) by (simp_all add: admit_def char_entity_def id Let_def)
  have g': "g' = ?j\<lparr>g_world := RemoveEntity (g_world ?j) (char_entity ch), g_sessions := fmdrop peer (g_sessions ?j), g_store := s4\<rparr>"
    using lk r st e by (simp add: assms(6) HandleDisconnect_def Remove_def)
  have "EntityID sf \<noteq> EntityID se" if l: "fmlookup (g_sessions g') q = Some sf" for q sf
  proof
    assume "EntityID sf = EntityID se"
    from l have q: "q \<noteq> peer" "fmlookup (g_sessions ?j) q = Some sf" by (simp_all add: g' split: if_splits)
    then have "fmlookup (g_sessions g) q = Some sf" unfolding admitted(7) by (simp add: admit_def Add_def Let_def)
    with assms(2,4) q \<open>EntityID sf = EntityID se\<close> show False
      unfolding game_inv_def plays_def by (metis char_key_inject(1))
  qed
  moreover have "GetEntity (g_world g') (EntityID se) \<noteq> None"
    using e' se ne by (simp add: g' char_entity_def id)
  ultimately show ?thesis using h3 h4 by (simp add: g')
qed

lemma alias_leaks:
  assumes "join_backend h holder valid" and "valid (g_store g)"
    and "g_sessions (HandleJoinRequest pb h peer data g) \<noteq> g_sessions g"
    and "unmarshalJoinRequest pb data = Inr req"
    and "fmlookup (g_sessions (HandleJoinRequest pb h peer data g)) peer = Some se"
    and "TrimSpace (jr_CharacterId req) \<noteq> TrimSpace (sess_CharacterID se)"
  shows "holder (g_store (HandleJoinRequest pb h peer data g)) (TrimSpace (sess_CharacterID se)) =
      holder (g_store g) (TrimSpace (sess_CharacterID se)) \<and>
    holder (g_store (HandleDisconnect h peer (HandleJoinRequest pb h peer data g))) (TrimSpace (jr_CharacterId req)) =
      Some (TrimSpace (jh_serverID h))"
proof (cases rule: HandleJoinRequest_cases [of pb h peer data g])
  case (refused r s')
  with assms(3) show ?thesis by simp
next
  case (admitted req' tok s1 s2 ch s3)
  have cl: "character_locker (jh_AcquireCharacterLock h) (jh_ReleaseCharacterLock h) holder valid"
    using assms(1) by (simp add: join_backend_def)
  let ?j = "HandleJoinRequest pb h peer data g" and ?c = "jt_CharacterID tok"
  have c: "jr_CharacterId req = ?c" using assms(4) admitted(1,3) by simp
  have se: "se = \<lparr>Peer = peer, sess_UserID = jt_UserID tok, sess_CharacterID = char_ID ch,
      EntityID = char_key (char_ID ch), LatestInput = None\<rparr>"
    using assms(5) unfolding admitted(7) by (simp add: admit_def Add_def char_entity_def Let_def)
  note s3 = join_backend.admission_stores [OF assms(1,2) admitted(2,5,6)]
  have st: "g_store ?j = s3" unfolding admitted(7) by (simp add: admit_def Let_def)
  obtain r s4 where r: "jh_ReleaseCharacterLock h (char_ID ch) (jh_serverID h) s3 = (r, s4)" by force
  note h4 = character_locker.release_other [OF cl s3(2) r]
  have "g_store (HandleDisconnect h peer ?j) = s4"
    using assms(5) se r st by (simp add: HandleDisconnect_def Remove_def Let_def)
  with h4 s3(4) st assms(6) c se show ?thesis by auto
qed

section \<open>Witnesses\<close>

text \<open>A user with one character, a join token for it, and a codec of framed fields.\<close>

definition w_proto :: proto where
  "w_proto = \<lparr>
     pb_unmarshal_join = (\<lambda>d. case unframe d of
         [t, c] \<Rightarrow> Inr \<lparr>jr_JoinToken = t, jr_CharacterId = c\<rparr> | _ \<Rightarrow> Inl (Opaque ''bad packet'')),
     pb_marshal_response = (\<lambda>r. Inr (rsp_Reason r)),
     pb_unmarshal_input = (\<lambda>d. Inl (Opaque ''bad packet'')),
     pb_marshal_snapshot = (\<lambda>p. Inr ''snapshot'')\<rparr>"

definition w_character :: "string \<Rightarrow> Character" where
  "w_character i = \<lparr>char_ID = i, char_UserID = ''a1'', char_Name = i, char_MapID = ''start'',
     char_Position = \<lparr>X = f64_zero, Y = f64_zero\<rparr>, char_CreatedAt = 0, char_UpdatedAt = 0\<rparr>"

definition w_mem_db :: mem_db where
  "w_mem_db = \<lparr>db_users = [], db_chars = [w_character ''b1'', w_character ''b2''], db_clock = 0\<rparr>"

definition w_issue :: "string \<Rightarrow> string \<Rightarrow> mem \<Rightarrow> mem" where
  "w_issue tok c s = snd (CreateJoinToken mem_token_json (Some mem_token_store) 0
     (w_token\<lparr>jt_Token := tok, jt_CharacterID := c\<rparr>) s)"

definition w_game :: "mem \<Rightarrow> (nat, mem \<times> mem_db) game" where
  "w_game s = initial_game (s, w_mem_db)"

definition w_join :: "string \<Rightarrow> string \<Rightarrow> (nat, mem \<times> mem_db) game \<Rightarrow> (nat, mem \<times> mem_db) game" where
  "w_join tok c = HandleJoinRequest w_proto mem_handler 1 (frame [tok, c])"

definition w_session :: "string \<Rightarrow> nat Session" where
  "w_session c = \<lparr>Peer = 1, sess_UserID = ''u1'', sess_CharacterID = c, EntityID = char_key c, LatestInput = None\<rparr>"

abbreviation w_wf :: "mem \<times> mem_db \<Rightarrow> bool" where
  "w_wf \<equiv> wf_stores mem_token_json mem_canon (cl_keys mem_lock_store) mem_view"

abbreviation w_holder :: "mem \<times> mem_db \<Rightarrow> string \<Rightarrow> string option" where
  "w_holder \<equiv> holder_stores (cl_keys mem_lock_store) mem_view"

lemmas w_backend = mem_game.game.canonical_backend_axioms [folded mem_handler_def]

lemma w_join_backend: "join_backend mem_handler w_holder w_wf"
  using w_backend by (simp add: canonical_backend_def)

lemma w_stores_empty: "w_wf (mem_empty, d)"
proof -
  have "mem_view mem_empty = (\<lambda>_. None)" by (simp add: fun_eq_iff mem_view_def mem_empty_def)
  then show ?thesis by (simp add: wf_stores_def wf_keys_empty tokens_canonical_def pending_raw_def split: sum.splits)
qed

lemma w_wf_issue:
  assumes "w_wf (s, d)" and "fst (CreateJoinToken mem_token_json (Some mem_token_store) 0
     (w_token\<lparr>jt_Token := tok, jt_CharacterID := c\<rparr>) s) = Inr ()"
    and "mem_canon c = Some c" and "is_ascii c"
  shows "w_wf (w_issue tok c s, d')"
proof -
  have "CreateJoinToken mem_token_json (Some mem_token_store) 0 (w_token\<lparr>jt_Token := tok, jt_CharacterID := c\<rparr>) s =
      (Inr (), w_issue tok c s)"
    using assms(2) by (simp add: w_issue_def prod_eq_iff)
  from mem_game.create_stores [OF assms(1) this mem_token_json_roundtrip] assms(3,4) show ?thesis
    by (simp add: w_token_def is_ascii_def Second_def)
qed

lemma w_wf_1: "w_wf (w_issue ''t1'' ''b1'' mem_empty, d)"
  by (rule w_wf_issue [OF w_stores_empty]) code_simp+

lemma w_wf_2: "w_wf (w_issue ''t2'' ''b2'' (w_issue ''t1'' ''b1'' mem_empty), d)"
  by (rule w_wf_issue [OF w_wf_1]) code_simp+

definition w_game_1 :: "(nat, mem \<times> mem_db) game" where
  "w_game_1 = w_game (w_issue ''t1'' ''b1'' mem_empty)"

definition w_game_2 :: "(nat, mem \<times> mem_db) game" where
  "w_game_2 = w_game (w_issue ''t2'' ''b2'' (w_issue ''t1'' ''b1'' mem_empty))"

lemma w_games: "g_store w_game_1 = (w_issue ''t1'' ''b1'' mem_empty, w_mem_db)" "g_sessions w_game_1 = fmempty"
  "g_store w_game_2 = (w_issue ''t2'' ''b2'' (w_issue ''t1'' ''b1'' mem_empty), w_mem_db)"
  by (simp_all add: w_game_1_def w_game_2_def w_game_def initial_game_def NewSessionManager_def)

lemma w_joined: "fmlookup (g_sessions (w_join ''t1'' ''b1'' w_game_1)) 1 = Some (w_session ''b1'')"
  by code_simp

theorem join_requires_token_witness:
  "\<exists>tok s1. ConsumeJoinToken mem_token_json (Some mem_token_store) ''t1'' (fst (g_store w_game_1)) = (Inr tok, s1) \<and>
     jt_CharacterID tok = ''b1'' \<and> jt_ServerID tok = ''s1''"
proof -
  have "g_sessions (w_join ''t1'' ''b1'' w_game_1) \<noteq> g_sessions w_game_1"
    using w_joined by (auto simp: w_games)
  from join_requires_token [OF this [unfolded w_join_def]] obtain req tok s1 where
    "unmarshalJoinRequest w_proto (frame [''t1'', ''b1'']) = Inr req"
    "jh_ConsumeJoinToken mem_handler (jr_JoinToken req) (g_store w_game_1) = (Inr tok, s1)"
    "jt_CharacterID tok = jr_CharacterId req" "jt_ServerID tok = jh_serverID mem_handler" by blast
  moreover have "unmarshalJoinRequest w_proto (frame [''t1'', ''b1'']) = Inr \<lparr>jr_JoinToken = ''t1'', jr_CharacterId = ''b1''\<rparr>"
    by code_simp
  ultimately show ?thesis
    by (auto simp: mem_handler_def game_handler_def NewJoinHandler_def on_fst_eq w_games)
qed

end
