(* ===== verification/Go_Time.thy ===== *)
theory Go_Time
  imports Go_Strings Go_Float64 Domain
begin

text \<open>
  Go's \<open>time.ParseDuration\<close>, which the configuration uses: an optional sign and a
  sequence of decimal numbers with units. Integer parts are exact with overflow checks;
  the fraction is scaled in \<open>float64\<close> arithmetic, as in the standard library.
\<close>

section \<open>Definitions: float64 helpers\<close>

definition f64_of_nat :: "nat \<Rightarrow> f64" where
  "f64_of_nat n = pack False (round_units (n * 2 ^ 1074) 0)"

text \<open>Round \<open>p / d\<close> to the nearest natural number, ties to even.\<close>

definition rne_div :: "nat \<Rightarrow> nat \<Rightarrow> nat" where
  "rne_div p d =
     (let q = p div d; r = p mod d
      in if 2 * r < d then q else if d < 2 * r then Suc q else if even q then q else Suc q)"

fun f64_div :: "f64 \<Rightarrow> f64 \<Rightarrow> f64" where
  "f64_div NaN y = NaN"
| "f64_div x NaN = NaN"
| "f64_div (Inf a) (Inf b) = NaN"
| "f64_div (Inf a) (Fin b n) = Inf (a \<noteq> b)"
| "f64_div (Fin a m) (Inf b) = Fin (a \<noteq> b) 0"
| "f64_div (Fin a m) (Fin b n) =
     (if n = 0 then (if m = 0 then NaN else Inf (a \<noteq> b))
      else let p = m * 2 ^ 1074; sh = bitlen (p div n) - 53
           in pack (a \<noteq> b) (rne_div p (n * 2 ^ sh) * 2 ^ sh))"

text \<open>\<open>uint64(x)\<close> for a non-negative value in range: the integer part.\<close>

fun f64_trunc :: "f64 \<Rightarrow> nat" where
  "f64_trunc (Fin a m) = m div 2 ^ 1074"
| "f64_trunc x = 0"

section \<open>Definitions: durations\<close>

definition Microsecond :: duration where
  "Microsecond = 1000"

definition Minute :: duration where
  "Minute = 60 * Second"

definition Hour :: duration where
  "Hour = 60 * Minute"

definition unitMap :: "(string \<times> int) list" where
  "unitMap = [(''ns'', 1), (''us'', Microsecond), ([CHR 0xC2, CHR 0xB5, CHR ''s''], Microsecond),
     ([CHR 0xCE, CHR 0xBC, CHR ''s''], Microsecond), (''ms'', Millisecond), (''s'', Second),
     (''m'', Minute), (''h'', Hour)]"

text \<open>\<open>leadingInt\<close>: None when the number passes \<open>2 ^ 63\<close>.\<close>

fun leadingInt :: "int \<Rightarrow> string \<Rightarrow> (int \<times> string) option" where
  "leadingInt x [] = Some (x, [])"
| "leadingInt x (c # s) =
     (if \<not> is_digit c then Some (x, c # s)
      else if 2 ^ 63 div 10 < x then None
      else let y = 10 * x + int (digit_val c) in if 2 ^ 63 < y then None else leadingInt y s)"

text \<open>\<open>leadingFraction\<close>: digits past the precision are skipped.\<close>

fun leadingFraction :: "int \<Rightarrow> nat \<Rightarrow> bool \<Rightarrow> string \<Rightarrow> int \<times> nat \<times> string" where
  "leadingFraction x scale overflow [] = (x, scale, [])"
| "leadingFraction x scale overflow (c # s) =
     (if \<not> is_digit c then (x, scale, c # s)
      else if overflow \<or> (2 ^ 63 - 1) div 10 < x then leadingFraction x scale True s
      else let y = 10 * x + int (digit_val c)
           in if 2 ^ 63 < y then leadingFraction x scale True s
              else leadingFraction y (10 * scale) False s)"

definition number_char :: "char \<Rightarrow> bool" where
  "number_char c = (c = CHR ''.'' \<or> is_digit c)"

text \<open>The unit after a number and the value it gives.\<close>

definition apply_unit :: "int \<Rightarrow> int \<Rightarrow> nat \<Rightarrow> string \<Rightarrow> (int \<times> string) option" where
  "apply_unit v f scale s =
     (let u = takeWhile (\<lambda>c. \<not> number_char c) s; rest = dropWhile (\<lambda>c. \<not> number_char c) s
      in if u = [] then None
         else case map_of unitMap u of None \<Rightarrow> None
         | Some unit \<Rightarrow>
             if 2 ^ 63 div unit < v then None
             else let v1 = v * unit;
                      v2 = (if 0 < f
                            then v1 + int (f64_trunc (f64_mul (f64_of_nat (nat f)) (f64_div (f64_of_nat (nat unit)) (f64_of_nat scale))))
                            else v1)
                  in if 0 < f \<and> 2 ^ 63 < v2 then None else Some (v2, rest))"

definition parse_component :: "string \<Rightarrow> (int \<times> string) option" where
  "parse_component s =
     (if s = [] \<or> \<not> number_char (hd s) then None
      else case leadingInt 0 s of None \<Rightarrow> None
      | Some (v, s1) \<Rightarrow>
          if s1 \<noteq> [] \<and> hd s1 = CHR ''.'' then
            (case leadingFraction 0 1 False (tl s1) of (f, scale, s2) \<Rightarrow>
               if length s1 = length s \<and> length s2 = length (tl s1) then None
               else apply_unit v f scale s2)
          else if length s1 = length s then None
          else apply_unit v 0 1 s1)"

lemma leadingInt_length: "leadingInt x s = Some (v, r) \<Longrightarrow> length r \<le> length s"
  by (induction x s rule: leadingInt.induct) (auto simp: Let_def split: if_splits)

lemma leadingFraction_length: "leadingFraction x sc ov s = (f, sc', r) \<Longrightarrow> length r \<le> length s"
  by (induction x sc ov s rule: leadingFraction.induct) (auto simp: Let_def split: if_splits)

lemma apply_unit_length: "apply_unit v f sc s = Some (w, r) \<Longrightarrow> length r < length s"
proof -
  assume "apply_unit v f sc s = Some (w, r)"
  then have "takeWhile (\<lambda>c. \<not> number_char c) s \<noteq> []" "r = dropWhile (\<lambda>c. \<not> number_char c) s"
    by (auto simp: apply_unit_def Let_def split: if_splits option.splits)
  moreover have "length s = length (takeWhile (\<lambda>c. \<not> number_char c) s) + length (dropWhile (\<lambda>c. \<not> number_char c) s)"
    by (metis length_append takeWhile_dropWhile_id)
  ultimately show ?thesis by simp
qed

lemma parse_component_length:
  assumes "parse_component s = Some (v, r)"
  shows "length r < length s"
proof -
  from assms obtain x s1 where l: "leadingInt 0 s = Some (x, s1)"
    by (auto simp: parse_component_def split: if_splits option.splits)
  note le = leadingInt_length [OF l]
  show ?thesis
  proof (cases "s1 \<noteq> [] \<and> hd s1 = CHR ''.''")
    case True
    obtain f sc s2 where f: "leadingFraction 0 1 False (tl s1) = (f, sc, s2)" by (metis prod_cases3)
    with assms l True have "apply_unit x f sc s2 = Some (v, r)"
      by (simp add: parse_component_def split: if_splits)
    from apply_unit_length [OF this] leadingFraction_length [OF f] le True show ?thesis by simp
  next
    case False
    with assms l have "apply_unit x 0 1 s1 = Some (v, r)" by (auto simp: parse_component_def split: if_splits)
    from apply_unit_length [OF this] le show ?thesis by simp
  qed
qed

text \<open>The loop of \<open>ParseDuration\<close>; the sum is a \<open>uint64\<close>.\<close>

function parse_components :: "string \<Rightarrow> int \<Rightarrow> int option" where
  "parse_components s d =
     (if s = [] then Some d
      else case parse_component s of None \<Rightarrow> None
      | Some (v, rest) \<Rightarrow>
          let d1 = (d + v) mod 2 ^ 64 in if 2 ^ 63 < d1 then None else parse_components rest d1)"
  by auto
termination by (relation "measure (\<lambda>(s, d). length s)") (auto dest: parse_component_length)

declare parse_components.simps [simp del]

definition ParseDuration :: "string \<Rightarrow> duration result" where
  "ParseDuration s =
     (let neg = (s \<noteq> [] \<and> hd s = CHR ''-'');
          ds = (if s \<noteq> [] \<and> (hd s = CHR ''-'' \<or> hd s = CHR ''+'') then tl s else s);
          bad = Inl (Opaque ''time: invalid duration'')
      in if ds = ''0'' then Inr 0
         else if ds = [] then bad
         else case parse_components ds 0 of None \<Rightarrow> bad
         | Some d \<Rightarrow> if neg then Inr (- d) else if 2 ^ 63 - 1 < d then bad else Inr d)"

section \<open>Lemmas\<close>

text \<open>Every duration that parses fits the 64-bit type.\<close>

lemma parse_components_range:
  "parse_components s d = Some r \<Longrightarrow> 0 \<le> d \<Longrightarrow> d \<le> 2 ^ 63 \<Longrightarrow> 0 \<le> r \<and> r \<le> 2 ^ 63"
proof (induction s d rule: parse_components.induct)
  case (1 s d)
  show ?case
  proof (cases "s = []")
    case True
    with 1 show ?thesis by (simp add: parse_components.simps)
  next
    case False
    with 1(2) obtain v rest where p: "parse_component s = Some (v, rest)"
      by (auto simp: parse_components.simps [of s] split: option.splits)
    let ?d = "(d + v) mod 2 ^ 64"
    from 1(2) False p have d: "?d \<le> 2 ^ 63" "parse_components rest ?d = Some r"
      by (simp_all add: parse_components.simps [of s] Let_def split: if_splits)
    with 1(1) [OF False p refl refl] show ?thesis by simp
  qed
qed

lemma ParseDuration_range:
  assumes "ParseDuration s = Inr d"
  shows "- (2 ^ 63) \<le> d \<and> d < 2 ^ 63"
proof -
  have "parse_components ds 0 = Some r \<Longrightarrow> 0 \<le> r \<and> r \<le> 2 ^ 63" for ds r
    using parse_components_range [of ds 0 r] by simp
  then show ?thesis using assms by (fastforce simp: ParseDuration_def Let_def split: if_splits option.splits)
qed

end
