(* ===== verification/Config.thy ===== *)
theory Config
  imports Go_Time Redis_Client
begin

text \<open>
  The configuration, \<open>internal/config\<close>: typed environment variables, defaults,
  validation that collects every problem, and the connection strings derived from the
  validated fields. An environment source is a partial function from names to values.
  Go's \<open>int\<close> is 64 bits wide; the parsers only return values in range. Of
  \<open>net/url\<close> the escaping rules that \<open>URL.String\<close> uses are modelled.
\<close>

section \<open>Definitions: environment\<close>

type_synonym EnvSource = "string \<Rightarrow> string option"

text \<open>\<open>errors.Join\<close>: nil when there is no error.\<close>

definition errors_Join :: "gerr list \<Rightarrow> unit result" where
  "errors_Join errs = (if errs = [] then Inr () else Inl (Wrap [] errs))"

definition lookupTrimmed :: "EnvSource \<Rightarrow> string \<Rightarrow> string \<times> bool" where
  "lookupTrimmed source key =
     (case source key of None \<Rightarrow> (TrimSpace [], False) | Some v \<Rightarrow> (TrimSpace v, True))"

definition stringEnv :: "EnvSource \<Rightarrow> string \<Rightarrow> string \<Rightarrow> string" where
  "stringEnv source key def = (case lookupTrimmed source key of (v, ok) \<Rightarrow> if ok then v else def)"

definition rawEnv :: "EnvSource \<Rightarrow> string \<Rightarrow> string \<Rightarrow> string" where
  "rawEnv source key def = (case source key of Some v \<Rightarrow> v | None \<Rightarrow> def)"

definition intEnv :: "EnvSource \<Rightarrow> string \<Rightarrow> int \<Rightarrow> int result" where
  "intEnv source key def =
     (case lookupTrimmed source key of (v, ok) \<Rightarrow>
        if \<not> ok \<or> v = [] then Inr def
        else (case Atoi v of
            None \<Rightarrow> Inl (Wrap (key @ '' must be an integer'') [Opaque ''strconv.Atoi''])
          | Some n \<Rightarrow> Inr n))"

definition int32Env :: "EnvSource \<Rightarrow> string \<Rightarrow> int \<Rightarrow> int result" where
  "int32Env source key def =
     bindE (intEnv source key def) (\<lambda>n.
     if n < - (2 ^ 31) \<or> 2 ^ 31 - 1 < n then Inl (Wrap (key @ '' must fit in int32'') [])
     else Inr n)"

definition durationEnv :: "EnvSource \<Rightarrow> string \<Rightarrow> duration \<Rightarrow> duration result" where
  "durationEnv source key def =
     (case lookupTrimmed source key of (v, ok) \<Rightarrow>
        if \<not> ok \<or> v = [] then Inr def
        else mapErr (\<lambda>e. Wrap (key @ '' must be a valid Go duration'') [e]) (ParseDuration v))"

definition csvEnv :: "EnvSource \<Rightarrow> string \<Rightarrow> string \<Rightarrow> string list" where
  "csvEnv source key def =
     filter (\<lambda>part. part \<noteq> []) (map TrimSpace (Split (stringEnv source key def) (CHR '','')))"

definition oneOf :: "string \<Rightarrow> string list \<Rightarrow> bool" where
  "oneOf value allowed = list_ex (\<lambda>a. value = a) allowed"

section \<open>Definitions: parsed values\<close>

record parsedValues =
  pv_shutdownTimeout :: duration
  pv_authRateLimitWindow :: duration
  pv_authRateLimitBurst :: int
  pv_postgresPort :: int
  pv_postgresMaxConns :: int
  pv_postgresMinConns :: int
  pv_postgresMaxConnLifetime :: duration
  pv_postgresMaxConnIdleTime :: duration
  pv_postgresHealthCheckPeriod :: duration
  pv_redisPort :: int
  pv_redisDB :: int
  pv_redisDialTimeout :: duration
  pv_redisReadTimeout :: duration
  pv_redisWriteTimeout :: duration
  pv_redisPoolSize :: int
  pv_redisMinIdleConns :: int

text \<open>\<open>v, err = f(); collect(err)\<close>: the value is zero on an error, the error is kept.\<close>

definition collected :: "int result \<Rightarrow> gerr list" where
  "collected r = (case r of Inl e \<Rightarrow> [e] | Inr _ \<Rightarrow> [])"

definition value_or_zero :: "int result \<Rightarrow> int" where
  "value_or_zero r = (case r of Inl _ \<Rightarrow> 0 | Inr v \<Rightarrow> v)"

definition parseValues :: "EnvSource \<Rightarrow> parsedValues result" where
  "parseValues source =
     (let shutdownTimeout = durationEnv source ''SHUTDOWN_TIMEOUT'' (10 * Second);
          authWindow = durationEnv source ''AUTH_RATE_LIMIT_WINDOW'' Minute;
          authBurst = intEnv source ''AUTH_RATE_LIMIT_BURST'' 10;
          pgPort = intEnv source ''POSTGRES_PORT'' 5432;
          pgMax = int32Env source ''POSTGRES_MAX_CONNS'' 10;
          pgMin = int32Env source ''POSTGRES_MIN_CONNS'' 1;
          pgLifetime = durationEnv source ''POSTGRES_MAX_CONN_LIFETIME'' Hour;
          pgIdle = durationEnv source ''POSTGRES_MAX_CONN_IDLE_TIME'' (30 * Minute);
          pgHealth = durationEnv source ''POSTGRES_HEALTH_CHECK_PERIOD'' Minute;
          rPort = intEnv source ''REDIS_PORT'' 6379;
          rDB = intEnv source ''REDIS_DB'' 0;
          rDial = durationEnv source ''REDIS_DIAL_TIMEOUT'' (5 * Second);
          rRead = durationEnv source ''REDIS_READ_TIMEOUT'' (3 * Second);
          rWrite = durationEnv source ''REDIS_WRITE_TIMEOUT'' (3 * Second);
          rPool = intEnv source ''REDIS_POOL_SIZE'' 10;
          rIdle = intEnv source ''REDIS_MIN_IDLE_CONNS'' 1;
          errs = concat (map collected [shutdownTimeout, authWindow, authBurst, pgPort, pgMax, pgMin, pgLifetime,
            pgIdle, pgHealth, rPort, rDB, rDial, rRead, rWrite, rPool, rIdle])
      in bindE (errors_Join errs) (\<lambda>_.
         Inr \<lparr>pv_shutdownTimeout = value_or_zero shutdownTimeout, pv_authRateLimitWindow = value_or_zero authWindow,
              pv_authRateLimitBurst = value_or_zero authBurst, pv_postgresPort = value_or_zero pgPort,
              pv_postgresMaxConns = value_or_zero pgMax, pv_postgresMinConns = value_or_zero pgMin,
              pv_postgresMaxConnLifetime = value_or_zero pgLifetime, pv_postgresMaxConnIdleTime = value_or_zero pgIdle,
              pv_postgresHealthCheckPeriod = value_or_zero pgHealth, pv_redisPort = value_or_zero rPort,
              pv_redisDB = value_or_zero rDB, pv_redisDialTimeout = value_or_zero rDial,
              pv_redisReadTimeout = value_or_zero rRead, pv_redisWriteTimeout = value_or_zero rWrite,
              pv_redisPoolSize = value_or_zero rPool, pv_redisMinIdleConns = value_or_zero rIdle\<rparr>))"

section \<open>Definitions: configuration and validation\<close>

record PostgresConfig =
  pc_URL :: string
  pc_Host :: string
  pc_Port :: int
  pc_User :: string
  pc_Password :: string
  pc_Database :: string
  pc_SSLMode :: string
  pc_MaxConns :: int
  pc_MinConns :: int
  pc_MaxConnLifetime :: duration
  pc_MaxConnIdleTime :: duration
  pc_HealthCheckPeriod :: duration

record RedisConfig =
  rcfg_Addr :: string
  rcfg_Host :: string
  rcfg_Port :: int
  rcfg_Password :: string
  rcfg_DB :: int
  rcfg_DialTimeout :: duration
  rcfg_ReadTimeout :: duration
  rcfg_WriteTimeout :: duration
  rcfg_PoolSize :: int
  rcfg_MinIdleConns :: int

record Config =
  AppName :: string
  Env :: string
  LogLevel :: string
  LogFormat :: string
  APIHTTPAddr :: string
  APIAllowedOrigins :: "string list"
  GameENetAddr :: string
  GameHTTPAddr :: string
  ShutdownTimeout :: duration
  AuthRateLimitWindow :: duration
  AuthRateLimitBurst :: int
  conf_Postgres :: PostgresConfig
  conf_Redis :: RedisConfig

text \<open>\<open>if cond { errs = append(errs, ...) }\<close>.\<close>

definition problem :: "bool \<Rightarrow> string \<Rightarrow> gerr list" where
  "problem cond msg = (if cond then [Wrap msg []] else [])"

definition wrapped :: "string \<Rightarrow> unit result \<Rightarrow> gerr list" where
  "wrapped msg r = (case r of Inl e \<Rightarrow> [Wrap msg [e]] | Inr _ \<Rightarrow> [])"

definition PostgresConfig_validate :: "PostgresConfig \<Rightarrow> unit result" where
  "PostgresConfig_validate p = errors_Join (concat [
     problem (TrimSpace (pc_Host p) = []) ''POSTGRES_HOST is required'',
     problem (pc_Port p \<le> 0 \<or> 65535 < pc_Port p) ''POSTGRES_PORT must be between 1 and 65535'',
     problem (TrimSpace (pc_User p) = []) ''POSTGRES_USER is required'',
     problem (pc_Password p = []) ''POSTGRES_PASSWORD is required'',
     problem (TrimSpace (pc_Database p) = []) ''POSTGRES_DB is required'',
     problem (\<not> oneOf (pc_SSLMode p) [''disable'', ''require'', ''verify-ca'', ''verify-full'']) ''invalid POSTGRES_SSLMODE'',
     problem (pc_MaxConns p < 1) ''POSTGRES_MAX_CONNS must be >= 1'',
     problem (pc_MinConns p < 0) ''POSTGRES_MIN_CONNS must be >= 0'',
     problem (pc_MaxConns p < pc_MinConns p) ''POSTGRES_MAX_CONNS must be >= POSTGRES_MIN_CONNS'',
     problem (pc_MaxConnLifetime p < 0) ''POSTGRES_MAX_CONN_LIFETIME must be >= 0'',
     problem (pc_MaxConnIdleTime p < 0) ''POSTGRES_MAX_CONN_IDLE_TIME must be >= 0'',
     problem (pc_HealthCheckPeriod p \<le> 0) ''POSTGRES_HEALTH_CHECK_PERIOD must be > 0''])"

definition RedisConfig_validate :: "RedisConfig \<Rightarrow> unit result" where
  "RedisConfig_validate r = errors_Join (concat [
     problem (TrimSpace (rcfg_Host r) = []) ''REDIS_HOST is required'',
     problem (rcfg_Port r \<le> 0 \<or> 65535 < rcfg_Port r) ''REDIS_PORT must be between 1 and 65535'',
     problem (rcfg_DB r < 0) ''REDIS_DB must be >= 0'',
     problem (rcfg_PoolSize r < 1) ''REDIS_POOL_SIZE must be >= 1'',
     problem (rcfg_MinIdleConns r < 0) ''REDIS_MIN_IDLE_CONNS must be >= 0'',
     problem (rcfg_PoolSize r < rcfg_MinIdleConns r) ''REDIS_MIN_IDLE_CONNS must be <= REDIS_POOL_SIZE'',
     problem (rcfg_DialTimeout r \<le> 0) ''REDIS_DIAL_TIMEOUT must be > 0'',
     problem (rcfg_ReadTimeout r \<le> 0) ''REDIS_READ_TIMEOUT must be > 0'',
     problem (rcfg_WriteTimeout r \<le> 0) ''REDIS_WRITE_TIMEOUT must be > 0''])"

definition Config_validate :: "Config \<Rightarrow> unit result" where
  "Config_validate c = errors_Join (concat [
     problem (TrimSpace (AppName c) = []) ''APP_NAME is required'',
     problem (\<not> oneOf (Env c) [''local'', ''development'', ''testing'', ''staging'', ''production'']) ''invalid APP_ENV'',
     problem (\<not> oneOf (LogLevel c) [''debug'', ''info'', ''warn'', ''error'']) ''invalid LOG_LEVEL'',
     problem (\<not> oneOf (LogFormat c) [''text'', ''json'']) ''invalid LOG_FORMAT'',
     problem (TrimSpace (APIHTTPAddr c) = []) ''API_HTTP_ADDR is required'',
     problem (APIAllowedOrigins c = []) ''API_ALLOWED_ORIGINS must include at least one origin'',
     problem (TrimSpace (GameENetAddr c) = []) ''GAME_ENET_ADDR is required'',
     problem (TrimSpace (GameHTTPAddr c) = []) ''GAME_HTTP_ADDR is required'',
     problem (ShutdownTimeout c \<le> 0) ''SHUTDOWN_TIMEOUT must be > 0'',
     problem (AuthRateLimitWindow c \<le> 0) ''AUTH_RATE_LIMIT_WINDOW must be > 0'',
     problem (AuthRateLimitBurst c < 1) ''AUTH_RATE_LIMIT_BURST must be >= 1'',
     wrapped ''postgres'' (PostgresConfig_validate (conf_Postgres c)),
     wrapped ''redis'' (RedisConfig_validate (conf_Redis c))])"

section \<open>Definitions: connection strings\<close>

definition unreserved :: "char \<Rightarrow> bool" where
  "unreserved c = (let n = (of_char c :: nat) in
     (48 \<le> n \<and> n \<le> 57) \<or> (65 \<le> n \<and> n \<le> 90) \<or> (97 \<le> n \<and> n \<le> 122) \<or> c \<in> set ''-_.~'')"

definition hex_digit :: "nat \<Rightarrow> char" where
  "hex_digit d = ''0123456789ABCDEF'' ! d"

definition percent :: "char \<Rightarrow> string" where
  "percent c = [CHR ''%'', hex_digit (of_char c div 16), hex_digit (of_char c mod 16)]"

text \<open>\<open>escape\<close> with the set of bytes that the mode leaves alone.\<close>

definition url_escape :: "string \<Rightarrow> string \<Rightarrow> string" where
  "url_escape safe s = concat (map (\<lambda>c. if unreserved c \<or> c \<in> set safe then [c] else percent c) s)"

definition escape_userinfo :: "string \<Rightarrow> string" where
  "escape_userinfo s = url_escape ''$&+,;='' s"

definition escape_host :: "string \<Rightarrow> string" where
  "escape_host s = url_escape (''!$&()*+,;=:[]<>'' @ [CHR 0x27, CHR 0x22]) s"

definition escape_path :: "string \<Rightarrow> string" where
  "escape_path s = url_escape ''$&+,/:;=@'' s"

definition escape_query :: "string \<Rightarrow> string" where
  "escape_query s = concat (map (\<lambda>c. if unreserved c then [c] else if c = CHR '' '' then ''+'' else percent c) s)"

text \<open>\<open>net.JoinHostPort\<close>: a host with a colon is put in brackets.\<close>

definition JoinHostPort :: "string \<Rightarrow> string \<Rightarrow> string" where
  "JoinHostPort host port =
     (if CHR '':'' \<in> set host then CHR ''['' # host @ '']:'' @ port else host @ CHR '':'' # port)"

definition postgresURLFromConfig :: "PostgresConfig \<Rightarrow> string" where
  "postgresURLFromConfig p =
     ''postgres://'' @ escape_userinfo (pc_User p) @ CHR '':'' # escape_userinfo (pc_Password p) @ CHR ''@'' #
     escape_host (JoinHostPort (pc_Host p) (Itoa (pc_Port p))) @
     escape_path (CHR ''/'' # pc_Database p) @ ''?sslmode='' @ escape_query (pc_SSLMode p)"

definition redisAddrFromConfig :: "RedisConfig \<Rightarrow> string" where
  "redisAddrFromConfig r = JoinHostPort (rcfg_Host r) (Itoa (rcfg_Port r))"

section \<open>Definitions: loading\<close>

definition set_directly :: "EnvSource \<Rightarrow> string \<Rightarrow> bool" where
  "set_directly source key = (case lookupTrimmed source key of (v, ok) \<Rightarrow> ok \<and> v \<noteq> [])"

definition config_of :: "EnvSource \<Rightarrow> parsedValues \<Rightarrow> Config" where
  "config_of source parsed =
     \<lparr>AppName = stringEnv source ''APP_NAME'' ''rpg-backend'',
      Env = stringEnv source ''APP_ENV'' ''local'',
      LogLevel = stringEnv source ''LOG_LEVEL'' ''info'',
      LogFormat = stringEnv source ''LOG_FORMAT'' ''text'',
      APIHTTPAddr = stringEnv source ''API_HTTP_ADDR'' '':8080'',
      APIAllowedOrigins = csvEnv source ''API_ALLOWED_ORIGINS''
        ''http://localhost:3000,http://localhost:5173,http://127.0.0.1:3000,http://127.0.0.1:5173'',
      GameENetAddr = stringEnv source ''GAME_ENET_ADDR'' '':7777'',
      GameHTTPAddr = stringEnv source ''GAME_HTTP_ADDR'' '':8081'',
      ShutdownTimeout = pv_shutdownTimeout parsed,
      AuthRateLimitWindow = pv_authRateLimitWindow parsed,
      AuthRateLimitBurst = pv_authRateLimitBurst parsed,
      conf_Postgres = \<lparr>pc_URL = [], pc_Host = stringEnv source ''POSTGRES_HOST'' ''localhost'',
        pc_Port = pv_postgresPort parsed, pc_User = stringEnv source ''POSTGRES_USER'' [],
        pc_Password = rawEnv source ''POSTGRES_PASSWORD'' [], pc_Database = stringEnv source ''POSTGRES_DB'' [],
        pc_SSLMode = stringEnv source ''POSTGRES_SSLMODE'' ''disable'',
        pc_MaxConns = pv_postgresMaxConns parsed, pc_MinConns = pv_postgresMinConns parsed,
        pc_MaxConnLifetime = pv_postgresMaxConnLifetime parsed, pc_MaxConnIdleTime = pv_postgresMaxConnIdleTime parsed,
        pc_HealthCheckPeriod = pv_postgresHealthCheckPeriod parsed\<rparr>,
      conf_Redis = \<lparr>rcfg_Addr = [], rcfg_Host = stringEnv source ''REDIS_HOST'' ''localhost'',
        rcfg_Port = pv_redisPort parsed, rcfg_Password = rawEnv source ''REDIS_PASSWORD'' [],
        rcfg_DB = pv_redisDB parsed, rcfg_DialTimeout = pv_redisDialTimeout parsed,
        rcfg_ReadTimeout = pv_redisReadTimeout parsed, rcfg_WriteTimeout = pv_redisWriteTimeout parsed,
        rcfg_PoolSize = pv_redisPoolSize parsed, rcfg_MinIdleConns = pv_redisMinIdleConns parsed\<rparr>\<rparr>"

definition with_urls :: "Config \<Rightarrow> Config" where
  "with_urls cfg = cfg\<lparr>conf_Postgres := (conf_Postgres cfg)\<lparr>pc_URL := postgresURLFromConfig (conf_Postgres cfg)\<rparr>,
     conf_Redis := (conf_Redis cfg)\<lparr>rcfg_Addr := redisAddrFromConfig (conf_Redis cfg)\<rparr>\<rparr>"

definition LoadWithSource :: "EnvSource \<Rightarrow> Config result" where
  "LoadWithSource source =
     (if set_directly source ''POSTGRES_URL'' then Inl (Wrap ''POSTGRES_URL must not be set directly'' [])
      else if set_directly source ''REDIS_ADDR'' then Inl (Wrap ''REDIS_ADDR must not be set directly'' [])
      else
        bindE (parseValues source) (\<lambda>parsed.
        bindE (Config_validate (config_of source parsed)) (\<lambda>_.
        Inr (with_urls (config_of source parsed)))))"

text \<open>
  \<open>Load\<close> on the environment of the process; \<open>dotenv\<close> is what \<open>godotenv.Load\<close> makes of it,
  whose error is ignored.
\<close>

definition OSEnv :: "(string \<Rightarrow> string option) \<Rightarrow> EnvSource" where
  "OSEnv environ = (\<lambda>key. environ key)"

definition Load :: "((string \<Rightarrow> string option) \<Rightarrow> (string \<Rightarrow> string option)) \<Rightarrow> (string \<Rightarrow> string option) \<Rightarrow> Config result" where
  "Load dotenv environ = LoadWithSource (OSEnv (dotenv environ))"

definition NewKeyBuilderFromConfig :: "Config \<Rightarrow> KeyBuilder result" where
  "NewKeyBuilderFromConfig cfg = NewKeyBuilder (AppName cfg) (Env cfg)"

section \<open>Lemmas: validation\<close>

lemma errors_Join_Inr [simp]: "errors_Join errs = Inr u \<longleftrightarrow> errs = []"
  by (simp add: errors_Join_def)

lemma problem_Nil [simp]: "problem c m = [] \<longleftrightarrow> \<not> c"
  by (simp add: problem_def)

lemma wrapped_Nil [simp]: "wrapped m r = [] \<longleftrightarrow> (\<exists>u. r = Inr u)"
  by (cases r) (simp_all add: wrapped_def)

lemma collected_Nil [simp]: "collected r = [] \<longleftrightarrow> (\<exists>v. r = Inr v \<and> value_or_zero r = v)"
  by (cases r) (simp_all add: collected_def value_or_zero_def)

lemma int32Env_range: "int32Env src key def = Inr n \<Longrightarrow> - (2 ^ 31) \<le> n \<and> n < 2 ^ 31"
  by (auto simp: int32Env_def bindE_eq_Inr split: if_splits)

lemma PostgresConfig_validate_Inr:
  "PostgresConfig_validate p = Inr u \<longleftrightarrow>
     TrimSpace (pc_Host p) \<noteq> [] \<and> 1 \<le> pc_Port p \<and> pc_Port p \<le> 65535 \<and> TrimSpace (pc_User p) \<noteq> [] \<and>
     pc_Password p \<noteq> [] \<and> TrimSpace (pc_Database p) \<noteq> [] \<and>
     pc_SSLMode p \<in> {''disable'', ''require'', ''verify-ca'', ''verify-full''} \<and>
     1 \<le> pc_MaxConns p \<and> 0 \<le> pc_MinConns p \<and> pc_MinConns p \<le> pc_MaxConns p \<and>
     0 \<le> pc_MaxConnLifetime p \<and> 0 \<le> pc_MaxConnIdleTime p \<and> 0 < pc_HealthCheckPeriod p"
  by (simp add: PostgresConfig_validate_def oneOf_def) linarith

lemma RedisConfig_validate_Inr:
  "RedisConfig_validate r = Inr u \<longleftrightarrow>
     TrimSpace (rcfg_Host r) \<noteq> [] \<and> 1 \<le> rcfg_Port r \<and> rcfg_Port r \<le> 65535 \<and> 0 \<le> rcfg_DB r \<and>
     1 \<le> rcfg_PoolSize r \<and> 0 \<le> rcfg_MinIdleConns r \<and> rcfg_MinIdleConns r \<le> rcfg_PoolSize r \<and>
     0 < rcfg_DialTimeout r \<and> 0 < rcfg_ReadTimeout r \<and> 0 < rcfg_WriteTimeout r"
  by (simp add: RedisConfig_validate_def) linarith

lemma Config_validate_Inr:
  "Config_validate c = Inr u \<longleftrightarrow>
     TrimSpace (AppName c) \<noteq> [] \<and> Env c \<in> {''local'', ''development'', ''testing'', ''staging'', ''production''} \<and>
     LogLevel c \<in> {''debug'', ''info'', ''warn'', ''error''} \<and> LogFormat c \<in> {''text'', ''json''} \<and>
     TrimSpace (APIHTTPAddr c) \<noteq> [] \<and> APIAllowedOrigins c \<noteq> [] \<and> TrimSpace (GameENetAddr c) \<noteq> [] \<and>
     TrimSpace (GameHTTPAddr c) \<noteq> [] \<and> 0 < ShutdownTimeout c \<and> 0 < AuthRateLimitWindow c \<and>
     1 \<le> AuthRateLimitBurst c \<and> PostgresConfig_validate (conf_Postgres c) = Inr () \<and>
     RedisConfig_validate (conf_Redis c) = Inr ()"
  by (simp add: Config_validate_def oneOf_def) linarith

lemma parseValues_Inr:
  assumes "parseValues src = Inr v"
  shows "int32Env src ''POSTGRES_MAX_CONNS'' 10 = Inr (pv_postgresMaxConns v)"
    and "int32Env src ''POSTGRES_MIN_CONNS'' 1 = Inr (pv_postgresMinConns v)"
  using assms by (auto simp: parseValues_def Let_def bindE_eq_Inr)

lemma LoadWithSource_Inr:
  assumes "LoadWithSource src = Inr cfg"
  obtains v where "parseValues src = Inr v" and "Config_validate (config_of src v) = Inr ()"
    and "cfg = with_urls (config_of src v)"
  using assms by (auto simp: LoadWithSource_def bindE_eq_Inr split: if_splits)

section \<open>Lemmas: escaping\<close>

definition hex_val :: "char \<Rightarrow> nat" where
  "hex_val c = (if is_digit c then digit_val c else of_char c - 55)"

text \<open>The decoder that a reader of the URL applies.\<close>

fun url_unescape :: "string \<Rightarrow> string" where
  "url_unescape [] = []"
| "url_unescape (c # s) =
     (if c = CHR ''%'' then
        (case s of a # b # t \<Rightarrow> char_of (16 * hex_val a + hex_val b) # url_unescape t | _ \<Rightarrow> c # url_unescape s)
      else c # url_unescape s)"

lemma hex_digit_val: "d < 16 \<Longrightarrow> hex_val (hex_digit d) = d"
proof -
  assume "d < 16"
  then have "d \<in> set [0 ..< 16]" by simp
  moreover have "list_all (\<lambda>d. hex_val (hex_digit d) = d) [0 ..< 16]" by code_simp
  ultimately show ?thesis by (simp add: list_all_iff)
qed

lemma unescape_percent: "url_unescape (percent c @ s) = c # url_unescape s"
proof -
  have "(of_char c :: nat) div 16 < 16" using nat_of_char_less_256 [of c] by linarith
  then show ?thesis by (simp add: percent_def hex_digit_val)
qed

lemma unescape_escape:
  assumes "CHR ''%'' \<notin> set safe"
  shows "url_unescape (url_escape safe s) = s"
proof (induction s)
  case (Cons c s)
  have "\<not> unreserved CHR ''%''" by code_simp
  with assms have "c \<noteq> CHR ''%''" if "unreserved c \<or> c \<in> set safe" using that by auto
  with Cons show ?case by (auto simp: url_escape_def unescape_percent)
qed (simp add: url_escape_def)

lemma url_escape_inject: "CHR ''%'' \<notin> set safe \<Longrightarrow> url_escape safe s = url_escape safe t \<longleftrightarrow> s = t"
  by (metis unescape_escape)

text \<open>An escaped text has only safe bytes, hexadecimal digits and percent signs.\<close>

lemma hex_digit_unreserved: "d < 16 \<Longrightarrow> unreserved (hex_digit d)"
proof -
  assume "d < 16"
  then have "d \<in> set [0 ..< 16]" by simp
  moreover have "list_all (\<lambda>d. unreserved (hex_digit d)) [0 ..< 16]" by code_simp
  ultimately show ?thesis by (simp add: list_all_iff)
qed

lemma percent_set: "x \<in> set (percent c) \<Longrightarrow> x = CHR ''%'' \<or> unreserved x"
proof -
  have "(of_char c :: nat) div 16 < 16" using nat_of_char_less_256 [of c] by linarith
  then show "x \<in> set (percent c) \<Longrightarrow> x = CHR ''%'' \<or> unreserved x"
    by (auto simp: percent_def hex_digit_unreserved)
qed

lemma url_escape_set: "x \<in> set (url_escape safe s) \<Longrightarrow> x = CHR ''%'' \<or> unreserved x \<or> x \<in> set safe"
  using percent_set by (auto simp: url_escape_def split: if_splits)

lemma url_escape_avoids:
  assumes "x \<noteq> CHR ''%''" and "\<not> unreserved x" and "x \<notin> set safe"
  shows "x \<notin> set (url_escape safe s)"
  using assms url_escape_set by blast

lemma split_at_sep:
  assumes "x \<notin> set a" and "x \<notin> set b" and "a @ x # r = b @ x # t"
  shows "a = b \<and> r = t"
  using assms by (induction a arbitrary: b) (auto simp: Cons_eq_append_conv)

text \<open>The escaped parts do not contain the separator that ends them.\<close>

lemma separators_avoided:
  "CHR '':'' \<notin> set (escape_userinfo s)" "CHR ''@'' \<notin> set (escape_userinfo s)"
  "CHR ''/'' \<notin> set (escape_host s)" "CHR ''?'' \<notin> set (escape_path s)"
  unfolding escape_userinfo_def escape_host_def escape_path_def
  by (rule url_escape_avoids; code_simp)+

lemma escape_inject:
  "escape_userinfo s = escape_userinfo t \<longleftrightarrow> s = t" "escape_host s = escape_host t \<longleftrightarrow> s = t"
  "escape_path s = escape_path t \<longleftrightarrow> s = t"
  unfolding escape_userinfo_def escape_host_def escape_path_def
  by (rule url_escape_inject; simp)+

lemma escape_path_slash: "escape_path (CHR ''/'' # s) = CHR ''/'' # escape_path s"
proof -
  have "\<not> unreserved CHR ''/''" by code_simp
  then show ?thesis by (simp add: escape_path_def url_escape_def)
qed

lemma digits_no_sep: "list_all is_digit s \<Longrightarrow> CHR '':'' \<notin> set s"
  by (auto simp: list_all_iff is_digit_def)

lemma Itoa_no_colon: "0 \<le> n \<Longrightarrow> CHR '':'' \<notin> set (Itoa n)"
  using digits_no_sep [OF nat_to_dec_digits] by (simp add: Itoa_def)

lemma Itoa_inject:
  assumes "0 \<le> m" "m < 2 ^ 63" "0 \<le> n" "n < 2 ^ 63"
  shows "Itoa m = Itoa n \<longleftrightarrow> m = n"
  using Atoi_Itoa [OF assms(1,2)] Atoi_Itoa [OF assms(3,4)] by (metis option.inject)

lemma last_colon_inject:
  assumes "CHR '':'' \<notin> set p" and "CHR '':'' \<notin> set q" and "a @ CHR '':'' # p = b @ CHR '':'' # q"
  shows "a = b \<and> p = q"
  using split_at_sep [of "CHR '':''" "rev p" "rev q" "rev a" "rev b"] assms(1,2)
    arg_cong [OF assms(3), of rev] by simp

lemma JoinHostPort_inject:
  assumes "CHR '':'' \<notin> set p" and "CHR '':'' \<notin> set q" and "JoinHostPort h p = JoinHostPort g q"
  shows "h = g \<and> p = q"
proof -
  define b where "b h = (if CHR '':'' \<in> set h then CHR ''['' # h @ '']'' else h)" for h
  have "JoinHostPort h p = b h @ CHR '':'' # p" for h p by (simp add: JoinHostPort_def b_def)
  with assms have e: "b h = b g" "p = q" using last_colon_inject [of p q "b h" "b g"] by simp_all
  have "CHR '':'' \<in> set (b h) \<longleftrightarrow> CHR '':'' \<in> set h" for h by (simp add: b_def)
  with e(1) have "CHR '':'' \<in> set h \<longleftrightarrow> CHR '':'' \<in> set g" by metis
  with e show ?thesis by (auto simp: b_def split: if_splits)
qed

lemma unreserved_not_space: "\<not> unreserved CHR '' ''"
  by code_simp

lemma escape_query_plain: "list_all unreserved s \<Longrightarrow> escape_query s = s"
  by (induction s) (simp_all add: escape_query_def)

section \<open>Properties\<close>


text \<open>
  The PostgreSQL URL means what was configured: two valid configurations with the
  same URL agree on user, password, host, port, database and SSL mode, so no value can
  smuggle a separator into the URL.
\<close>

theorem postgres_url_injective:
  assumes "PostgresConfig_validate p = Inr ()" and "PostgresConfig_validate q = Inr ()"
    and "postgresURLFromConfig p = postgresURLFromConfig q"
  shows "pc_User p = pc_User q \<and> pc_Password p = pc_Password q \<and> pc_Host p = pc_Host q \<and>
    pc_Port p = pc_Port q \<and> pc_Database p = pc_Database q \<and> pc_SSLMode p = pc_SSLMode q"
proof -
  let ?u = "\<lambda>p. escape_userinfo (pc_User p)" and ?w = "\<lambda>p. escape_userinfo (pc_Password p)"
    and ?h = "\<lambda>p. escape_host (JoinHostPort (pc_Host p) (Itoa (pc_Port p)))" and ?d = "\<lambda>p. escape_path (pc_Database p)"
    and ?m = "\<lambda>p. escape_query (pc_SSLMode p)"
  have "?u p @ CHR '':'' # ?w p @ CHR ''@'' # ?h p @ CHR ''/'' # ?d p @ CHR ''?'' # ''sslmode='' @ ?m p =
      ?u q @ CHR '':'' # ?w q @ CHR ''@'' # ?h q @ CHR ''/'' # ?d q @ CHR ''?'' # ''sslmode='' @ ?m q"
    using assms(3) by (simp add: postgresURLFromConfig_def escape_path_slash)
  from split_at_sep [OF separators_avoided(1,1) this] have u: "?u p = ?u q"
    and r1: "?w p @ CHR ''@'' # ?h p @ CHR ''/'' # ?d p @ CHR ''?'' # ''sslmode='' @ ?m p =
      ?w q @ CHR ''@'' # ?h q @ CHR ''/'' # ?d q @ CHR ''?'' # ''sslmode='' @ ?m q" by blast+
  from split_at_sep [OF separators_avoided(2,2) r1] have w: "?w p = ?w q"
    and r2: "?h p @ CHR ''/'' # ?d p @ CHR ''?'' # ''sslmode='' @ ?m p = ?h q @ CHR ''/'' # ?d q @ CHR ''?'' # ''sslmode='' @ ?m q"
    by blast+
  from split_at_sep [OF separators_avoided(3,3) r2] have h: "?h p = ?h q"
    and r3: "?d p @ CHR ''?'' # ''sslmode='' @ ?m p = ?d q @ CHR ''?'' # ''sslmode='' @ ?m q" by blast+
  from split_at_sep [OF separators_avoided(4,4) r3] have d: "?d p = ?d q" and m: "?m p = ?m q" by simp_all
  have ports: "0 \<le> pc_Port p" "pc_Port p < 2 ^ 63" "0 \<le> pc_Port q" "pc_Port q < 2 ^ 63"
    using assms(1,2) by (simp_all add: PostgresConfig_validate_Inr)
  from h have "JoinHostPort (pc_Host p) (Itoa (pc_Port p)) = JoinHostPort (pc_Host q) (Itoa (pc_Port q))"
    by (simp add: escape_inject)
  from JoinHostPort_inject [OF Itoa_no_colon [OF ports(1)] Itoa_no_colon [OF ports(3)] this] Itoa_inject [OF ports]
  have hp: "pc_Host p = pc_Host q" "pc_Port p = pc_Port q" by simp_all
  have "list_all (list_all unreserved) [''disable'', ''require'', ''verify-ca'', ''verify-full'']" by code_simp
  then have "list_all unreserved (pc_SSLMode p)" "list_all unreserved (pc_SSLMode q)"
    using assms(1,2) by (auto simp: PostgresConfig_validate_Inr)
  with m have "pc_SSLMode p = pc_SSLMode q" by (simp add: escape_query_plain)
  with u w hp d show ?thesis by (simp add: escape_inject)
qed

section \<open>Witnesses\<close>

definition w_env :: EnvSource where
  "w_env = map_of [(''POSTGRES_USER'', ''rpg''), (''POSTGRES_PASSWORD'', ''p@ss:word''), (''POSTGRES_DB'', ''rpg''),
     (''SHUTDOWN_TIMEOUT'', ''1m30s'')]"

definition w_config :: Config where
  "w_config = (case LoadWithSource w_env of Inr c \<Rightarrow> c | Inl _ \<Rightarrow> config_of w_env undefined)"

lemma w_config_loaded:
  "LoadWithSource w_env = Inr w_config" "ShutdownTimeout w_config = 90 * Second" "AppName w_config = ''rpg-backend''" "Env w_config = ''local''"
proof -
  have "map_sum (\<lambda>_. ()) (\<lambda>c. (ShutdownTimeout c, AppName c, Env c)) (LoadWithSource w_env) = Inr (90 * Second, ''rpg-backend'', ''local'')"
    by code_simp
  then show "LoadWithSource w_env = Inr w_config" "ShutdownTimeout w_config = 90 * Second" "AppName w_config = ''rpg-backend''" "Env w_config = ''local''"
    by (auto simp: w_config_def split: sum.splits)
qed


definition w_pg :: PostgresConfig where
  "w_pg = \<lparr>pc_URL = [], pc_Host = ''::1'', pc_Port = 5432, pc_User = ''rpg'', pc_Password = ''p@ss:word'',
     pc_Database = ''rpg'', pc_SSLMode = ''disable'', pc_MaxConns = 10, pc_MinConns = 1, pc_MaxConnLifetime = Hour,
     pc_MaxConnIdleTime = Minute, pc_HealthCheckPeriod = Minute\<rparr>"

theorem postgres_url_injective_witness:
  "postgresURLFromConfig w_pg = ''postgres://rpg:p%40ss%3Aword@[::1]:5432/rpg?sslmode=disable'' \<and>
   pc_Password (w_pg\<lparr>pc_MaxConns := 20\<rparr>) = ''p@ss:word''"
proof -
  have v: "PostgresConfig_validate w_pg = Inr ()" "PostgresConfig_validate (w_pg\<lparr>pc_MaxConns := 20\<rparr>) = Inr ()"
    by code_simp+
  have u: "postgresURLFromConfig w_pg = postgresURLFromConfig (w_pg\<lparr>pc_MaxConns := 20\<rparr>)"
    by (simp add: postgresURLFromConfig_def)
  have w: "pc_Password w_pg = ''p@ss:word''" by (simp add: w_pg_def)
  have "postgresURLFromConfig w_pg = ''postgres://rpg:p%40ss%3Aword@[::1]:5432/rpg?sslmode=disable''"
    by code_simp
  with postgres_url_injective [OF v u] w show ?thesis by simp
qed

end
