(* ===== verification/App_Runtime.thy ===== *)
theory App_Runtime
  imports Config Postgres
begin

text \<open>
  Startup and shutdown of the processes: the Redis client and the PostgreSQL pool
  (\<open>internal/cache/redis.go\<close>, \<open>internal/db/postgres.go\<close>) and the runtime that
  owns them (\<open>internal/app/runtime.go\<close>). The drivers are parameters: what they answer
  is an argument, and what they hold is written to a log of opened and closed resources.
\<close>

section \<open>Definitions: resources\<close>

datatype resource = Ctx | Pool | RedisConn

datatype res_event = Open resource | Close resource

type_synonym res_log = "res_event list"

section \<open>Definitions: Redis client\<close>

record RedisOptions =
  ro_Addr :: string
  ro_Password :: string
  ro_DB :: int
  ro_DialTimeout :: duration
  ro_ReadTimeout :: duration
  ro_WriteTimeout :: duration
  ro_PoolSize :: int
  ro_MinIdleConns :: int

text \<open>A client is nil or answers a ping.\<close>

definition cache_Health :: "(unit result) option \<Rightarrow> unit result" where
  "cache_Health ping =
     (case ping of None \<Rightarrow> Inl (Sentinel ErrNilClient)
      | Some r \<Rightarrow> mapErr (\<lambda>e. Wrap ''redis ping'' [e]) r)"

definition redisOptions :: "RedisConfig \<Rightarrow> RedisOptions" where
  "redisOptions cfg =
     \<lparr>ro_Addr = rcfg_Addr cfg, ro_Password = rcfg_Password cfg, ro_DB = rcfg_DB cfg,
      ro_DialTimeout = rcfg_DialTimeout cfg, ro_ReadTimeout = rcfg_ReadTimeout cfg,
      ro_WriteTimeout = rcfg_WriteTimeout cfg, ro_PoolSize = rcfg_PoolSize cfg, ro_MinIdleConns = rcfg_MinIdleConns cfg\<rparr>"

definition NewClient :: "(RedisOptions \<Rightarrow> unit result) \<Rightarrow> RedisConfig \<Rightarrow> res_log \<Rightarrow> RedisOptions result \<times> res_log" where
  "NewClient ping cfg log =
     (let client = redisOptions cfg; log1 = log @ [Open RedisConn]
      in case cache_Health (Some (ping client)) of
           Inl e \<Rightarrow> (Inl e, log1 @ [Close RedisConn])
         | Inr _ \<Rightarrow> (Inr client, log1))"

definition cache_Close :: "(unit result) option \<Rightarrow> res_log \<Rightarrow> unit result \<times> res_log" where
  "cache_Close client log =
     (case client of None \<Rightarrow> (Inr (), log)
      | Some r \<Rightarrow> (mapErr (\<lambda>e. Wrap ''close redis'' [e]) r, log @ [Close RedisConn]))"

record RedisStats =
  PoolHits :: int
  PoolMisses :: int
  PoolTimeouts :: int
  rs_TotalConns :: int
  rs_IdleConns :: int
  StaleConns :: int

text \<open>The driver's statistics, in the order hits, misses, timeouts, total, idle and stale connections.\<close>

definition cache_Snapshot :: "((int \<times> int \<times> int \<times> int \<times> int \<times> int) option) option \<Rightarrow> RedisStats result" where
  "cache_Snapshot client =
     (case client of None \<Rightarrow> Inl (Sentinel ErrNilClient)
      | Some None \<Rightarrow> Inl (Sentinel ErrNilPoolStats)
      | Some (Some (hits, misses, timeouts, conns, idle, stale)) \<Rightarrow>
          Inr \<lparr>PoolHits = hits, PoolMisses = misses, PoolTimeouts = timeouts, rs_TotalConns = conns,
               rs_IdleConns = idle, StaleConns = stale\<rparr>)"

section \<open>Definitions: PostgreSQL pool\<close>

record poolConfig =
  po_ConnString :: string
  po_MaxConns :: int
  po_MinConns :: int
  po_MaxConnLifetime :: duration
  po_MaxConnIdleTime :: duration
  po_HealthCheckPeriod :: duration

definition applyPoolConfig :: "poolConfig \<Rightarrow> PostgresConfig \<Rightarrow> poolConfig" where
  "applyPoolConfig dst src = dst\<lparr>po_MaxConns := pc_MaxConns src, po_MinConns := pc_MinConns src,
     po_MaxConnLifetime := pc_MaxConnLifetime src, po_MaxConnIdleTime := pc_MaxConnIdleTime src,
     po_HealthCheckPeriod := pc_HealthCheckPeriod src\<rparr>"

definition newPool ::
  "(string \<Rightarrow> poolConfig result) \<Rightarrow> (poolConfig \<Rightarrow> unit result) \<Rightarrow> (poolConfig \<Rightarrow> unit result) \<Rightarrow> PostgresConfig
     \<Rightarrow> res_log \<Rightarrow> poolConfig result \<times> res_log" where
  "newPool parse factory ping cfg log =
     bindP (mapErr (\<lambda>e. Wrap ''parse postgres config'' [e]) (parse (pc_URL cfg))) log (\<lambda>parsed.
     let poolCfg = applyPoolConfig parsed cfg in
     bindP (mapErr (\<lambda>e. Wrap ''create postgres pool'' [e]) (factory poolCfg)) log (\<lambda>_.
     let log1 = log @ [Open Pool] in
     case db_Health (Some ping) poolCfg of
       Inl e \<Rightarrow> (Inl e, log1 @ [Close Pool])
     | Inr _ \<Rightarrow> (Inr poolCfg, log1)))"

text \<open>\<open>db.Close\<close> on a pool that may be nil.\<close>

definition pool_Close :: "bool \<Rightarrow> res_log \<Rightarrow> res_log" where
  "pool_Close present log = (if present then log @ [Close Pool] else log)"

record PoolStats =
  AcquireCount :: int
  AcquireDuration :: duration
  AcquiredConns :: int
  CanceledAcquireCount :: int
  ConstructingConns :: int
  EmptyAcquireCount :: int
  IdleConns :: int
  ps_MaxConns :: int
  TotalConns :: int

text \<open>\<open>PoolStatsProvider\<close>: the methods of the driver's statistics by name.\<close>

definition SnapshotFromStats :: "(string \<Rightarrow> int) \<Rightarrow> PoolStats" where
  "SnapshotFromStats st =
     \<lparr>AcquireCount = st ''AcquireCount'', AcquireDuration = st ''AcquireDuration'',
      AcquiredConns = st ''AcquiredConns'', CanceledAcquireCount = st ''CanceledAcquireCount'',
      ConstructingConns = st ''ConstructingConns'', EmptyAcquireCount = st ''EmptyAcquireCount'',
      IdleConns = st ''IdleConns'', ps_MaxConns = st ''MaxConns'', TotalConns = st ''TotalConns''\<rparr>"

definition db_Snapshot :: "(string \<Rightarrow> int) option \<Rightarrow> PoolStats result" where
  "db_Snapshot pool =
     (case pool of None \<Rightarrow> Inl (Sentinel ErrNilPool) | Some st \<Rightarrow> Inr (SnapshotFromStats st))"

section \<open>Definitions: runtime\<close>

text \<open>Dependencies that are not injected are replaced by the production ones.\<close>

record RuntimeDeps =
  rd_LoadConfig :: "(Config result) option"
  rd_NewPostgres :: "(PostgresConfig \<Rightarrow> res_log \<Rightarrow> poolConfig result \<times> res_log) option"
  rd_NewRedis :: "(RedisConfig \<Rightarrow> res_log \<Rightarrow> RedisOptions result \<times> res_log) option"

record Runtime =
  rt_Config :: Config
  rt_Postgres :: "poolConfig option"
  rt_Redis :: "RedisOptions option"
  rt_has_stop :: bool

definition with_default :: "'a option \<Rightarrow> 'a \<Rightarrow> 'a option" where
  "with_default dep def = (case dep of None \<Rightarrow> Some def | Some x \<Rightarrow> Some x)"

definition withDefaults ::
  "Config result \<Rightarrow> (PostgresConfig \<Rightarrow> res_log \<Rightarrow> poolConfig result \<times> res_log) \<Rightarrow>
   (RedisConfig \<Rightarrow> res_log \<Rightarrow> RedisOptions result \<times> res_log) \<Rightarrow> RuntimeDeps \<Rightarrow> RuntimeDeps" where
  "withDefaults load new_pool new_client deps =
     \<lparr>rd_LoadConfig = with_default (rd_LoadConfig deps) load,
      rd_NewPostgres = with_default (rd_NewPostgres deps) new_pool,
      rd_NewRedis = with_default (rd_NewRedis deps) new_client\<rparr>"

definition NewRuntimeWithDeps ::
  "Config result \<Rightarrow> (PostgresConfig \<Rightarrow> res_log \<Rightarrow> poolConfig result \<times> res_log) \<Rightarrow>
   (RedisConfig \<Rightarrow> res_log \<Rightarrow> RedisOptions result \<times> res_log) \<Rightarrow> RuntimeDeps \<Rightarrow> res_log \<Rightarrow> Runtime result \<times> res_log" where
  "NewRuntimeWithDeps load new_pool new_client deps log =
     (let deps = withDefaults load new_pool new_client deps in
      bindP (mapErr (\<lambda>e. Wrap ''load config'' [e]) (the (rd_LoadConfig deps))) log (\<lambda>cfg.
      let log1 = log @ [Open Ctx] in
      case the (rd_NewPostgres deps) (conf_Postgres cfg) log1 of
        (Inl e, log2) \<Rightarrow> (Inl (Wrap ''connect postgres'' [e]), log2 @ [Close Ctx])
      | (Inr pool, log2) \<Rightarrow>
          (case the (rd_NewRedis deps) (conf_Redis cfg) log2 of
             (Inl e, log3) \<Rightarrow> (Inl (Wrap ''connect redis'' [e]), pool_Close True log3 @ [Close Ctx])
           | (Inr client, log3) \<Rightarrow>
               (Inr \<lparr>rt_Config = cfg, rt_Postgres = Some pool, rt_Redis = Some client, rt_has_stop = True\<rparr>, log3))))"

text \<open>\<open>Runtime.Close\<close>: Redis, PostgreSQL, context; a failed close is logged. \<open>close_redis\<close> is the driver's answer.\<close>

definition Runtime_Close :: "unit result \<Rightarrow> Runtime option \<Rightarrow> res_log \<Rightarrow> res_log" where
  "Runtime_Close close_redis r log =
     (case r of None \<Rightarrow> log
      | Some rt \<Rightarrow>
          let log1 = (if rt_Redis rt \<noteq> None then snd (cache_Close (Some close_redis) log) else log);
              log2 = pool_Close (rt_Postgres rt \<noteq> None) log1
          in if rt_has_stop rt then log2 @ [Close Ctx] else log2)"

text \<open>
  \<open>RunAPI\<close> and \<open>RunGame\<close>: the runtime is closed by a deferred call whatever the
  service returns.
\<close>

definition run_service ::
  "Runtime result \<times> res_log \<Rightarrow> (Runtime \<Rightarrow> unit result) \<Rightarrow> unit result \<Rightarrow> unit result \<times> res_log" where
  "run_service start serve close_redis =
     (case start of
        (Inl e, log) \<Rightarrow> (Inl (Wrap ''initialize runtime'' [e]), log)
      | (Inr rt, log) \<Rightarrow> (serve rt, Runtime_Close close_redis (Some rt) log))"

section \<open>Lemmas\<close>

text \<open>The resources still open after a log, last opened first; None when a close is out of order.\<close>

fun still_open :: "resource list \<Rightarrow> res_log \<Rightarrow> resource list option" where
  "still_open st [] = Some st"
| "still_open st (Open r # log) = still_open (r # st) log"
| "still_open (r # st) (Close q # log) = (if r = q then still_open st log else None)"
| "still_open [] (Close q # log) = None"

lemma still_open_append:
  "still_open st (a @ b) = (case still_open st a of None \<Rightarrow> None | Some st' \<Rightarrow> still_open st' b)"
  by (induction st a rule: still_open.induct) auto

text \<open>A factory that opens one resource when it succeeds and leaves nothing open when it fails.\<close>

definition opens :: "resource \<Rightarrow> ('c \<Rightarrow> res_log \<Rightarrow> 'a result \<times> res_log) \<Rightarrow> bool" where
  "opens r f = (\<forall>c log st. still_open [] log = Some st \<longrightarrow>
     still_open [] (snd (f c log)) = Some (if isl (fst (f c log)) then st else r # st))"

lemma opens_newPool: "opens Pool (newPool parse factory ping)"
  by (auto simp: opens_def newPool_def bindP_def mapErr_def Let_def db_Health_def still_open_append split: sum.splits)

lemma opens_NewClient: "opens RedisConn (NewClient ping)"
  by (auto simp: opens_def NewClient_def cache_Health_def mapErr_def Let_def still_open_append split: sum.splits)

lemma opensD:
  assumes "opens r f" and "still_open [] log = Some st" and "f c log = (x, log')"
  shows "still_open [] log' = Some (if isl x then st else r # st)"
  using assms unfolding opens_def by (metis fst_conv snd_conv)

text \<open>A runtime that came up carries the configuration that was loaded.\<close>

lemma runtime_config:
  assumes "fst (NewRuntimeWithDeps load new_pool new_client \<lparr>rd_LoadConfig = None, rd_NewPostgres = None, rd_NewRedis = None\<rparr> log) = Inr rt"
  shows "load = Inr (rt_Config rt)"
  using assms
  by (cases load) (auto simp: NewRuntimeWithDeps_def withDefaults_def with_default_def Let_def split: sum.splits prod.splits)

text \<open>
  No resource leaks: whatever the configuration, the pool and the client answer, a
  run of a service closes every resource it opened, in reverse order of opening, also
  when the startup fails half way.
\<close>

theorem run_service_closes:
  "still_open [] (snd (run_service
     (NewRuntimeWithDeps load (newPool parse factory ping) (NewClient cping)
        \<lparr>rd_LoadConfig = None, rd_NewPostgres = None, rd_NewRedis = None\<rparr> []) serve close_redis)) = Some []"
proof (cases load)
  case (Inl e)
  then show ?thesis by (simp add: NewRuntimeWithDeps_def withDefaults_def with_default_def run_service_def)
next
  case cfg: (Inr cfg)
  obtain x log2 where p: "newPool parse factory ping (conf_Postgres cfg) [Open Ctx] = (x, log2)" by force
  have o1: "still_open [] log2 = Some (if isl x then [Ctx] else [Pool, Ctx])"
    by (rule opensD [OF opens_newPool _ p]) simp
  obtain y log3 where c: "NewClient cping (conf_Redis cfg) log2 = (y, log3)" by force
  show ?thesis
  proof (cases x)
    case (Inl e)
    with cfg p o1 show ?thesis
      by (simp add: NewRuntimeWithDeps_def withDefaults_def with_default_def run_service_def still_open_append)
  next
    case pool: (Inr pool)
    have o2: "still_open [] log3 = Some (if isl y then [Pool, Ctx] else [RedisConn, Pool, Ctx])"
      by (rule opensD [OF opens_NewClient _ c]) (simp add: o1 pool)
    with cfg p c pool show ?thesis
      by (cases y) (simp_all add: NewRuntimeWithDeps_def withDefaults_def with_default_def run_service_def
          Runtime_Close_def cache_Close_def pool_Close_def Let_def still_open_append)
  qed
qed

end
