(* ===== verification/Game_App.thy ===== *)
theory Game_App
  imports Game_Backend App_Runtime
begin

text \<open>
  The game server as \<open>internal/app/game_deps.go\<close> and \<open>game.go\<close> wire it: Redis
  stores and PostgreSQL stores from one runtime, one configuration, one process. The
  properties are about the process that \<open>NewGameServer\<close> returns, on every documented
  Redis server and database.
\<close>

section \<open>Definitions\<close>

record ('s, 'd) gameStores =
  gst_characters :: "'d CharacterStore"
  gst_joinTokens :: "'s JoinTokenStore"
  gst_characterLocks :: "'s CharacterLockStore"
  gst_gameServers :: "'s GameServerStore"

definition newGameStores :: "'s redis option \<Rightarrow> 'd pg option \<Rightarrow> KeyBuilder \<Rightarrow> ('s, 'd) gameStores result" where
  "newGameStores redis pool keys =
     bindE (mapErr (\<lambda>e. Wrap ''create character lock store'' [e])
       (NewCharacterLockStore redis keys DefaultCharacterLockTTL)) (\<lambda>lockStore.
     bindE (mapErr (\<lambda>e. Wrap ''create game server store'' [e])
       (NewGameServerStore redis keys DefaultServerTTL)) (\<lambda>serverStore.
     Inr \<lparr>gst_characters = pool, gst_joinTokens = NewJoinTokenStore redis keys,
          gst_characterLocks = lockStore, gst_gameServers = serverStore\<rparr>))"

text \<open>The readiness check on the answers of the two drivers.\<close>

definition newGameReadyCheck :: "('d \<Rightarrow> unit result) option \<Rightarrow> ('s \<Rightarrow> unit result) option \<Rightarrow> 's \<times> 'd \<Rightarrow> unit result" where
  "newGameReadyCheck pg_ping redis_ping sd =
     bindE (mapErr (\<lambda>e. Wrap ''postgres'' [e]) (db_Health pg_ping (snd sd))) (\<lambda>_.
     mapErr (\<lambda>e. Wrap ''redis'' [e]) (cache_Health (map_option (\<lambda>p. p (fst sd)) redis_ping)))"

text \<open>\<open>uuid.NewString\<close> is the argument \<open>serverID\<close>; \<open>ready\<close> is the readiness check.\<close>

definition newGameServerConfig ::
  "joinTokenPayload json \<Rightarrow> gameServerPayload json \<Rightarrow> (('s \<times> 'd) \<Rightarrow> unit result) \<Rightarrow> Config \<Rightarrow> string
     \<Rightarrow> ('s, 'd) gameStores \<Rightarrow> ('s \<times> 'd) GameServerConfig" where
  "newGameServerConfig js jsv ready conf serverID stores =
     \<lparr>ENetAddr = GameENetAddr conf, HTTPAddr = GameHTTPAddr conf, cfg_ServerID = serverID,
      cfg_JoinTokens = Some (\<lambda>t. on_fst (ConsumeJoinToken js (Some (gst_joinTokens stores)) t)),
      cfg_CharacterLocks = Some (\<lambda>c ow ttl. on_fst (AcquireCharacterLock (Some (gst_characterLocks stores)) c ow ttl),
        \<lambda>c ow. on_fst (ReleaseCharacterLock (Some (gst_characterLocks stores)) c ow)),
      cfg_Characters = Some (\<lambda>c. on_snd (GetCharacterByID (gst_characters stores) c)),
      cfg_GameServers = Some (\<lambda>now srv. on_fst (RegisterGameServer jsv (Some (gst_gameServers stores)) now srv),
        \<lambda>i. on_fst (DeregisterGameServer (Some (gst_gameServers stores)) i)),
      ServerTTL = DefaultServerTTL, LockTTL = DefaultCharacterLockTTL, TickRate = 64, MoveSpeed = f64_0_05,
      ReadyCheck = Some ready\<rparr>"

definition newGameConfig ::
  "joinTokenPayload json \<Rightarrow> gameServerPayload json \<Rightarrow> (('s \<times> 'd) \<Rightarrow> unit result) \<Rightarrow> 's redis option \<Rightarrow> 'd pg option
     \<Rightarrow> Config \<Rightarrow> string \<Rightarrow> ('s \<times> 'd) GameServerConfig result" where
  "newGameConfig js jsv ready redis pool conf serverID =
     bindE (mapErr (\<lambda>e. Wrap ''create cache key builder'' [e]) (NewKeyBuilderFromConfig conf)) (\<lambda>keys.
     bindE (newGameStores redis pool keys) (\<lambda>stores.
     Inr (newGameServerConfig js jsv ready conf serverID stores)))"

text \<open>\<open>app.NewGameServer\<close> on a runtime that is present.\<close>

definition app_NewGameServer ::
  "(nat \<Rightarrow> nat \<Rightarrow> nat \<Rightarrow> unit result) \<Rightarrow> joinTokenPayload json \<Rightarrow> gameServerPayload json \<Rightarrow> (('s \<times> 'd) \<Rightarrow> unit result)
     \<Rightarrow> 's redis option \<Rightarrow> 'd pg option \<Rightarrow> Config \<Rightarrow> string \<Rightarrow> ('s \<times> 'd) GameServerProc result" where
  "app_NewGameServer new_host js jsv ready redis pool conf serverID =
     bindE (newGameConfig js jsv ready redis pool conf serverID) (\<lambda>cfg. NewGameServer new_host True cfg)"

section \<open>Lemmas: the wired process\<close>

lemma app_NewGameServer_Inr:
  assumes "app_NewGameServer new_host js jsv ready (Some rc) (Some pg) conf sid = Inr gs"
  obtains keys ls ts st where "NewKeyBuilderFromConfig conf = Inr keys"
    and "ls = \<lparr>cl_client = Some rc, cl_keys = keys, cl_lockTTL = DefaultCharacterLockTTL\<rparr>"
    and "ts = \<lparr>jts_client = Some rc, jts_keys = keys\<rparr>"
    and "st = \<lparr>gss_client = Some rc, gss_keys = keys, gss_serverTTL = DefaultServerTTL\<rparr>"
    and "joinHandler gs = game_handler js ts ls pg DefaultCharacterLockTTL sid"
    and "gsp_release gs = (\<lambda>c ow. on_fst (ReleaseCharacterLock (Some ls) c ow))"
    and "gsp_deregister gs = (\<lambda>i. on_fst (DeregisterGameServer (Some st) i))"
    and "gsp_register gs = (\<lambda>now srv. on_fst (RegisterGameServer jsv (Some st) now srv))"
    and "cfg_ServerID (gsp_cfg gs) = sid" and "sid \<noteq> []"
    and "ServerTTL (gsp_cfg gs) = DefaultServerTTL" and "ENetAddr (gsp_cfg gs) = GameENetAddr conf"
proof -
  from assms obtain keys stores where k: "NewKeyBuilderFromConfig conf = Inr keys"
    and st: "newGameStores (Some rc) (Some pg) keys = Inr stores"
    and gs: "NewGameServer new_host True (newGameServerConfig js jsv ready conf sid stores) = Inr gs"
    by (auto simp: app_NewGameServer_def newGameConfig_def bindE_eq_Inr)
  have stores: "stores = \<lparr>gst_characters = Some pg, gst_joinTokens = \<lparr>jts_client = Some rc, jts_keys = keys\<rparr>,
      gst_characterLocks = \<lparr>cl_client = Some rc, cl_keys = keys, cl_lockTTL = DefaultCharacterLockTTL\<rparr>,
      gst_gameServers = \<lparr>gss_client = Some rc, gss_keys = keys, gss_serverTTL = DefaultServerTTL\<rparr>\<rparr>"
    using st by (auto simp: newGameStores_def bindE_eq_Inr NewCharacterLockStore_def NewGameServerStore_def
        NewJoinTokenStore_def split: if_splits)
  from gs show ?thesis
    by (intro that [OF k refl refl refl])
       (auto simp: NewGameServer_def required_stores_def missing_def newGameServerConfig_def stores bindE_eq_Inr game_handler_def
          split: if_splits)
qed

lemma wired_stores:
  assumes "redis_server rc view" and "postgres_db pg users chars canon ci"
    and "ls = \<lparr>cl_client = Some rc, cl_keys = keys, cl_lockTTL = DefaultCharacterLockTTL\<rparr>"
    and "ts = \<lparr>jts_client = Some rc, jts_keys = keys\<rparr>"
  shows "game_stores rc view ls pg users chars canon ci ts DefaultCharacterLockTTL"
  using assms
  by (simp add: game_stores_def game_stores_axioms_def lock_store_def lock_store_axioms_def
      DefaultCharacterLockTTL_def Second_def)

text \<open>The handler of the wired process, as the backend that the lemmas of the handshake need.\<close>

lemma wired_handler:
  assumes "redis_server rc view" and "postgres_db pg users chars canon ci"
    and "app_NewGameServer new_host js jsv ready (Some rc) (Some pg) conf sid = Inr gs"
    and "NewKeyBuilderFromConfig conf = Inr keys"
  shows "canonical_backend (joinHandler gs) (holder_stores keys view) (wf_stores js canon keys view)"
    and "join_backend (joinHandler gs) (holder_stores keys view) (wf_base keys view)"
    and "jh_serverID (joinHandler gs) = sid" and "cfg_ServerID (gsp_cfg gs) = sid"
    and "jh_ReleaseCharacterLock (joinHandler gs) = gsp_release gs"
proof -
  obtain ls ts where ls: "ls = \<lparr>cl_client = Some rc, cl_keys = keys, cl_lockTTL = DefaultCharacterLockTTL\<rparr>"
    and ts: "ts = \<lparr>jts_client = Some rc, jts_keys = keys\<rparr>"
    and h: "joinHandler gs = game_handler js ts ls pg DefaultCharacterLockTTL sid"
    and rel: "gsp_release gs = (\<lambda>c ow. on_fst (ReleaseCharacterLock (Some ls) c ow))"
    and id: "cfg_ServerID (gsp_cfg gs) = sid"
    by (rule app_NewGameServer_Inr [OF assms(3)]) (use assms(4) in auto)
  note st = wired_stores [OF assms(1,2) ls ts]
  have k: "cl_keys ls = keys" by (simp add: ls)
  show "canonical_backend (joinHandler gs) (holder_stores keys view) (wf_stores js canon keys view)"
    using game_stores.stores_backend [OF st, of js sid] by (simp add: h k)
  show "join_backend (joinHandler gs) (holder_stores keys view) (wf_base keys view)"
    using game_stores.stores_base [OF st, of js sid] by (simp add: h k)
  show "jh_serverID (joinHandler gs) = sid" "jh_ReleaseCharacterLock (joinHandler gs) = gsp_release gs"
    by (simp_all add: h rel game_handler_def NewJoinHandler_def)
  show "cfg_ServerID (gsp_cfg gs) = sid" by (rule id)
qed

lemma deregister_keeps_locks:
  assumes "redis_server rc view" and "st = \<lparr>gss_client = Some rc, gss_keys = k, gss_serverTTL = ttl\<rparr>"
  shows "holder_stores k view (snd (on_fst (DeregisterGameServer (Some st) i) sd)) = holder_stores k view sd"
proof -
  obtain r s' where d: "DeregisterGameServer (Some st) i (fst sd) = (r, s')" by force
  have "gss_client st = Some rc" "gss_keys st = k" by (simp_all add: assms(2))
  with redis_server.deregister_view [OF assms(1) d] have
    "view s' = view (fst sd) \<or> (\<exists>key. key_Server k (TrimSpace i) = Inr key \<and> view s' = (view (fst sd))(key := None))"
    by auto
  moreover have "key_Server k (TrimSpace i) = Inr key \<Longrightarrow> lock_holder k (m(key := None)) = lock_holder k m" for key m
    unfolding key_Server_def by (rule lock_holder_other) auto
  ultimately show ?thesis using d by (auto simp: on_fst_def holder_stores_def)
qed

text \<open>The heartbeat of the wired process writes to the registry only.\<close>

lemma wired_heartbeat:
  assumes "redis_server rc view" and "app_NewGameServer new_host js jsv ready (Some rc) (Some pg) conf sid = Inr gs"
    and "NewKeyBuilderFromConfig conf = Inr keys" and "wf_stores js canon keys view s"
  shows "wf_stores js canon keys view (renewHeartbeat gs [now] s) \<and>
    holder_stores keys view (renewHeartbeat gs [now] s) = holder_stores keys view s"
proof -
  obtain st where st: "st = \<lparr>gss_client = Some rc, gss_keys = keys, gss_serverTTL = DefaultServerTTL\<rparr>"
    and reg: "gsp_register gs = (\<lambda>now srv. on_fst (RegisterGameServer jsv (Some st) now srv))"
    by (rule app_NewGameServer_Inr [OF assms(2)]) (use assms(3) in auto)
  obtain r t where c: "RegisterGameServer jsv (Some st) now (self_record gs now) (fst s) = (r, t)" by force
  have f: "gss_client st = Some rc" "gss_keys st = keys" "0 < gss_serverTTL st"
    by (simp_all add: st DefaultServerTTL_def Second_def)
  have w: "wf_keys keys (view (fst s))" using assms(4) by (simp add: wf_stores_def)
  have "keeps_to {''server'', ''servers''} keys (view (fst s)) (view t)"
    using redis_server.register_within [OF assms(1) c f(1,3)] w f(2) by simp
  moreover have "fst (renewHeartbeat gs [now] s) = t" using c by (simp add: reg on_fst_def)
  ultimately show ?thesis by (intro keeps_to_stores [OF _ _ _ assms(4), of \<open>{''server'', ''servers''}\<close>]) simp_all
qed

text \<open>At every point of a run of the wired process, heartbeats included, the game is consistent.\<close>

lemma wired_run:
  assumes "redis_server rc view" and "postgres_db pg users chars canon ci"
    and "app_NewGameServer new_host js jsv ready (Some rc) (Some pg) conf sid = Inr gs"
    and "NewKeyBuilderFromConfig conf = Inr keys" and "wf_stores js canon keys view s"
  shows "game_inv (holder_stores keys view) (joinHandler gs) (run_steps pb gs start steps (initial_game s))"
    and "wf_stores js canon keys view (g_store (run_steps pb gs start steps (initial_game s)))"
  using canonical_backend.game_inv_steps [OF wired_handler(1) [OF assms(1-4)] refl _ _ wired_heartbeat [OF assms(1,3,4)],
      of "\<lparr>l_game = initial_game s, lastTick = start, tickSinceBroadcast = 0\<rparr>" pb steps] assms(5)
  unfolding run_steps_def by (simp_all add: game_inv_initial) (simp_all add: initial_game_def)

section \<open>Properties\<close>



text \<open>
  C27. Shutdown: when Redis answers every release, a shutdown disconnects every session's
  peer and leaves no session's character locked by this server, whatever order the
  sessions are visited in; deregistering touches no lock.
\<close>

theorem shutdown_releases:
  assumes "redis_server rc view" and "postgres_db pg users chars canon ci"
    and "app_NewGameServer new_host js jsv ready (Some rc) (Some pg) conf sid = Inr gs"
    and "NewKeyBuilderFromConfig conf = Inr keys" and "wf_keys keys (view (fst (g_store g)))"
    and "list_all (\<lambda>r. \<not> isl r) (release_results gs (All (order (g_sessions g)) (g_sessions g)) (g_store g))"
    and "enumerates (order (g_sessions g)) (g_sessions g)"
    and "fmlookup (g_sessions g) p = Some se"
  shows "holder_stores keys view (g_store (shutdown gs order g)) (TrimSpace (sess_CharacterID se)) \<noteq> Some (TrimSpace sid) \<and>
    Disconnect (Peer se) \<in> set (g_out (shutdown gs order g))"
proof -
  note wired = wired_handler [OF assms(1-4)]
  obtain sv where sv: "sv = \<lparr>gss_client = Some rc, gss_keys = keys, gss_serverTTL = DefaultServerTTL\<rparr>"
    and der: "gsp_deregister gs = (\<lambda>i. on_fst (DeregisterGameServer (Some sv) i))"
    by (rule app_NewGameServer_Inr [OF assms(3)]) (use assms(4) in auto)
  have l: "character_locker (jh_AcquireCharacterLock (joinHandler gs)) (gsp_release gs) (holder_stores keys view) (wf_base keys view)"
    using wired(2) unfolding join_backend_def wired(5) by blast
  have w: "wf_base keys view (g_store g)" using assms(5) by (simp add: wf_base_def)
  have d: "holder_stores keys view (snd (gsp_deregister gs i s)) = holder_stores keys view s" for i s
    unfolding der by (rule deregister_keeps_locks [OF assms(1) sv])
  show ?thesis using shutdown_frees_all [where order = order, OF l w assms(6) d assms(7,8)] unfolding wired(4) .
qed

text \<open>
  C33. A second join by a peer that already plays does not clean up after the first: the
  entity of the first character stays in the world and its lock stays taken while no
  session plays it, also after the peer has disconnected.
\<close>

theorem rejoin_leaks_entity:
  assumes "redis_server rc view" and "postgres_db pg users chars canon ci"
    and "app_NewGameServer new_host js jsv ready (Some rc) (Some pg) conf sid = Inr gs"
    and "NewKeyBuilderFromConfig conf = Inr keys" and "wf_stores js canon keys view s"
    and "g = run_steps pb gs start steps (initial_game s)"
    and "fmlookup (g_sessions g) peer = Some se"
    and "g_sessions (HandleJoinRequest pb (joinHandler gs) peer data g) \<noteq> g_sessions g"
    and "g' = HandleDisconnect (joinHandler gs) peer (HandleJoinRequest pb (joinHandler gs) peer data g)"
  shows "GetEntity (g_world g') (EntityID se) \<noteq> None \<and>
    holder_stores keys view (g_store g') (sess_CharacterID se) = Some (TrimSpace sid) \<and>
    (\<forall>q sf. fmlookup (g_sessions g') q = Some sf \<longrightarrow> EntityID sf \<noteq> EntityID se)"
proof -
  note wired = wired_handler [OF assms(1-4)]
  note run = wired_run [OF assms(1-5), of pb start steps, folded assms(6)]
  from rejoin_leaks [OF wired(1) run assms(7-9)] show ?thesis unfolding wired(3) .
qed

text \<open>
  C34. Locks are named by the spelling in the token: when the database finds the
  character under another spelling of its ID, a successful join takes no lock on the
  character's own ID, and disconnecting does not give back the lock that was taken.
\<close>

theorem alias_lock_leaks:
  assumes "redis_server rc view" and "postgres_db pg users chars canon ci"
    and "app_NewGameServer new_host js jsv ready (Some rc) (Some pg) conf sid = Inr gs"
    and "NewKeyBuilderFromConfig conf = Inr keys" and "wf_keys keys (view (fst (g_store g)))"
    and "g' = HandleJoinRequest pb (joinHandler gs) peer data g" and "g_sessions g' \<noteq> g_sessions g"
    and "unmarshalJoinRequest pb data = Inr req" and "fmlookup (g_sessions g') peer = Some se"
    and "TrimSpace (jr_CharacterId req) \<noteq> TrimSpace (sess_CharacterID se)"
  shows "holder_stores keys view (g_store g') (TrimSpace (sess_CharacterID se)) =
      holder_stores keys view (g_store g) (TrimSpace (sess_CharacterID se)) \<and>
    holder_stores keys view (g_store (HandleDisconnect (joinHandler gs) peer g')) (TrimSpace (jr_CharacterId req)) =
      Some (TrimSpace sid)"
proof -
  note wired = wired_handler [OF assms(1-4)]
  have w: "wf_base keys view (g_store g)" using assms(5) by (simp add: wf_base_def)
  from alias_leaks [OF wired(2) w assms(7) [unfolded assms(6)] assms(8) assms(9) [unfolded assms(6)] assms(10)] show ?thesis
    unfolding assms(6) [symmetric] wired(3) .
qed

section \<open>Witnesses\<close>

text \<open>A game server on the in-memory stores.\<close>

definition w_conf :: Config where
  "w_conf = \<lparr>AppName = ''rpg'', Env = ''local'', LogLevel = ''info'', LogFormat = ''text'', APIHTTPAddr = '':8080'',
     APIAllowedOrigins = [''http://localhost''], GameENetAddr = '':7777'', GameHTTPAddr = '':8081'',
     ShutdownTimeout = Second, AuthRateLimitWindow = Second, AuthRateLimitBurst = 10, conf_Postgres = w_pg,
     conf_Redis = \<lparr>rcfg_Addr = [], rcfg_Host = ''localhost'', rcfg_Port = 6379, rcfg_Password = [], rcfg_DB = 0,
       rcfg_DialTimeout = Second, rcfg_ReadTimeout = Second, rcfg_WriteTimeout = Second, rcfg_PoolSize = 10,
       rcfg_MinIdleConns = 1\<rparr>\<rparr>"

abbreviation w_keys :: KeyBuilder where
  "w_keys \<equiv> \<lparr>kb_prefix = ''rpg:local''\<rparr>"

definition w_gs :: "(mem \<times> mem_db) GameServerProc" where
  "w_gs = projr (app_NewGameServer (\<lambda>_ _ _. Inr ()) mem_token_json mem_server_json (\<lambda>_. Inr ())
     (Some mem_redis) (Some mem_pg) w_conf ''s1'')"

lemma w_keys_conf: "NewKeyBuilderFromConfig w_conf = Inr w_keys"
  by code_simp

lemma w_host: "NewENetHost (\<lambda>_ _ _. Inr ()) '':7777'' = Inr \<lparr>eh_host = Some ()\<rparr>"
  by (simp add: NewENetHost_def splitHostPort_def has_prefix_def ParseUint_def dec_to_nat_def is_digit_def digit_val_def)

lemma w_gs_wired:
  "app_NewGameServer (\<lambda>_ _ _. Inr ()) mem_token_json mem_server_json (\<lambda>_. Inr ())
     (Some mem_redis) (Some mem_pg) w_conf ''s1'' = Inr w_gs"
  and w_gs_handler: "joinHandler w_gs = mem_handler"
  and w_gs_tick: "tickRate (simulation w_gs) = 64"
proof -
  let ?a = "app_NewGameServer (\<lambda>_ _ _. Inr ()) mem_token_json mem_server_json (\<lambda>_. Inr ())
     (Some mem_redis) (Some mem_pg) w_conf ''s1'' :: (mem \<times> mem_db) GameServerProc result"
  have addr: "GameENetAddr w_conf = '':7777''" "GameHTTPAddr w_conf = '':8081''" by (simp_all add: w_conf_def)
  have "\<exists>gs. ?a = Inr gs \<and> joinHandler gs = mem_handler \<and> tickRate (simulation gs) = 64"
    unfolding app_NewGameServer_def newGameConfig_def w_keys_conf newGameStores_def
    by (simp add: NewCharacterLockStore_def NewGameServerStore_def NewGameServer_def required_stores_def newGameServerConfig_def addr w_host
        DefaultCharacterLockTTL_def DefaultServerTTL_def Second_def NewSimulation_def mem_handler_def game_handler_def
        mem_lock_store_def mem_token_store_def NewJoinTokenStore_def)
  then obtain gs where gs: "?a = Inr gs" "joinHandler gs = mem_handler" "tickRate (simulation gs) = 64" by blast
  then have "w_gs = gs" by (simp add: w_gs_def)
  with gs show "?a = Inr w_gs" "joinHandler w_gs = mem_handler" "tickRate (simulation w_gs) = 64" by simp_all
qed

lemmas w_wired = mem_server.redis_server_axioms mem_database.postgres_db_axioms w_gs_wired w_keys_conf

lemma w_lock_keys: "cl_keys mem_lock_store = w_keys"
  by (simp add: mem_lock_store_def)

definition w_round :: "nat event \<Rightarrow> nat round" where
  "w_round ev = \<lparr>r_event = (\<lambda>_. ev), r_now = 0, r_now_ms = 0, r_sessions = (\<lambda>sm. []), r_entities = (\<lambda>m. [])\<rparr>"

text \<open>A run of one round that receives the join request of the peer 1.\<close>

abbreviation w_run :: "(nat, mem \<times> mem_db) game" where
  "w_run \<equiv> run_steps w_proto w_gs 0 [Round (w_round (EventReceive 1 0 (frame [''t1'', ''b1''])))]
     (initial_game (w_issue ''t2'' ''b2'' (w_issue ''t1'' ''b1'' mem_empty), w_mem_db))"

lemma w_run_join: "w_run = w_join ''t1'' ''b1'' w_game_2"
proof -
  have "frame [''t1'', ''b1''] \<noteq> []" by code_simp
  moreover have "0 < TickInterval (simulation w_gs)" by (simp add: TickInterval_def w_gs_tick go_div_def Second_def)
  ultimately show ?thesis
    by (simp add: run_steps_def loop_round_def Service_def tick_phase_def broadcast_phase_def w_round_def handleReceive_def
        channelReliable_def w_gs_handler w_join_def w_game_2_def w_game_def defaultBroadcastTickDivisor_def word_le_nat_alt)
qed

lemma w_wf_run: "wf_stores mem_token_json mem_canon w_keys mem_view
    (w_issue ''t2'' ''b2'' (w_issue ''t1'' ''b1'' mem_empty), w_mem_db)"
  using w_wf_2 unfolding w_lock_keys .

lemma w_run_sessions: "g_sessions w_run = fmupd 1 (w_session ''b1'') fmempty"
  unfolding w_run_join by code_simp

lemma w_run_session: "fmlookup (g_sessions w_run) 1 = Some (w_session ''b1'')"
  unfolding w_run_sessions by simp

lemma w_trim: "TrimSpace ''s1'' = ''s1''" "TrimSpace ''b1'' = ''b1''" "TrimSpace ''B1'' = ''B1''"
  by code_simp+

lemma w_session_fields [simp]:
  "sess_CharacterID (w_session c) = c" "EntityID (w_session c) = char_key c" "Peer (w_session c) = 1"
  by (simp_all add: w_session_def)



lemma w_join_wired: "w_join tok c g = HandleJoinRequest w_proto (joinHandler w_gs) 1 (frame [tok, c]) g"
  by (simp add: w_join_def w_gs_handler)

lemma w_wf_joined: "wf_keys w_keys (mem_view (fst (g_store w_run)))"
proof -
  have "w_wf (g_store w_game_2)" by (simp add: w_games w_wf_2)
  then have "w_wf (g_store (w_join ''t1'' ''b1'' w_game_2))"
    unfolding w_join_def
    by (intro conjunct2 [OF canonical_backend.game_inv_join [OF w_backend]])
       (simp_all add: w_game_2_def w_game_def game_inv_initial)
  then show ?thesis unfolding w_run_join by (simp add: wf_stores_def w_lock_keys)
qed

theorem shutdown_releases_witness:
  "holder_stores w_keys mem_view (g_store (shutdown w_gs (\<lambda>sm. [1]) w_run)) ''b1'' \<noteq> Some ''s1'' \<and>
   Disconnect 1 \<in> set (g_out (shutdown w_gs (\<lambda>sm. [1]) w_run))"
proof -
  let ?o = "\<lambda>sm :: nat SessionManager. [1 :: nat]"
  note rel = wired_handler(4,5) [OF w_wired]
  note sm = w_run_sessions
  then have e: "enumerates (?o (g_sessions w_run)) (g_sessions w_run)" by (simp add: enumerates_def)
  have all: "All (?o (g_sessions w_run)) (g_sessions w_run) = [w_session ''b1'']"
    unfolding sm by (simp add: All_def List.map_filter_def)
  have r: "\<not> isl (fst (jh_ReleaseCharacterLock mem_handler ''b1'' ''s1'' (g_store w_run)))"
    unfolding w_run_join by code_simp
  have "list_all (\<lambda>r. \<not> isl r) (release_results w_gs (All (?o (g_sessions w_run)) (g_sessions w_run)) (g_store w_run))"
    unfolding all using r by (simp add: rel(1) rel(2) [symmetric] w_gs_handler case_prod_beta)
  from shutdown_releases [where order = ?o, OF w_wired w_wf_joined this e w_run_session] show ?thesis by (simp add: w_trim)
qed

lemma w_rejoined: "fmlookup (g_sessions (w_join ''t2'' ''b2'' w_run)) 1 = Some (w_session ''b2'')"
  unfolding w_run_join by code_simp

theorem rejoin_leaks_entity_witness:
  "GetEntity (g_world (HandleDisconnect mem_handler 1 (w_join ''t2'' ''b2'' w_run))) (char_key ''b1'') \<noteq> None \<and>
   holder_stores w_keys mem_view (g_store (HandleDisconnect mem_handler 1 (w_join ''t2'' ''b2'' w_run))) ''b1'' = Some ''s1''"
proof -
  have "w_session ''b2'' \<noteq> w_session ''b1''" by (simp add: w_session_def)
  then have d: "g_sessions (w_join ''t2'' ''b2'' w_run) \<noteq> g_sessions w_run"
    using w_rejoined w_run_session by auto
  from rejoin_leaks_entity [OF w_wired w_wf_run refl w_run_session d [unfolded w_join_wired] refl]
  show ?thesis by (simp add: w_trim w_join_wired w_gs_handler)
qed

definition w_alias :: "(nat, mem \<times> mem_db) game" where
  "w_alias = w_game (w_issue ''t1'' ''B1'' mem_empty)"

lemma w_alias_joined: "fmlookup (g_sessions (w_join ''t1'' ''B1'' w_alias)) 1 = Some (w_session ''b1'')"
  by code_simp

lemma w_alias_wf: "wf_keys w_keys (mem_view (fst (g_store w_alias)))"
proof -
  let ?t = "w_token\<lparr>jt_Token := ''t1'', jt_CharacterID := ''B1''\<rparr>"
  have c: "CreateJoinToken mem_token_json (Some mem_token_store) 0 ?t mem_empty =
      (fst (CreateJoinToken mem_token_json (Some mem_token_store) 0 ?t mem_empty), w_issue ''t1'' ''B1'' mem_empty)"
    by (simp add: w_issue_def prod_eq_iff)
  have k: "jts_keys mem_token_store = w_keys" by (simp add: mem_token_store_def NewJoinTokenStore_def)
  have "wf_keys (jts_keys mem_token_store) (mem_view mem_empty)"
    using w_stores_empty by (simp add: wf_stores_def k w_lock_keys)
  from mem_tokens.tokens.wf_create [OF this c] show ?thesis
    by (simp add: w_alias_def w_game_def initial_game_def k)
qed

theorem alias_lock_leaks_witness:
  "fmlookup (g_sessions (w_join ''t1'' ''B1'' w_alias)) 1 = Some (w_session ''b1'') \<and>
   holder_stores w_keys mem_view (g_store (w_join ''t1'' ''B1'' w_alias)) ''b1'' = None \<and>
   holder_stores w_keys mem_view (g_store (HandleDisconnect mem_handler 1 (w_join ''t1'' ''B1'' w_alias))) ''B1'' = Some ''s1''"
proof -
  have d: "g_sessions (w_join ''t1'' ''B1'' w_alias) \<noteq> g_sessions w_alias"
    using w_alias_joined by (auto simp: w_alias_def w_game_def initial_game_def NewSessionManager_def)
  have u: "unmarshalJoinRequest w_proto (frame [''t1'', ''B1'']) = Inr \<lparr>jr_JoinToken = ''t1'', jr_CharacterId = ''B1''\<rparr>"
    by code_simp
  have "holder_stores w_keys mem_view (g_store w_alias) ''b1'' = None" by code_simp
  with alias_lock_leaks [OF w_wired w_alias_wf w_join_wired d u w_alias_joined] w_alias_joined show ?thesis
    by (simp add: w_trim w_gs_handler)
qed

end
