(* ===== verification/Rate_Limit.thy ===== *)
theory Rate_Limit
  imports Keyspace
begin

text \<open>
  The fixed-window rate limiter, \<open>internal/store/redis/rate_limit.go\<close>: a counter per
  client key and time bucket. The clock is an argument; integer division truncates, as
  Go's does.
\<close>

section \<open>Definitions\<close>

record 's RateLimiter =
  rl_client :: "'s redis option"
  rl_keys :: KeyBuilder
  rl_window :: duration
  rl_limit :: int

definition NewRateLimiter ::
  "'s redis option \<Rightarrow> KeyBuilder \<Rightarrow> duration \<Rightarrow> int \<Rightarrow> 's RateLimiter result" where
  "NewRateLimiter client keys window limit =
     (if client = None then Inl (Sentinel ErrUnavailable)
      else if window \<le> 0 then Inl (Wrap ''rate limit window must be > 0'' [Sentinel ErrInvalidArgument])
      else if limit \<le> 0 then Inl (Wrap ''rate limit burst must be > 0'' [Sentinel ErrInvalidArgument])
      else Inr \<lparr>rl_client = client, rl_keys = keys, rl_window = window, rl_limit = limit\<rparr>)"

text \<open>\<open>strings.ToLower\<close> beyond ASCII is the argument \<open>uni\<close>.\<close>

definition sanitizeRateLimitKey :: "(string \<Rightarrow> string) \<Rightarrow> string \<Rightarrow> string" where
  "sanitizeRateLimitKey uni key =
     (let key = TrimSpace (ToLower uni key);
          key = ReplaceAll key (CHR '':'') ''_'';
          key = ReplaceAll key (CHR '' '') ''_'';
          key = ReplaceAll key (CHR 0x09) ''_'';
          key = ReplaceAll key (CHR 0x0A) ''_'';
          key = ReplaceAll key (CHR 0x0D) ''_''
      in key)"

definition redisKey :: "'s RateLimiter \<Rightarrow> time \<Rightarrow> string \<Rightarrow> string result" where
  "redisKey l now key =
     (let bucket = go_div now (rl_window l) in
      mapErr (redisKeyError ''build rate limit key'')
        (RateLimit (rl_keys l) [''auth'', key, Itoa bucket]))"

definition Allow ::
  "(string \<Rightarrow> string) \<Rightarrow> 's RateLimiter option \<Rightarrow> time \<Rightarrow> string \<Rightarrow> 's \<Rightarrow> bool result \<times> 's" where
  "Allow uni limiter now key s =
     with_client limiter rl_client s (\<lambda>l rc.
       let k = sanitizeRateLimitKey uni key;
           k' = (if k = [] then ''unknown'' else k) in
       bindP (redisKey l now k') s (\<lambda>rkey.
       bindS (mapErrS (\<lambda>e. redisUnavailable ''increment rate limit'' (Some e)) (c_Incr rc rkey s)) (\<lambda>count s1.
       if count = 1 then
         bindS (mapErrS (\<lambda>e. redisUnavailable ''expire rate limit'' (Some e)) (c_Expire rc rkey (rl_window l) s1)) (\<lambda>_ s2.
         (Inr (count \<le> rl_limit l), s2))
       else (Inr (count \<le> rl_limit l), s1))))"

text \<open>The key of a client in the window of an instant.\<close>

definition limit_key :: "(string \<Rightarrow> string) \<Rightarrow> 's RateLimiter \<Rightarrow> time \<Rightarrow> string \<Rightarrow> string result" where
  "limit_key uni l now key =
     (let k = sanitizeRateLimitKey uni key in redisKey l now (if k = [] then ''unknown'' else k))"

text \<open>A run of calls for one client, each followed by some time.\<close>

fun allow_run ::
  "(string \<Rightarrow> string) \<Rightarrow> 's RateLimiter \<Rightarrow> (int \<Rightarrow> 's \<Rightarrow> 's) \<Rightarrow> string \<Rightarrow> (time \<times> int) list \<Rightarrow> 's \<Rightarrow> bool result list \<times> 's" where
  "allow_run uni l pass key [] s = ([], s)"
| "allow_run uni l pass key ((now, d) # calls) s =
     (case Allow uni (Some l) now key s of (r, s1) \<Rightarrow>
      case allow_run uni l pass key calls (pass d s1) of (rs, s2) \<Rightarrow> (r # rs, s2))"

section \<open>Client keys\<close>

definition unsafe :: "char \<Rightarrow> bool" where
  "unsafe c = (c \<in> {CHR '':'', CHR '' '', CHR 0x09, CHR 0x0A, CHR 0x0D})"

lemma ReplaceAll_one: "ReplaceAll s c [r] = map (\<lambda>x. if x = c then r else x) s"
  by (induction s) (auto simp: ReplaceAll_def)

lemma sanitize_map:
  "sanitizeRateLimitKey uni key = map (\<lambda>x. if unsafe x then CHR ''_'' else x) (TrimSpace (ToLower uni key))"
  by (simp add: sanitizeRateLimitKey_def Let_def ReplaceAll_one unsafe_def)

lemma has_prefix_map:
  assumes "has_prefix (map f s) p" and "\<And>x. f x \<in> set p \<Longrightarrow> f x = x"
  shows "has_prefix s p"
proof -
  from assms(1) have p: "map f (take (length p) s) = p"
    by (simp add: has_prefix_def take_map)
  then have "f x = x" if "x \<in> set (take (length p) s)" for x
    using assms(2) that by (metis in_set_conv_decomp list.map set_map image_eqI)
  then have "map f (take (length p) s) = take (length p) s" by (intro map_idI) blast
  with p show ?thesis by (simp add: has_prefix_def)
qed

lemma lead_space_map:
  assumes "lead_space encs s = 0" and "all_nonempty encs" and "list_all (\<lambda>p. CHR ''_'' \<notin> set p) encs"
  shows "lead_space encs (map (\<lambda>x. if unsafe x then CHR ''_'' else x) s) = 0"
proof -
  let ?f = "\<lambda>x. if unsafe x then CHR ''_'' else x"
  have "\<not> has_prefix (map ?f s) p" if p: "p \<in> set encs" for p
  proof
    assume h: "has_prefix (map ?f s) p"
    have "has_prefix s p"
      by (rule has_prefix_map [OF h]) (use assms(3) p in \<open>auto simp: list_all_iff split: if_splits\<close>)
    with assms(1,2) p show False by (auto simp: lead_space_0 list_ex_iff)
  qed
  then show ?thesis using assms(2) by (auto simp: lead_space_0 list_ex_iff)
qed

lemma sanitize_trimmed: "TrimSpace (sanitizeRateLimitKey uni key) = sanitizeRateLimitKey uni key"
proof -
  let ?f = "\<lambda>x. if unsafe x then CHR ''_'' else x"
  let ?t = "TrimSpace (ToLower uni key)"
  have u: "list_all (\<lambda>p. CHR ''_'' \<notin> set p) space_encodings" by (simp add: space_encodings_def)
  then have u': "list_all (\<lambda>p. CHR ''_'' \<notin> set p) (map rev space_encodings)" by (simp add: list_all_iff)
  have "lead_space space_encodings (map ?f ?t) = 0"
    by (rule lead_space_map [OF TrimSpace_lead(1) all_nonempty_space(1) u])
  moreover have "lead_space (map rev space_encodings) (rev (map ?f ?t)) = 0"
    using lead_space_map [OF TrimSpace_lead(2) all_nonempty_space(2) u'] by (simp add: rev_map)
  ultimately show ?thesis
    unfolding sanitize_map by (simp add: TrimSpace_def [of "map ?f ?t"] trim_left_id trim_right_id)
qed

lemma sanitize_seg_ok:
  assumes "sanitizeRateLimitKey uni key \<noteq> []"
  shows "seg_ok (sanitizeRateLimitKey uni key)"
proof -
  have "\<not> unsafe x" if "x \<in> set (sanitizeRateLimitKey uni key)" for x
    using that by (auto simp: sanitize_map unsafe_def split: if_splits)
  then show ?thesis
    using assms unfolding seg_ok_def sanitize_trimmed
    by (auto simp: ContainsAny_def keySeparator_def control_whitespace_def unsafe_def list_ex_iff)
qed

lemma digit_char_plain: "d < 10 \<Longrightarrow> plain_byte (digit_char d) \<and> digit_char d \<noteq> CHR 0x3A"
proof -
  assume "d < 10"
  then have "(of_char (digit_char d) :: nat) = 48 + d" by (simp add: digit_char_def of_char_of take_bit_eq_mod)
  then show ?thesis using \<open>d < 10\<close> by (auto simp: plain_byte_def)
qed

lemma nat_to_dec_plain: "list_all (\<lambda>c. plain_byte c \<and> c \<noteq> CHR 0x3A) (nat_to_dec n)"
proof (induction n rule: nat_to_dec.induct)
  case (1 n)
  then show ?case by (cases "n < 10") (simp_all add: nat_to_dec.simps [of n] digit_char_plain)
qed

lemma Itoa_seg_ok: "seg_ok (Itoa n)"
proof (rule seg_ok_plain)
  have "plain_byte (CHR ''-'')" by (simp add: plain_byte_def)
  then show "list_all (\<lambda>c. plain_byte c \<and> c \<noteq> CHR 0x3A) (Itoa n)" by (simp add: Itoa_def nat_to_dec_plain)
qed (simp add: Itoa_def)

lemma fixed_segs [simp]: "seg_ok ''auth''" "seg_ok ''unknown''" "seg_ok ''rate_limit''"
  by (rule seg_ok_plain; simp add: plain_byte_def)+

lemma limit_key_Inr:
  assumes "kb_prefix (rl_keys l) \<noteq> []"
  obtains rkey where "limit_key uni l now key = Inr rkey"
    and "build (rl_keys l) [''rate_limit'', ''auth'',
      (if sanitizeRateLimitKey uni key = [] then ''unknown'' else sanitizeRateLimitKey uni key),
      Itoa (go_div now (rl_window l))] = Inr rkey"
proof -
  let ?k = "if sanitizeRateLimitKey uni key = [] then ''unknown'' else sanitizeRateLimitKey uni key"
  have "seg_ok ?k" using sanitize_seg_ok by simp
  then have "build (rl_keys l) [''rate_limit'', ''auth'', ?k, Itoa (go_div now (rl_window l))] \<in> range Inr"
    using assms Itoa_seg_ok by (auto simp: build_Inr image_iff)
  then obtain rkey where "build (rl_keys l) [''rate_limit'', ''auth'', ?k, Itoa (go_div now (rl_window l))] = Inr rkey"
    by blast
  with that show ?thesis by (simp add: limit_key_def redisKey_def RateLimit_def Let_def)
qed

section \<open>Counting\<close>

text \<open>The number of calls the counter key records.\<close>

definition counted :: "kv \<Rightarrow> string \<Rightarrow> int \<Rightarrow> bool" where
  "counted m rkey n = ((m rkey = None \<and> n = 0) \<or> (\<exists>t. m rkey = Some (RStr (Itoa n), Some t) \<and> 0 < n))"

context redis_server
begin

lemma c_Incr_counted:
  assumes "c_Incr rc k s = (Inr c, s')" and "counted (view s) k n" and "n < 2 ^ 63 - 1"
  shows "c = n + 1 \<and>
    view s' = (view s)(k \<mapsto> (RStr (Itoa (n + 1)), case view s k of Some (y, t) \<Rightarrow> t | None \<Rightarrow> None))"
proof -
  note r = run_with_Inr [OF assms(1) [unfolded client_defs]]
  from assms(2) consider (none) "view s k = None" "n = 0" | (some) t where "view s k = Some (RStr (Itoa n), Some t)" "0 < n"
    by (auto simp: counted_def)
  then show ?thesis
  proof cases
    case none
    have "Itoa 1 = ''1''" by code_simp
    with incr_none [OF none(1)] r none show ?thesis by (auto simp: decode_int_def)
  next
    case some
    with incr_some [OF some(1) _ assms(3)] r show ?thesis by (auto simp: decode_int_def)
  qed
qed

lemma allow_step:
  assumes "Allow uni (Some l) now key s = (Inr b, s')" and "rl_client l = Some rc" and "0 < rl_window l"
    and "limit_key uni l now key = Inr rkey" and "counted (view s) rkey n" and "n < 2 ^ 63 - 1"
  shows "(b \<longleftrightarrow> n + 1 \<le> rl_limit l) \<and>
    view s' = (view s)(rkey \<mapsto> (RStr (Itoa (n + 1)),
      case view s rkey of Some (y, t) \<Rightarrow> t | None \<Rightarrow> Some (ex_ms rc (rl_window l))))"
proof -
  obtain q s1 where q: "c_Incr rc rkey s = (q, s1)" by force
  with assms(1,2,4) obtain c where c: "q = Inr c" by (cases q) (auto simp: Allow_def limit_key_def Let_def)
  note i = c_Incr_counted [OF q [unfolded c] assms(5,6)]
  have v1: "view s1 rkey = Some (RStr (Itoa (n + 1)), case view s rkey of Some (y, t) \<Rightarrow> t | None \<Rightarrow> None)" using i by simp
  show ?thesis
  proof (cases "n = 0")
    case True
    obtain x s2 where x: "c_Expire rc rkey (rl_window l) s1 = (x, s2)" by force
    with assms(1,2,4) q c i True obtain b' where b': "x = Inr b'" and r: "s' = s2" "b = (1 \<le> rl_limit l)"
      by (cases x) (auto simp: Allow_def limit_key_def Let_def)
    from assms(5) True have none: "view s rkey = None" by (auto simp: counted_def)
    from c_Expire_Inr [OF x [unfolded b'] assms(3) v1] i r True none show ?thesis by simp
  next
    case False
    with assms(1,2,4) q c i have r: "s' = s1" "b = (n + 1 \<le> rl_limit l)"
      by (auto simp: Allow_def limit_key_def Let_def)
    from assms(5) False obtain t where "view s rkey = Some (RStr (Itoa n), Some t)" by (auto simp: counted_def)
    with i r show ?thesis by simp
  qed
qed

end

text \<open>\<open>INCR\<close> on a string changes nothing, when it is no number or too large, or puts another string with the same expiry.\<close>

locale redis_counters = redis_clock +
  assumes incr_str: "str_key (view s) k \<Longrightarrow> view (snd (rcall rc (INCR k) s)) = view s \<or>
      (\<exists>v t. view (snd (rcall rc (INCR k) s)) = (view s)(k \<mapsto> (RStr v, t)))"
begin

lemma c_Incr_view:
  assumes "c_Incr rc k s = (r, s')" and "str_key (view s) k"
  shows "view s' = view s \<or> (\<exists>v t. view s' = (view s)(k \<mapsto> (RStr v, t)))"
proof -
  have "view s' = view s \<or> view s' = view (snd (rcall rc (INCR k) s))"
  proof (cases r)
    case (Inl e)
    show ?thesis using run_with_Inl [OF assms(1) [unfolded client_defs Inl]] by blast
  next
    case (Inr c)
    show ?thesis using run_with_Inr [OF assms(1) [unfolded client_defs Inr]] by blast
  qed
  with incr_str [OF assms(2)] show ?thesis by metis
qed

lemma allow_within:
  assumes "Allow uni (Some l) now key s = (r, s')" and "rl_client l = Some rc" and "0 < rl_window l"
    and "wf_keys (rl_keys l) (view s)"
  shows "keeps_to {''rate_limit''} (rl_keys l) (view s) (view s')"
proof (cases "limit_key uni l now key")
  case (Inl e)
  with assms(1,2) have "s' = s" by (auto simp: Allow_def limit_key_def Let_def)
  with assms(4) show ?thesis by (simp add: keeps_to_refl)
next
  case (Inr rkey)
  define k' where "k' = (if sanitizeRateLimitKey uni key = [] then ''unknown'' else sanitizeRateLimitKey uni key)"
  have b: "build (rl_keys l) [''rate_limit'', ''auth'', k', Itoa (go_div now (rl_window l))] = Inr rkey"
    using Inr by (simp add: limit_key_def redisKey_def RateLimit_def Let_def k'_def split: if_splits)
  have str: "str_key m rkey" if "wf_keys (rl_keys l) m" for m
    using wf_keys_str [OF that b] by (simp add: set_family_def)
  have upd: "keeps_to {''rate_limit''} (rl_keys l) m (m(rkey \<mapsto> (RStr v, t)))" if "wf_keys (rl_keys l) m" for m v t
    using keeps_to_str [OF that b] by (simp add: set_family_def)
  obtain q s1 where q: "c_Incr rc rkey s = (q, s1)" by force
  have w1: "keeps_to {''rate_limit''} (rl_keys l) (view s) (view s1)"
    using c_Incr_view [OF q str [OF assms(4)]] upd [OF assms(4)] keeps_to_refl [OF assms(4)] by auto
  then have wf1: "wf_keys (rl_keys l) (view s1)" by (simp add: keeps_to_def)
  obtain x s2 where x: "c_Expire rc rkey (rl_window l) s1 = (x, s2)" by force
  have "keeps_to {''rate_limit''} (rl_keys l) (view s1) (view s2)"
    using c_Expire_view [OF x assms(3)]
  proof
    assume "\<exists>y t. view s1 rkey = Some (y, t) \<and> view s2 = (view s1)(rkey \<mapsto> (y, Some (ex_ms rc (rl_window l))))"
    with str [OF wf1] upd [OF wf1] show ?thesis by (auto elim!: str_key_cases)
  qed (simp add: keeps_to_refl [OF wf1])
  moreover have "s' = s1 \<or> s' = s2"
    using assms(1,2) Inr q x by (cases q; cases x) (auto simp: Allow_def limit_key_def Let_def split: if_splits)
  ultimately show ?thesis using w1 keeps_to_trans by auto
qed

end

interpretation mem_counters: redis_counters mem_redis mem_view mem_pass
proof (unfold_locales, goal_cases)
  case (1 s k)
  then show ?case by (cases rule: str_key_cases) (auto 4 5 simp: mem_simps abs_entry_same split: option.splits if_splits)
qed

text \<open>Key of a run whose calls all fall into one window.\<close>

lemma limit_key_bucket:
  "go_div now (rl_window l) = go_div now' (rl_window l) \<Longrightarrow> limit_key uni l now key = limit_key uni l now' key"
  by (simp add: limit_key_def redisKey_def Let_def)

context redis_clock
begin

lemma allow_run_counts:
  assumes "allow_run uni l pass key calls s = (map Inr bs, s')"
    and "rl_client l = Some rc" and "0 < rl_window l"
    and "\<forall>(now, d) \<in> set calls. limit_key uni l now key = Inr rkey \<and> 0 \<le> d"
    and "counted (view s) rkey n"
    and "view s rkey = None \<longrightarrow> sum_list (map snd calls) < ex_ms rc (rl_window l)"
    and "\<forall>v t. view s rkey = Some (v, Some t) \<longrightarrow> sum_list (map snd calls) < t"
    and "n + int (length calls) < 2 ^ 63"
  shows "bs = map (\<lambda>i. n + 1 + int i \<le> rl_limit l) [0..<length calls]"
  using assms
proof (induction calls arbitrary: s n bs)
  case Nil
  then show ?case by simp
next
  case (Cons c calls)
  obtain now d where c: "c = (now, d)" by (cases c)
  obtain r s1 where a: "Allow uni (Some l) now key s = (r, s1)" by force
  obtain rs s2 where ar: "allow_run uni l pass key calls (pass d s1) = (rs, s2)" by force
  from Cons.prems(1) a ar c have "r # rs = map Inr bs" "s2 = s'" by simp_all
  then obtain b bs' where bs: "bs = b # bs'" "r = Inr b" "rs = map Inr bs'" by (cases bs) auto
  have rk: "limit_key uni l now key = Inr rkey" and d: "0 \<le> d" using Cons.prems(4) c by simp_all
  have n: "n < 2 ^ 63 - 1" using Cons.prems(8) by simp
  note st = allow_step [OF a [unfolded bs] Cons.prems(2,3) rk Cons.prems(5) n]
  obtain t where t: "view s1 rkey = Some (RStr (Itoa (n + 1)), Some t)" and lt: "d + sum_list (map snd calls) < t"
    using st Cons.prems(5,6,7) c by (auto simp: counted_def)
  have nn: "0 \<le> sum_list (map snd calls)" using Cons.prems(4) by (intro sum_list_nonneg) auto
  then have "view (pass d s1) rkey = Some (RStr (Itoa (n + 1)), Some (t - d))"
    using pass_alive [OF t d] lt by simp
  moreover have "0 \<le> n" using Cons.prems(5) by (auto simp: counted_def)
  ultimately have "bs' = map (\<lambda>i. (n + 1) + 1 + int i \<le> rl_limit l) [0..<length calls]"
    using ar bs \<open>s2 = s'\<close> lt Cons.prems(2,3,4,8)
    by (intro Cons.IH [of "pass d s1"]) (auto simp: counted_def)
  moreover have "[0..<length (c # calls)] = 0 # map Suc [0..<length calls]"
    by (simp add: map_Suc_upt upt_conv_Cons del: upt_Suc)
  ultimately show ?case using st bs by (simp add: add.commute add.left_commute del: upt_Suc)
qed

end

text \<open>The limiter on the in-memory server.\<close>

definition mem_limiter :: "mem RateLimiter" where
  "mem_limiter = \<lparr>rl_client = Some mem_redis, rl_keys = \<lparr>kb_prefix = ''rpg:local''\<rparr>,
     rl_window = 60 * Second, rl_limit = 2\<rparr>"

section \<open>Properties\<close>

text \<open>
  Every client key is admissible: whatever the caller passes as key, and at every
  instant, the limiter's Redis key can be built, so that a request is never refused or
  let through because of the shape of its key.
\<close>

theorem rate_limit_key_total:
  assumes "kb_prefix (rl_keys l) \<noteq> []"
  shows "\<exists>rkey. limit_key uni l now key = Inr rkey"
  using limit_key_Inr [OF assms] by metis

theorem rate_limit_key_total_witness:
  "\<exists>rkey. limit_key id mem_limiter 0 (CHR 0x0A # '' login : 10.0.0.1'') = Inr rkey"
proof -
  have "kb_prefix (rl_keys mem_limiter) \<noteq> []" by (simp add: mem_limiter_def)
  then show ?thesis by (rule rate_limit_key_total)
qed



end
