(* ===== verification/Api_App.thy ===== *)
theory Api_App
  imports Api_Http Game_App Rate_Limit
begin

text \<open>
  The API server as \<open>internal/app/api_deps.go\<close> and \<open>api.go\<close> wire it: Redis and
  PostgreSQL stores behind the store interfaces, services, interceptors, handlers and the
  HTTP server. The properties are about this server, on every documented Redis server and
  database, and about its handoff to the game server of the same deployment.
\<close>

section \<open>Definitions: stores behind their interfaces\<close>

definition user_store_i :: "'d UserStore \<Rightarrow> ('s \<times> 'd) UserStoreI" where
  "user_store_i st = \<lparr>us_CreateUser = (\<lambda>u. on_snd (CreateUser st u)),
     us_GetUserByEmail = (\<lambda>em. on_snd (GetUserByEmail st em)), us_GetUserByID = (\<lambda>i. on_snd (GetUserByID st i))\<rparr>"

definition character_store_i :: "'d CharacterStore \<Rightarrow> ('s \<times> 'd) CharacterStoreI" where
  "character_store_i st = \<lparr>ch_CreateCharacter = (\<lambda>c. on_snd (CreateCharacter st c)),
     ch_ListCharactersByUserID = (\<lambda>u. on_snd (ListCharactersByUserID st u)),
     ch_GetCharacterByID = (\<lambda>c. on_snd (GetCharacterByID st c))\<rparr>"

definition session_store_i :: "'s SessionStore \<Rightarrow> ('s \<times> 'd) SessionStoreI" where
  "session_store_i st = \<lparr>si_CreateSession = (\<lambda>sid u. on_fst (CreateSession (Some st) sid u)),
     si_GetSessionUserID = (\<lambda>sid. on_fst (GetSessionUserID (Some st) sid)),
     si_DeleteSession = (\<lambda>sid. on_fst (DeleteSession (Some st) sid)),
     si_DeleteUserSessions = (\<lambda>u. on_fst (DeleteUserSessions (Some st) u))\<rparr>"

definition join_token_store_i :: "joinTokenPayload json \<Rightarrow> 's JoinTokenStore \<Rightarrow> ('s \<times> 'd) JoinTokenStoreI" where
  "join_token_store_i js st = \<lparr>ji_CreateJoinToken = (\<lambda>now t. on_fst (CreateJoinToken js (Some st) now t)),
     ji_ConsumeJoinToken = (\<lambda>t. on_fst (ConsumeJoinToken js (Some st) t))\<rparr>"

definition game_server_store_i :: "gameServerPayload json \<Rightarrow> 's GameServerStore \<Rightarrow> ('s \<times> 'd) GameServerStoreI" where
  "game_server_store_i jsv st = \<lparr>gi_RegisterGameServer = (\<lambda>now g. on_fst (RegisterGameServer jsv (Some st) now g)),
     gi_DeregisterGameServer = (\<lambda>i. on_fst (DeregisterGameServer (Some st) i)),
     gi_ListGameServers = on_fst (ListGameServers jsv (Some st)),
     gi_GetGameServerByID = (\<lambda>i. on_fst (GetGameServerByID jsv (Some st) i))\<rparr>"

section \<open>Definitions: wiring\<close>

definition apiServiceName :: string where
  "apiServiceName = ''api''"

record 'w apiStores =
  as_user :: "'w UserStoreI"
  as_character :: "'w CharacterStoreI"
  as_session :: "'w SessionStoreI"
  as_joinToken :: "'w JoinTokenStoreI"
  as_gameServer :: "'w GameServerStoreI"
  as_authLimiter :: "string \<Rightarrow> 'w \<Rightarrow> bool result \<times> 'w"

record 'w apiDeps =
  ad_sessionStore :: "'w SessionStoreI"
  ad_authLimiter :: "string \<Rightarrow> 'w \<Rightarrow> bool result \<times> 'w"
  ad_authService :: "'w AuthService"
  ad_characterService :: "'w CharacterService"
  ad_gameService :: "'w GameService"
  ad_metrics :: Metrics

text \<open>The JSON codec of both payloads.\<close>

type_synonym codecs = "joinTokenPayload json \<times> gameServerPayload json"

definition newAPIStores ::
  "codecs \<Rightarrow> call_env \<Rightarrow> 's redis option \<Rightarrow> 'd pg option \<Rightarrow> Config \<Rightarrow> KeyBuilder \<Rightarrow> ('s \<times> 'd) apiStores result" where
  "newAPIStores js env redis pool conf keys =
     bindE (mapErr (\<lambda>e. Wrap ''create session store'' [e]) (NewSessionStore redis keys DefaultSessionTTL)) (\<lambda>sessionStore.
     bindE (mapErr (\<lambda>e. Wrap ''create game server store'' [e]) (NewGameServerStore redis keys DefaultServerTTL)) (\<lambda>gameServerStore.
     bindE (mapErr (\<lambda>e. Wrap ''create auth rate limiter'' [e])
       (NewRateLimiter redis keys (AuthRateLimitWindow conf) (AuthRateLimitBurst conf))) (\<lambda>authLimiter.
     Inr \<lparr>as_user = user_store_i pool, as_character = character_store_i pool, as_session = session_store_i sessionStore,
          as_joinToken = join_token_store_i (fst js) (NewJoinTokenStore redis keys),
          as_gameServer = game_server_store_i (snd js) gameServerStore,
          as_authLimiter = (\<lambda>key. on_fst (Allow (env_lower env) (Some authLimiter) (env_now env) key))\<rparr>)))"

definition newAPIServices :: "'w apiStores \<Rightarrow> 'w apiDeps result" where
  "newAPIServices stores =
     bindE (mapErr (\<lambda>e. Wrap ''create auth service'' [e])
       (NewAuthService (Some (as_user stores)) (Some (as_session stores)))) (\<lambda>authService.
     bindE (mapErr (\<lambda>e. Wrap ''create character service'' [e])
       (NewCharacterService (Some (as_character stores)))) (\<lambda>characterService.
     bindE (mapErr (\<lambda>e. Wrap ''create game service'' [e])
       (NewGameService (Some (as_character stores)) (Some (as_joinToken stores)) (Some (as_gameServer stores))
          DefaultJoinTokenTTL)) (\<lambda>gameService.
     Inr \<lparr>ad_sessionStore = as_session stores, ad_authLimiter = as_authLimiter stores, ad_authService = authService,
          ad_characterService = characterService, ad_gameService = gameService, ad_metrics = NewMetrics apiServiceName\<rparr>)))"

definition newAPIDeps ::
  "codecs \<Rightarrow> call_env \<Rightarrow> 's redis option \<Rightarrow> 'd pg option \<Rightarrow> Config \<Rightarrow> ('s \<times> 'd) apiDeps result" where
  "newAPIDeps js env redis pool conf =
     bindE (mapErr (\<lambda>e. Wrap ''create cache key builder'' [e]) (NewKeyBuilderFromConfig conf)) (\<lambda>keys.
     bindE (newAPIStores js env redis pool conf keys) newAPIServices)"

text \<open>The readiness check on the answers of the two drivers.\<close>

definition newAPIReadyCheck ::
  "('d \<Rightarrow> unit result) option \<Rightarrow> ('s \<Rightarrow> unit result) option \<Rightarrow> ('s \<times> 'd) api_state \<Rightarrow> unit result" where
  "newAPIReadyCheck pg_ping redis_ping st =
     bindE (mapErr (\<lambda>e. Wrap ''postgres'' [e]) (db_Health pg_ping (snd (st_stores st)))) (\<lambda>_.
     mapErr (\<lambda>e. Wrap ''redis'' [e]) (cache_Health (map_option (\<lambda>p. p (fst (st_stores st))) redis_ping)))"

definition api_interceptors :: "call_env \<Rightarrow> Config \<Rightarrow> 'w apiDeps \<Rightarrow> 'w api_state Interceptor list" where
  "api_interceptors env conf deps =
     [NewRPCLoggingInterceptor env, RPCInterceptor env,
      NewAuthRateLimitInterceptor env \<lparr>rlc_Window = AuthRateLimitWindow conf, rlc_Burst = AuthRateLimitBurst conf,
        rlc_Procedures = None, rlc_KeyFunc = None, rlc_Limiter = Some (ad_authLimiter deps)\<rparr>,
      NewAuthInterceptor env (Some (ad_sessionStore deps)) [Some PublicProcedures]]"

definition newAPIServerOptions ::
  "call_env \<Rightarrow> (Metrics \<Rightarrow> string list \<times> string list) \<Rightarrow> ('w api_state \<Rightarrow> unit result) \<Rightarrow> Config \<Rightarrow> 'w apiDeps
     \<Rightarrow> 'w api_state Options" where
  "newAPIServerOptions env orders ready conf deps =
     \<lparr>op_Addr = APIHTTPAddr conf, op_ShutdownTimeout = ShutdownTimeout conf, op_AllowedOrigins = APIAllowedOrigins conf,
      op_UnaryInterceptors = api_interceptors env conf deps,
      op_HTTPMiddleware = Some (\<lambda>next. HTTPMiddleware env (Some next)),
      op_MetricsHandler = Some (Metrics_Handler orders), op_ReadyCheck = Some ready,
      op_Handlers = \<lparr>hs_System = Some (SystemHandler_methods env (NewSystemHandler apiServiceName)),
        hs_Auth = Some (NewAuthHandler env (Some (ad_authService deps))),
        hs_Character = Some (NewCharacterHandler env (Some (ad_characterService deps))),
        hs_Game = Some (NewGameHandler env (Some (ad_gameService deps)))\<rparr>\<rparr>"

text \<open>\<open>app.NewAPIServer\<close> on a runtime that is present.\<close>

definition NewAPIServer ::
  "encoding \<Rightarrow> codec \<Rightarrow> codecs \<Rightarrow> call_env \<Rightarrow> (Metrics \<Rightarrow> string list \<times> string list) \<Rightarrow>
   (('s \<times> 'd) api_state \<Rightarrow> unit result) \<Rightarrow> 's redis option \<Rightarrow> 'd pg option \<Rightarrow> Config \<Rightarrow> ('s \<times> 'd) api_state Server result" where
  "NewAPIServer encode cd js env orders ready redis pool conf =
     bindE (newAPIDeps js env redis pool conf) (\<lambda>deps.
     NewServer encode cd env (newAPIServerOptions env orders ready conf deps))"

text \<open>\<open>RunAPI\<close>: the runtime, the server made from it, and what ended its \<open>Run\<close>.\<close>

definition RunAPI ::
  "Runtime result \<times> res_log \<Rightarrow> (Runtime \<Rightarrow> 'st Server result) \<Rightarrow> serve_event \<Rightarrow> unit result \<Rightarrow> unit result \<times> res_log" where
  "RunAPI start new_server ev close_redis =
     run_service start
       (\<lambda>rt. bindE (mapErr (\<lambda>e. Wrap ''create api server'' [e]) (new_server rt)) (\<lambda>server. fst (api_Run ev)))
       close_redis"

section \<open>Lemmas: the wired dependencies\<close>

definition wired_sessions :: "'s redis \<Rightarrow> KeyBuilder \<Rightarrow> 's SessionStore" where
  "wired_sessions rc keys = \<lparr>ss_client = Some rc, ss_keys = keys, ss_ttl = DefaultSessionTTL\<rparr>"

definition wired_auth :: "'s redis \<Rightarrow> 'd pg \<Rightarrow> KeyBuilder \<Rightarrow> ('s \<times> 'd) AuthService" where
  "wired_auth rc pg keys = \<lparr>as_users = user_store_i (Some pg), as_sessions = session_store_i (wired_sessions rc keys)\<rparr>"

definition wired_games :: "codecs \<Rightarrow> 's redis \<Rightarrow> 'd pg \<Rightarrow> KeyBuilder \<Rightarrow> ('s \<times> 'd) GameService" where
  "wired_games js rc pg keys = \<lparr>gsv_characters = character_store_i (Some pg),
     gsv_joinTokens = join_token_store_i (fst js) (NewJoinTokenStore (Some rc) keys),
     gsv_servers = game_server_store_i (snd js)
       \<lparr>gss_client = Some rc, gss_keys = keys, gss_serverTTL = DefaultServerTTL\<rparr>,
     gsv_joinTokenTTL = DefaultJoinTokenTTL\<rparr>"

lemma newAPIDeps_Inr:
  assumes "newAPIDeps js env (Some rc) (Some pg) conf = Inr deps" and "NewKeyBuilderFromConfig conf = Inr keys"
  shows "ad_authService deps = wired_auth rc pg keys"
    and "ad_sessionStore deps = session_store_i (wired_sessions rc keys)"
    and "ad_characterService deps = character_store_i (Some pg)"
    and "ad_gameService deps = wired_games js rc pg keys"
    and "ad_authLimiter deps = (\<lambda>key. on_fst (Allow (env_lower env) (Some \<lparr>rl_client = Some rc, rl_keys = keys,
      rl_window = AuthRateLimitWindow conf, rl_limit = AuthRateLimitBurst conf\<rparr>) (env_now env) key))"
  using assms
  by (auto simp: newAPIDeps_def newAPIStores_def newAPIServices_def bindE_eq_Inr NewSessionStore_def NewGameServerStore_def
      NewRateLimiter_def NewAuthService_def NewCharacterService_def NewGameService_def wired_auth_def wired_sessions_def
      wired_games_def required_def split: if_splits)

lemma on_fst_cases: "on_fst f w = (r, w') \<longleftrightarrow> f (fst w) = (r, fst w') \<and> snd w' = snd w"
  by (cases w; cases w') (auto simp: on_fst_def split: prod.splits)

lemma on_snd_cases: "on_snd f w = (r, w') \<longleftrightarrow> f (snd w) = (r, snd w') \<and> fst w' = fst w"
  by (cases w; cases w') (auto simp: on_snd_def split: prod.splits)

text \<open>Errors of a driver never are the sentinels of the program.\<close>

definition foreign :: "gerr \<Rightarrow> bool" where
  "foreign e = (\<not> errors_is e ErrNotFound \<and> \<not> errors_is e ErrUnauthenticated)"

definition foreign_errors :: "'d pg \<Rightarrow> bool" where
  "foreign_errors pg = (\<forall>em d e d'. q_user_by_email pg em d = (Inl e, d') \<longrightarrow> foreign e)"

lemma pgErr_cases: "pgErr e = Sentinel ErrNotFound \<and> errors_is e ErrNoRows \<or> pgErr e = Sentinel ErrAlreadyExists \<or>
    (\<exists>m. pgErr e = Wrap m [e])"
  by (simp add: pgErr_def mapPostgresError_def split: option.splits)

lemma pgErr_NoRows: "errors_is e ErrNoRows \<Longrightarrow> pgErr e = Sentinel ErrNotFound"
  by (simp add: pgErr_def mapPostgresError_def)

lemma GetUserByEmail_eq:
  "GetUserByEmail (Some pg) em d = (r, d') \<longleftrightarrow> (\<exists>q. q_user_by_email pg em d = (q, d') \<and> r = mapErr pgErr q)"
  by (cases "q_user_by_email pg em d") (auto simp: GetUserByEmail_def with_pool_def scanUser_def)

lemma CreateUser_Inr:
  "CreateUser (Some pg) u d = (Inr x, d') \<longleftrightarrow>
     q_insert_user pg (user_ID u) (user_Email u) (user_PasswordHash u) d = (Inr x, d')"
  by (simp add: CreateUser_def with_pool_def)

section \<open>The stores of the API server as an account directory\<close>

definition unique_emails :: "(string \<Rightarrow> string) \<Rightarrow> User set \<Rightarrow> bool" where
  "unique_emails ci us = (\<forall>u \<in> us. \<forall>v \<in> us. ci (user_Email u) = ci (user_Email v) \<longrightarrow> u = v)"

definition wf_accounts ::
  "('s \<Rightarrow> kv) \<Rightarrow> ('d \<Rightarrow> User set) \<Rightarrow> (string \<Rightarrow> string) \<Rightarrow> 's SessionStore \<Rightarrow> 's \<times> 'd \<Rightarrow> bool" where
  "wf_accounts view users ci sst w = (wf_sessions sst (view (fst w)) \<and> unique_emails ci (users (snd w)))"

locale api_stores = session_store rc view sst + postgres_db pg users chars canon ci
  for rc :: "'s redis" and view :: "'s \<Rightarrow> kv" and sst :: "'s SessionStore"
    and pg :: "'d pg" and users :: "'d \<Rightarrow> User set" and chars :: "'d \<Rightarrow> Character set"
    and canon :: "string \<Rightarrow> string option" and ci :: "string \<Rightarrow> string" +
  assumes email_errors: "foreign_errors pg"
begin

lemma create_session_error:
  assumes "CreateSession (Some sst) sid u s = (Inl e, s')"
  shows "e \<noteq> Sentinel ErrUnauthenticated"
  using assms st_client
  by (auto simp: CreateSession_def bindP_eq_Inl bindS_eq_Inl mapErr_eq_Inl mapErrS_eq_Inl redisKeyError_def redisUnavailable_def
      split: if_splits)

sublocale auth: auth_backend "\<lparr>as_users = user_store_i (Some pg), as_sessions = session_store_i sst\<rparr>"
  "\<lambda>w. users (snd w)" "\<lambda>w. session_owner (ss_keys sst) (view (fst w))" canon ci "wf_accounts view users ci sst"
proof (unfold_locales, goal_cases)
  case (1 w u x w')
  then have "q_insert_user pg (user_ID u) (user_Email u) (user_PasswordHash u) (snd w) = (Inr x, snd w')" and f: "fst w' = fst w"
    by (simp_all add: user_store_i_def on_snd_cases CreateUser_Inr)
  from insert_user_ok [OF this(1)] obtain k c t where "canon (user_ID u) = Some k"
    and n: "\<forall>v \<in> users (snd w). user_ID v \<noteq> k \<and> ci (user_Email v) \<noteq> ci (user_Email u)"
    and ins: "users (snd w') = insert \<lparr>user_ID = k, user_Email = user_Email u, user_PasswordHash = user_PasswordHash u,
      user_CreatedAt = c, user_UpdatedAt = t\<rparr> (users (snd w))" by blast
  moreover have "unique_emails ci (users (snd w'))"
    using 1(1) n unfolding ins wf_accounts_def unique_emails_def by (auto dest: sym)
  ultimately show ?case using 1(1) f by (auto simp: wf_accounts_def)
next
  case (2 w em u w')
  then obtain q where "q_user_by_email pg em (snd w) = (q, snd w')" "Inr u = mapErr pgErr q"
    by (auto simp: user_store_i_def on_snd_cases GetUserByEmail_eq)
  with user_by_email show ?case by (metis mapErr_eq_Inr)
next
  case (3 w em e w')
  then obtain e' where q: "q_user_by_email pg em (snd w) = (Inl e', snd w')" and e: "e = pgErr e'"
    by (auto simp: user_store_i_def on_snd_cases GetUserByEmail_eq eq_commute [of "Inl e" "mapErr pgErr q" for q] mapErr_eq_Inl)
  from email_errors [unfolded foreign_errors_def, rule_format, OF q] user_by_email_none [OF q] pgErr_cases [of e'] show ?case
    unfolding e by (auto simp: foreign_def)
next
  case (4 w em r w')
  then obtain q where q: "q_user_by_email pg em (snd w) = (q, snd w')" and f: "fst w' = fst w"
    by (auto simp: user_store_i_def on_snd_cases GetUserByEmail_eq)
  from user_by_email_frame [OF q] 4(1) f show ?case by (simp add: wf_accounts_def)
next
  case (5 w uid sid x w')
  then have c: "CreateSession (Some sst) sid uid (fst w) = (Inr x, fst w')" and f: "snd w' = snd w"
    by (simp_all add: session_store_i_def on_fst_cases)
  from 5(1) have wf: "wf_sessions sst (view (fst w))" by (simp add: wf_accounts_def)
  from sessions.create_ok [OF wf 5(2) c] wf_CreateSession [OF wf 5(2) c] f 5(1) show ?case by (simp add: wf_accounts_def)
next
  case (6 w sid uid ex w')
  then have "CreateSession (Some sst) sid uid (fst w) = (Inl ex, fst w')" by (simp add: session_store_i_def on_fst_cases)
  then show ?case by (rule create_session_error)
next
  case (7 w u v)
  then show ?case by (auto simp: wf_accounts_def unique_emails_def)
qed

lemmas auth_axioms = auth.auth_backend_axioms

end

interpretation mem_api: api_stores mem_redis mem_view mem_session_store mem_pg
  "\<lambda>d. set (db_users d)" "\<lambda>d. set (db_chars d)" mem_canon mem_ci
  by unfold_locales (auto simp: foreign_errors_def mem_pg_def foreign_def split: option.splits)

lemma wired_api_stores:
  assumes "redis_server rc view" and "postgres_db pg users chars canon ci"
    and "foreign_errors pg"
  shows "api_stores rc view (wired_sessions rc keys) pg users chars canon ci"
  using assms
  by (simp add: api_stores_def api_stores_axioms_def session_store_def session_store_axioms_def wired_sessions_def
      DefaultSessionTTL_def Millisecond_def Second_def)

lemma wired_auth_backend:
  assumes "redis_server rc view" and "postgres_db pg users chars canon ci"
    and "foreign_errors pg"
  shows "auth_backend (wired_auth rc pg keys) (\<lambda>w. users (snd w)) (\<lambda>w. session_owner keys (view (fst w))) canon ci
    (wf_accounts view users ci (wired_sessions rc keys))"
  using api_stores.auth_axioms [OF wired_api_stores [OF assms, where keys = keys]]
  by (simp add: wired_auth_def wired_sessions_def)

section \<open>Properties: accounts\<close>


text \<open>
  C10. A login gives a session only for an account whose address was named and whose stored
  hash accepts the password; the session belongs to that account, and no other session
  changes its owner.
\<close>

theorem login_authenticates:
  assumes "redis_server rc view" and "postgres_db pg users chars canon ci"
    and "foreign_errors pg"
    and "newAPIDeps js env (Some rc) (Some pg) conf = Inr deps" and "NewKeyBuilderFromConfig conf = Inr keys"
    and "wf_accounts view users ci (wired_sessions rc keys) w"
    and "Login lib idkey rand (Some (ad_authService deps)) email password w = (Inr res, w')"
  shows "\<exists>em u. Email lib email = Inr em \<and> u \<in> users (snd w) \<and> ci (user_Email u) = ci em \<and>
    VerifyPassword idkey (user_PasswordHash u) password = Inr () \<and> ar_UserID res = TrimSpace (user_ID u) \<and>
    session_owner keys (view (fst w')) = (session_owner keys (view (fst w)))(ar_SessionToken res \<mapsto> TrimSpace (user_ID u))"
  using auth_backend.login_sound [OF wired_auth_backend [OF assms(1-3), where keys = keys] assms(6)
    assms(7) [unfolded newAPIDeps_Inr(1) [OF assms(4,5)]]] .

text \<open>
  C39. Failed logins are uniform: an unknown address and a wrong password get the same
  response, and neither changes Redis.
\<close>

theorem login_failure_uniform:
  assumes "newAPIDeps js env (Some rc) (Some pg) conf = Inr deps" and "NewKeyBuilderFromConfig conf = Inr keys"
    and "Email (env_lib env) (lreq_Email req) = Inr em" and "st_stores st = (s, d)"
    and "q_user_by_email pg em d = (row, d')"
    and "(case row of Inl e \<Rightarrow> errors_is e ErrNoRows
       | Inr u \<Rightarrow> VerifyPassword (env_argon env) (user_PasswordHash u) (lreq_Password req) \<noteq> Inr ())"
  shows "h_Login env (Some (ad_authService deps)) ctx req st =
    (Inl (NewError CodeUnauthenticated ''unauthenticated''), st\<lparr>st_stores := (s, d')\<rparr>)"
proof -
  have pg: "GetUserByEmail (Some pg) em d = (mapErr pgErr row, d')" using assms(5) by (simp add: GetUserByEmail_eq)
  then have "us_GetUserByEmail (as_users (wired_auth rc pg keys)) em (s, d) = (mapErr pgErr row, (s, d'))"
    by (simp add: wired_auth_def user_store_i_def on_snd_def)
  note get = this
  have "Login (env_lib env) (env_argon env) (env_rand env) (Some (wired_auth rc pg keys)) (lreq_Email req) (lreq_Password req) (s, d)
      = (Inl (Sentinel ErrUnauthenticated), (s, d'))"
  proof (cases row)
    case (Inl e)
    with get assms(6) have "us_GetUserByEmail (as_users (wired_auth rc pg keys)) em (s, d) = (Inl (Sentinel ErrNotFound), (s, d'))"
      by (simp add: pgErr_NoRows)
    with assms(3) show ?thesis by (simp add: Login_def)
  next
    case (Inr u)
    then obtain e where "VerifyPassword (env_argon env) (user_PasswordHash u) (lreq_Password req) = Inl e"
      using assms(6) by (cases "VerifyPassword (env_argon env) (user_PasswordHash u) (lreq_Password req)") auto
    with assms(3) get Inr show ?thesis by (simp add: Login_def)
  qed
  then show ?thesis
    by (simp add: h_Login_def newAPIDeps_Inr(1) [OF assms(1,2)] on_stores_def assms(4) connected_def bindR_def
        connect_error_def connectCodeAndMessage_def)
qed

section \<open>Lemmas: protected procedures\<close>

definition protected_procedures :: "string set" where
  "protected_procedures = {AuthServiceLogoutProcedure, CharacterServiceCreateCharacterProcedure,
     CharacterServiceListCharactersProcedure, GameServiceListGameServersProcedure, GameServiceIssueJoinTokenProcedure}"

text \<open>The account of the live session that a request presents.\<close>

definition live_bearer :: "call_env \<Rightarrow> KeyBuilder \<Rightarrow> kv \<Rightarrow> header \<Rightarrow> string option" where
  "live_bearer env keys m hdr =
     (case BearerToken (env_fold env) (header_Get hdr ''Authorization'') of
        Inl e \<Rightarrow> None | Inr t \<Rightarrow> session_owner keys m (TrimSpace t))"

lemma connected_eq [simp]: "connected (Inl e, s) = (Inl (connect_error e), s)" "connected (Inr x, s) = (Inr x, s)"
  by (simp_all add: connected_def)

lemma bindR_simps [simp]: "bindR (Inl e, s) k = (Inl e, s)" "bindR (Inr x, s) k = k x s"
  by (simp_all add: bindR_def)

lemma connected_Inr: "connected x = (Inr y, s) \<longleftrightarrow> x = (Inr y, s)"
  by (cases x; cases "fst x") (auto simp: connected_def)

lemma bindR_Inr: "bindR x k = (Inr y, t) \<longleftrightarrow> (\<exists>a s. x = (Inr a, s) \<and> k a s = (Inr y, t))"
  by (cases x; cases "fst x") auto

lemma on_stores_eq: "on_stores f st = (r, st') \<longleftrightarrow> (\<exists>w. f (st_stores st) = (r, w) \<and> st' = st\<lparr>st_stores := w\<rparr>)"
  by (auto simp: on_stores_def split: prod.splits)

lemma auth_interceptor_cases:
  assumes "redis_server rc view" and "wf_sessions (wired_sessions rc keys) (view (fst (st_stores st)))"
    and "Procedure req \<notin> PublicProcedures"
    and "NewAuthInterceptor env (Some (session_store_i (wired_sessions rc keys))) [Some PublicProcedures] next ctx req st = (res, st')"
  obtains (rejected) e where "res = Inl e" "view (fst (st_stores st')) = view (fst (st_stores st))"
      "snd (st_stores st') = snd (st_stores st)"
  | (passed) u t st1 where "live_bearer env keys (view (fst (st_stores st))) (Header req) = Some u"
      "view (fst (st_stores st1)) = view (fst (st_stores st))" "snd (st_stores st1) = snd (st_stores st)"
      "(res, st') = next (ContextWithAuthUser ctx \<lparr>au_UserID = u, au_SessionToken = t\<rparr>) req st1"
proof -
  let ?b = "BearerToken (env_fold env) (header_Get (Header req) ''Authorization'')"
  have ss: "session_store rc view (wired_sessions rc keys)"
    using assms(1) by (simp add: session_store_def session_store_axioms_def wired_sessions_def DefaultSessionTTL_def
        Millisecond_def Second_def)
  show ?thesis
  proof (cases ?b)
    case (Inl e)
    with assms(3,4) rejected show ?thesis by (auto simp: NewAuthInterceptor_def)
  next
    case t: (Inr t)
    obtain g s' where g: "GetSessionUserID (Some (wired_sessions rc keys)) t (fst (st_stores st)) = (g, s')" by force
    let ?st = "st\<lparr>st_stores := (s', snd (st_stores st))\<rparr>"
    have on: "on_stores (si_GetSessionUserID (session_store_i (wired_sessions rc keys)) t) st = (g, ?st)"
      by (simp add: on_stores_def session_store_i_def on_fst_def g)
    have v: "view s' = view (fst (st_stores st))" by (rule session_store.get_session_view [OF ss assms(2) g])
    show ?thesis
    proof (cases g)
      case (Inl e)
      with assms(3,4) t on v rejected show ?thesis by (auto simp: NewAuthInterceptor_def)
    next
      case (Inr u)
      have "session_owner keys (view (fst (st_stores st))) (TrimSpace t) = Some u"
        using session_store.get_session_owner [OF ss assms(2) g [unfolded Inr]] by (simp add: wired_sessions_def)
      with assms(3,4) t on v Inr show ?thesis
        by (intro passed [of u ?st t]) (auto simp: NewAuthInterceptor_def live_bearer_def)
    qed
  qed
qed

lemma rpc_wrappers:
  "fst (NewRPCLoggingInterceptor env next ctx req st) = fst (next ctx req st)"
  "st_stores (snd (NewRPCLoggingInterceptor env next ctx req st)) = st_stores (snd (next ctx req st))"
  "fst (RPCInterceptor env next ctx req st) = fst (next ctx req st)"
  "st_stores (snd (RPCInterceptor env next ctx req st)) = st_stores (snd (next ctx req st))"
  by (auto simp: NewRPCLoggingInterceptor_def RPCInterceptor_def add_log_def with_metrics_def Let_def split: prod.splits option.splits)

lemma limiter_skips:
  "Procedure req \<notin> PublicProcedures \<Longrightarrow>
     NewAuthRateLimitInterceptor env \<lparr>rlc_Window = wd, rlc_Burst = b, rlc_Procedures = None, rlc_KeyFunc = None, rlc_Limiter = l\<rparr>
       next ctx req st = next ctx req st"
  by (simp add: NewAuthRateLimitInterceptor_def rate_limit_defaults_def Let_def PublicProcedures_def)

text \<open>What the interceptors let through to a protected method, and as whom.\<close>

lemma protected_chain_cases:
  assumes "redis_server rc view" and "wf_sessions (wired_sessions rc keys) (view (fst (st_stores st)))"
    and "Procedure req \<notin> PublicProcedures"
    and "newAPIDeps js env' (Some rc) (Some pg) conf = Inr deps" and "NewKeyBuilderFromConfig conf = Inr keys"
    and "chain (api_interceptors env conf deps) next ctx req st = (res, st')"
  obtains (rejected) e where "res = Inl e" "view (fst (st_stores st')) = view (fst (st_stores st))"
      "snd (st_stores st') = snd (st_stores st)"
  | (passed) u t st1 where "live_bearer env keys (view (fst (st_stores st))) (Header req) = Some u"
      "view (fst (st_stores st1)) = view (fst (st_stores st))" "snd (st_stores st1) = snd (st_stores st)"
      "res = fst (next (ContextWithAuthUser ctx \<lparr>au_UserID = u, au_SessionToken = t\<rparr>) req st1)"
      "st_stores st' = st_stores (snd (next (ContextWithAuthUser ctx \<lparr>au_UserID = u, au_SessionToken = t\<rparr>) req st1))"
proof -
  let ?a = "NewAuthInterceptor env (Some (session_store_i (wired_sessions rc keys))) [Some PublicProcedures] next ctx req st"
  obtain r a where a: "?a = (r, a)" by force
  have "fst (chain (api_interceptors env conf deps) next ctx req st) = r"
    "st_stores (snd (chain (api_interceptors env conf deps) next ctx req st)) = st_stores a"
    using a assms(3) by (simp_all add: chain_def api_interceptors_def rpc_wrappers limiter_skips newAPIDeps_Inr(2) [OF assms(4,5)])
  with assms(6) have res: "res = r" "st_stores st' = st_stores a" by simp_all
  from assms(1-3) a show ?thesis
  proof (cases rule: auth_interceptor_cases)
    case (rejected e)
    with res that(1) show ?thesis by simp
  next
    case (passed u t st1)
    note n = passed(4) [symmetric]
    show ?thesis by (rule that(2) [OF passed(1-3), of t]) (simp_all add: n res)
  qed
qed

section \<open>Lemmas: routing\<close>

definition api_mux ::
  "encoding \<Rightarrow> codec \<Rightarrow> call_env \<Rightarrow> (Metrics \<Rightarrow> string list \<times> string list) \<Rightarrow> ('w api_state \<Rightarrow> unit result) \<Rightarrow> Config
     \<Rightarrow> 'w apiDeps \<Rightarrow> 'w api_state mux" where
  "api_mux encode cd env orders ready conf deps =
     (let opts = newAPIServerOptions env orders ready conf deps in
      mountRPCRoutes encode cd
        (mountMetricsRoute (mountHealthRoutes [] (Some ready)) (Some (Metrics_Handler orders)))
        (SystemHandler_methods env (NewSystemHandler apiServiceName)) (op_Handlers opts) (api_interceptors env conf deps))"

lemma NewAPIServer_Inr:
  assumes "NewAPIServer encode cd js env orders ready (Some rc) (Some pg) conf = Inr srv"
  obtains deps origins where "newAPIDeps js env (Some rc) (Some pg) conf = Inr deps"
    and "srv_handler srv = api_stack env origins (mux_serve (api_mux encode cd env orders ready conf deps))"
  using assms
  by (auto simp: NewAPIServer_def bindE_eq_Inr NewServer_def newAPIServerOptions_def api_mux_def api_stack_def Let_def split: if_splits)

text \<open>An endpoint answers with an error at once or runs the interceptors for its procedure.\<close>

definition guarded :: "'st Interceptor list \<Rightarrow> string \<Rightarrow> 'st endpoint \<Rightarrow> bool" where
  "guarded ints p ep = (\<forall>ctx hdr body st. (\<exists>e. ep ctx hdr body st = (Inl e, st)) \<or>
     (\<exists>next. ep ctx hdr body st = chain ints next ctx \<lparr>Procedure = p, Header = hdr\<rparr> st))"

lemma guarded_unary: "guarded ints p (NewUnaryHandler p dec meth wrap ints)"
  by (auto simp: guarded_def NewUnaryHandler_def split: option.splits)

lemma api_mux_rpc:
  "api_mux encode cd env orders ready conf deps =
     rpc_mux encode cd (Some ready) (Some (Metrics_Handler orders)) (SystemHandler_methods env (NewSystemHandler apiServiceName))
       (NewAuthHandler env (Some (ad_authService deps))) (NewCharacterHandler env (Some (ad_characterService deps)))
       (NewGameHandler env (Some (ad_gameService deps))) (api_interceptors env conf deps)"
  by (simp add: api_mux_def rpc_mux_def newAPIServerOptions_def)

lemma routed:
  "mux_lookup m p = Some (rpc_http encode svc) \<Longrightarrow> snd svc p = Some ep \<Longrightarrow> guarded ints p ep \<Longrightarrow>
     \<exists>svc ep. mux_lookup m p = Some (rpc_http encode svc) \<and> snd svc p = Some ep \<and> guarded ints p ep"
  by blast

lemma api_protected_route:
  assumes "p \<in> protected_procedures"
  shows "\<exists>svc ep. mux_lookup (api_mux encode cd env orders ready conf deps) p = Some (rpc_http encode svc) \<and>
    snd svc p = Some ep \<and> guarded (api_interceptors env conf deps) p ep"
  using assms unfolding protected_procedures_def api_mux_rpc
  by (elim insertE emptyE) (hypsubst, rule routed, rule rpc_mux_lookup, rule rpc_endpoints, rule guarded_unary)+

lemma protected_not_public: "protected_procedures \<inter> PublicProcedures = {}"
  by code_simp

text \<open>Without a live session a guarded endpoint answers with an error and leaves the stores alone.\<close>

lemma guarded_rejects:
  assumes "redis_server rc view" and "wf_sessions (wired_sessions rc keys) (view (fst (st_stores st)))"
    and "p \<notin> PublicProcedures"
    and "newAPIDeps js env' (Some rc) (Some pg) conf = Inr deps" and "NewKeyBuilderFromConfig conf = Inr keys"
    and "live_bearer env keys (view (fst (st_stores st))) hdr = None"
    and "guarded (api_interceptors env conf deps) p ep" and "ep ctx hdr body st = (res, st')"
  shows "\<exists>e. res = Inl e \<and> view (fst (st_stores st')) = view (fst (st_stores st)) \<and> snd (st_stores st') = snd (st_stores st)"
proof (cases "\<exists>e. ep ctx hdr body st = (Inl e, st)")
  case False
  with assms(7,8) obtain nxt where
    c: "chain (api_interceptors env conf deps) nxt ctx \<lparr>Procedure = p, Header = hdr\<rparr> st = (res, st')"
    unfolding guarded_def by metis
  have "Procedure \<lparr>Procedure = p, Header = hdr\<rparr> \<notin> PublicProcedures" using assms(3) by simp
  from assms(1,2) this assms(4,5) c show ?thesis
    by (cases rule: protected_chain_cases) (use assms(6) in auto)
qed (use assms(8) in auto)

section \<open>Lemmas: answers through the middleware\<close>

definition rpc_answer :: "encoding \<Rightarrow> AnyResponse rpc \<Rightarrow> Writer \<Rightarrow> Writer" where
  "rpc_answer encode res w =
     (case encode res of (status, hs, body) \<Rightarrow> snd (Write body (WriteHeader status (fold (\<lambda>(k, v). SetHeader k v) hs w))))"

lemma rpc_http_eq:
  "snd svc (hr_Path r) = Some ep \<Longrightarrow> ep (hr_Ctx r) (hr_Header r) (hr_Body r) (snd x) = (res, st1) \<Longrightarrow>
     rpc_http encode svc r x = returned (rpc_answer encode res (fst x), st1)"
  by (simp add: rpc_http_def rpc_answer_def returned_def split: prod.splits)

text \<open>
  A handler that, from stores that satisfy \<open>Q\<close> and an empty body, returns with stores
  that satisfy \<open>Q\<close> and a response that satisfies \<open>E\<close>, whatever the context.
\<close>

definition answers :: "('w \<Rightarrow> bool) \<Rightarrow> (response \<Rightarrow> bool) \<Rightarrow> 'w api_state Handler \<Rightarrow> HttpRequest \<Rightarrow> bool" where
  "answers Q E h r = (\<forall>ctx w st. Q (st_stores st) \<longrightarrow> rp_body (base_of w) = [] \<longrightarrow>
     (\<exists>w' st'. h (r\<lparr>hr_Ctx := ctx\<rparr>) (w, st) = (Returned (), w', st') \<and> Q (st_stores st') \<and> E (base_of w')))"

lemma base_inner: "base_of (inner w) = base_of w"
  by (cases w) simp_all

lemma body_WriteHeader: "rp_body (base_of (WriteHeader code w)) = rp_body (base_of w)"
  by (induction w) (simp_all add: base_WriteHeader_def)

lemma body_cors: "rp_body (base_of (cors_headers origin w)) = rp_body (base_of w)"
  by (simp add: cors_headers_def)

lemma answers_recorded:
  assumes "answers Q E h r" and "Q (st_stores st)" and "rp_body (base_of w) = []"
  obtains w' st' where "h (r\<lparr>hr_Ctx := ctx\<rparr>) (w, st) = (Returned (), w', st')" "Q (st_stores st')" "E (base_of w')"
  using assms unfolding answers_def by blast

lemma answers_cors:
  assumes "answers Q E h r" and "\<And>rp. rp_body rp = [] \<Longrightarrow> E rp"
  shows "answers Q E (CORSMiddleware env origins h) r"
proof (unfold answers_def, intro allI impI)
  fix ctx w and st :: "'a api_state"
  assume q: "Q (st_stores st)" and b: "rp_body (base_of w) = []"
  let ?o = "header_Get (hr_Header r) ''Origin''"
  let ?w = "if ?o \<noteq> [] then cors_headers ?o w else w"
  have "rp_body (base_of ?w) = []" using b by (simp add: body_cors)
  from answers_recorded [OF assms(1) q this] obtain w' st' where
    "h (r\<lparr>hr_Ctx := ctx\<rparr>) (?w, st) = (Returned (), w', st')" "Q (st_stores st')" "E (base_of w')" .
  with q b assms(2) show "\<exists>w' st'. CORSMiddleware env origins h (r\<lparr>hr_Ctx := ctx\<rparr>) (w, st) = (Returned (), w', st') \<and>
      Q (st_stores st') \<and> E (base_of w')"
    by (auto simp: CORSMiddleware_def returned_def Let_def body_WriteHeader body_cors)
qed

lemma answers_http:
  assumes "answers Q E h r"
  shows "answers Q E (HTTPMiddleware env (Some h)) r"
proof (unfold answers_def, intro allI impI)
  fix ctx w and st :: "'a api_state"
  assume q: "Q (st_stores st)" and "rp_body (base_of w) = []"
  then have b: "rp_body (base_of (ResponseRecorder w 0 0)) = []" by simp
  from answers_recorded [OF assms q b] obtain w' st' where
    "h (r\<lparr>hr_Ctx := ctx\<rparr>) (ResponseRecorder w 0 0, st) = (Returned (), w', st')" "Q (st_stores st')" "E (base_of w')" .
  then show "\<exists>w' st'. HTTPMiddleware env (Some h) (r\<lparr>hr_Ctx := ctx\<rparr>) (w, st) = (Returned (), w', st') \<and>
      Q (st_stores st') \<and> E (base_of w')"
    by (simp add: HTTPMiddleware_def returned_def with_metrics_def base_inner Let_def)
qed

lemma answers_logging:
  assumes "answers Q E h r"
  shows "answers Q E (LoggingMiddleware env h) r"
proof (unfold answers_def, intro allI impI)
  fix ctx w and st :: "'a api_state"
  assume q: "Q (st_stores st)" and "rp_body (base_of w) = []"
  then have b: "rp_body (base_of (ResponseRecorder w 0 0)) = []" by simp
  from answers_recorded [OF assms q b] obtain w' st' where
    "h (r\<lparr>hr_Ctx := ctx\<rparr>) (ResponseRecorder w 0 0, st) = (Returned (), w', st')" "Q (st_stores st')" "E (base_of w')" .
  then show "\<exists>w' st'. LoggingMiddleware env h (r\<lparr>hr_Ctx := ctx\<rparr>) (w, st) = (Returned (), w', st') \<and>
      Q (st_stores st') \<and> E (base_of w')"
    by (simp add: LoggingMiddleware_def returned_def add_log_def base_inner)
qed

lemma answers_recovery:
  assumes "answers Q E h r"
  shows "answers Q E (RecoveryMiddleware h) r"
proof (unfold answers_def, intro allI impI)
  fix ctx w and st :: "'a api_state"
  assume q: "Q (st_stores st)" and b: "rp_body (base_of w) = []"
  from answers_recorded [OF assms q b] obtain w' st' where
    "h (r\<lparr>hr_Ctx := ctx\<rparr>) (w, st) = (Returned (), w', st')" "Q (st_stores st')" "E (base_of w')" .
  then show "\<exists>w' st'. RecoveryMiddleware h (r\<lparr>hr_Ctx := ctx\<rparr>) (w, st) = (Returned (), w', st') \<and>
      Q (st_stores st') \<and> E (base_of w')"
    by (simp add: RecoveryMiddleware_def returned_def)
qed

lemma answers_request_id:
  assumes "answers Q E h r"
  shows "answers Q E (WithRequestID env h) r"
proof (unfold answers_def, intro allI impI)
  fix ctx w and st :: "'a api_state"
  assume q: "Q (st_stores st)" and b: "rp_body (base_of w) = []"
  let ?id = "normalizeRequestID (env_uuid env) (header_Get (hr_Header r) requestIDHeader)"
  from b have b': "rp_body (base_of (SetHeader requestIDHeader ?id w)) = []" by simp
  from answers_recorded [OF assms q b'] obtain w' st' where
    "h (r\<lparr>hr_Ctx := ContextWithRequestID ctx ?id\<rparr>) (SetHeader requestIDHeader ?id w, st) = (Returned (), w', st')"
    "Q (st_stores st')" "E (base_of w')" .
  then show "\<exists>w' st'. WithRequestID env h (r\<lparr>hr_Ctx := ctx\<rparr>) (w, st) = (Returned (), w', st') \<and>
      Q (st_stores st') \<and> E (base_of w')"
    by (simp add: WithRequestID_def Let_def)
qed

lemma answers_stack:
  assumes "answers Q E h r" and "\<And>rp. rp_body rp = [] \<Longrightarrow> E rp"
  shows "answers Q E (api_stack env origins h) r"
  unfolding api_stack_eq
  by (intro answers_request_id answers_recovery answers_logging answers_http answers_cors assms)

section \<open>Properties: protected procedures\<close>

text \<open>
  C4. The protected procedures are protected: an HTTP request to one of them that does not
  present the token of a live session changes neither Redis nor the database, and its
  answer is an error or has no body at all. This holds for every method, header and body.
\<close>

theorem http_protected:
  assumes "redis_server rc view" and "NewKeyBuilderFromConfig conf = Inr keys"
    and "NewAPIServer encode cd js env orders ready (Some rc) (Some pg) conf = Inr srv"
    and "wf_sessions (wired_sessions rc keys) (view s)" and "st_stores st = (s, d)"
    and "hr_Path r \<in> protected_procedures" and "live_bearer env keys (view s) (hr_Header r) = None"
    and "srv_handler srv r (BaseWriter new_response, st) = (out, w', st')"
  shows "out = Returned () \<and> view (fst (st_stores st')) = view s \<and> snd (st_stores st') = d \<and>
    (rp_body (base_of w') = [] \<or> (\<exists>e w1. base_of w' = base_of (rpc_answer encode (Inl e) w1)))"
proof -
  let ?Q = "\<lambda>sd. view (fst sd) = view s \<and> snd sd = d"
  let ?E = "\<lambda>rp. rp_body rp = [] \<or> (\<exists>e w1. rp = base_of (rpc_answer encode (Inl e) w1))"
  obtain deps origins where deps: "newAPIDeps js env (Some rc) (Some pg) conf = Inr deps"
    and h: "srv_handler srv = api_stack env origins (mux_serve (api_mux encode cd env orders ready conf deps))"
    by (rule NewAPIServer_Inr [OF assms(3)])
  obtain svc ep where m: "mux_lookup (api_mux encode cd env orders ready conf deps) (hr_Path r) = Some (rpc_http encode svc)"
    and ep: "snd svc (hr_Path r) = Some ep" and g: "guarded (api_interceptors env conf deps) (hr_Path r) ep"
    using api_protected_route [OF assms(6)] by metis
  have pub: "hr_Path r \<notin> PublicProcedures"
    using assms(6) protected_not_public by blast
  have "answers ?Q ?E (mux_serve (api_mux encode cd env orders ready conf deps)) r"
  proof (unfold answers_def, intro allI impI)
    fix ctx w and st0 :: "('a \<times> 'b) api_state"
    assume q: "?Q (st_stores st0)"
    obtain res st1 where e: "ep ctx (hr_Header r) (hr_Body r) st0 = (res, st1)" by force
    from guarded_rejects [OF assms(1) _ pub deps assms(2) _ g e] q assms(4,7)
    obtain er where er: "res = Inl er" "?Q (st_stores st1)" by auto
    have "rpc_http encode svc (r\<lparr>hr_Ctx := ctx\<rparr>) (w, st0) = returned (rpc_answer encode res w, st1)"
      using rpc_http_eq [of svc "r\<lparr>hr_Ctx := ctx\<rparr>" ep "(w, st0)"] ep e by simp
    with m er show "\<exists>w' st'. mux_serve (api_mux encode cd env orders ready conf deps) (r\<lparr>hr_Ctx := ctx\<rparr>) (w, st0) =
        (Returned (), w', st') \<and> ?Q (st_stores st') \<and> ?E (base_of w')"
      by (auto simp: mux_serve_def returned_def)
  qed
  then have "answers ?Q ?E (api_stack env origins (mux_serve (api_mux encode cd env orders ready conf deps))) r"
    by (rule answers_stack) simp
  from answers_recorded [OF this, of st "BaseWriter new_response" "hr_Ctx r"] assms(5,8) show ?thesis
    unfolding h by (auto simp: new_response_def)
qed

section \<open>Properties: rate limiting\<close>

lemma newAPIDeps_limits:
  assumes "newAPIDeps js env (Some rc) (Some pg) conf = Inr deps"
  shows "0 < AuthRateLimitWindow conf" and "0 < AuthRateLimitBurst conf"
  using assms by (auto simp: newAPIDeps_def newAPIStores_def bindE_eq_Inr NewRateLimiter_def split: if_splits)

lemma default_key_of_header:
  assumes "header_Get (Header req) ''Forwarded'' = []" and "header_Get (Header req) ''X-Forwarded-For'' = k"
    and "k \<noteq> []" and "TrimSpace k = k" and "CHR '','' \<notin> set k"
  shows "defaultRateLimitKey folds ctx req = k"
proof -
  have "forwardedFor folds [] = []" by (simp add: forwardedFor_def Cut_def)
  with assms show ?thesis by (simp add: defaultRateLimitKey_def Let_def firstForwardedIP_def Cut_def)
qed

text \<open>
  C40. The limit on authentication attempts is keyed by what the client writes: a request
  that names an address in \<open>X-Forwarded-For\<close> which no request of this window has named
  yet always passes the limiter (unless Redis fails), however many attempts came before.
\<close>

theorem rate_limit_by_header:
  assumes "redis_server rc view" and "newAPIDeps js env (Some rc) (Some pg) conf = Inr deps"
    and "NewKeyBuilderFromConfig conf = Inr keys"
    and "Procedure req \<in> {AuthServiceRegisterProcedure, AuthServiceLoginProcedure}"
    and "header_Get (Header req) ''Forwarded'' = []" and "header_Get (Header req) ''X-Forwarded-For'' = k"
    and "k \<noteq> []" and "TrimSpace k = k" and "CHR '','' \<notin> set k"
    and "l = \<lparr>rl_client = Some rc, rl_keys = keys, rl_window = AuthRateLimitWindow conf, rl_limit = AuthRateLimitBurst conf\<rparr>"
    and "limit_key (env_lower env) l (env_now env) (Procedure req @ '':'' @ k) = Inr rkey"
    and "view (fst (st_stores st)) rkey = None"
    and "NewAuthRateLimitInterceptor env \<lparr>rlc_Window = AuthRateLimitWindow conf, rlc_Burst = AuthRateLimitBurst conf,
        rlc_Procedures = None, rlc_KeyFunc = None, rlc_Limiter = Some (ad_authLimiter deps)\<rparr> next ctx req st = (res, st')"
  shows "(\<exists>st1. next ctx req st1 = (res, st')) \<or> res = Inl limiter_unavailable"
proof -
  note lim = newAPIDeps_limits [OF assms(2)]
  have key: "defaultRateLimitKey (env_fold env) ctx req = k" by (rule default_key_of_header [OF assms(5-9)])
  obtain q s1 where q: "Allow (env_lower env) (Some l) (env_now env) (Procedure req @ '':'' @ k) (fst (st_stores st)) = (q, s1)" by force
  let ?st = "st\<lparr>st_stores := (s1, snd (st_stores st))\<rparr>"
  have a: "on_stores (ad_authLimiter deps (Procedure req @ '':'' @ k)) st = (q, ?st)"
    using q by (simp add: newAPIDeps_Inr(5) [OF assms(2,3)] assms(10) on_stores_def on_fst_def)
  have p: "Procedure req \<in> {''/rpg.v1.AuthService/Register'', ''/rpg.v1.AuthService/Login''}"
    using assms(4) by (simp add: AuthServiceRegisterProcedure_def AuthServiceLoginProcedure_def)
  have step: "limited_call (Some (ad_authLimiter deps)) (defaultRateLimitKey (env_fold env)) next ctx req st = (res, st')"
    using assms(13) p by (auto simp: NewAuthRateLimitInterceptor_def rate_limit_defaults_def Let_def)
  show ?thesis
  proof (cases q)
    case (Inl e)
    with step a show ?thesis by (simp add: limited_call_def key assms(7,8))
  next
    case (Inr b)
    have "counted (view (fst (st_stores st))) rkey 0" using assms(12) by (simp add: counted_def)
    from redis_server.allow_step [OF assms(1) q [unfolded Inr] _ _ assms(11) this] lim have b by (simp add: assms(10))
    with step a Inr show ?thesis by (auto simp: limited_call_def key assms(7,8))
  qed
qed

section \<open>Witnesses\<close>

abbreviation w_js :: codecs where
  "w_js \<equiv> (mem_token_json, mem_server_json)"

definition w_deps :: "(mem \<times> mem_db) apiDeps" where
  "w_deps = projr (newAPIDeps w_js w_call (Some mem_redis) (Some mem_pg) w_conf)"

lemma w_deps_wired: "newAPIDeps w_js w_call (Some mem_redis) (Some mem_pg) w_conf = Inr w_deps"
proof -
  have "0 < AuthRateLimitWindow w_conf" "0 < AuthRateLimitBurst w_conf" by (simp_all add: w_conf_def Second_def)
  then have "\<exists>deps. newAPIDeps w_js w_call (Some mem_redis) (Some mem_pg) w_conf = Inr deps"
    by (simp add: newAPIDeps_def w_keys_conf newAPIStores_def NewSessionStore_def NewGameServerStore_def NewRateLimiter_def
        newAPIServices_def NewAuthService_def NewCharacterService_def NewGameService_def required_def
        DefaultSessionTTL_def DefaultServerTTL_def DefaultJoinTokenTTL_def Second_def)
  then show ?thesis by (auto simp: w_deps_def)
qed

abbreviation w_auth :: "(mem \<times> mem_db) AuthService" where
  "w_auth \<equiv> wired_auth mem_redis mem_pg w_keys"

lemma w_deps_auth: "ad_authService w_deps = w_auth"
  by (rule newAPIDeps_Inr(1) [OF w_deps_wired w_keys_conf])

definition w_nobody :: "mem \<times> mem_db" where
  "w_nobody = (mem_empty, \<lparr>db_users = [], db_chars = [], db_clock = 0\<rparr>)"

definition w_reg :: "AuthResult result \<times> mem \<times> mem_db" where
  "w_reg = Register w_lib w_argon w_random ''a1'' (Some w_auth) ''Ann@Example.org'' ''correct horse'' w_nobody"

definition w_log :: "AuthResult result \<times> mem \<times> mem_db" where
  "w_log = Login w_lib w_argon w_random (Some w_auth) ''ann@example.org'' ''correct horse'' (snd w_reg)"

lemma w_reg_ok: "w_reg = (Inr (projr (fst w_reg)), snd w_reg)"
proof -
  have "\<not> isl (fst w_reg)" by code_simp
  then show ?thesis by (metis prod.collapse sum.collapse(2))
qed

lemma w_log_ok: "w_log = (Inr (projr (fst w_log)), snd w_log)"
proof -
  have "\<not> isl (fst w_log)" by code_simp
  then show ?thesis by (metis prod.collapse sum.collapse(2))
qed

lemma w_emails: "Email w_lib ''Ann@Example.org'' = Inr ''ann@example.org''" "Email w_lib ''ann@example.org'' = Inr ''ann@example.org''"
  "Email w_lib ''bob@example.org'' = Inr ''bob@example.org''"
  by code_simp+

abbreviation w_accounts :: "mem \<times> mem_db \<Rightarrow> bool" where
  "w_accounts \<equiv> wf_accounts mem_view (\<lambda>d. set (db_users d)) mem_ci (wired_sessions mem_redis w_keys)"

lemma w_sessions_wired: "wired_sessions mem_redis w_keys = mem_session_store"
  by (simp add: wired_sessions_def mem_session_store_def)

lemma w_nobody_wf: "w_accounts w_nobody"
  using w_sessions_empty by (simp add: wf_accounts_def w_nobody_def unique_emails_def w_sessions_wired)

lemmas w_api = mem_server.redis_server_axioms mem_database.postgres_db_axioms mem_api.email_errors

lemma w_reg_wf: "w_accounts (snd w_reg)"
  using auth_backend.register_ok [OF wired_auth_backend [OF w_api, where keys = w_keys] w_nobody_wf w_reg_ok [unfolded w_reg_def]]
  unfolding w_reg_def by blast


theorem login_authenticates_witness:
  "\<exists>u. u \<in> set (db_users (snd (snd w_reg))) \<and> VerifyPassword w_argon (user_PasswordHash u) ''correct horse'' = Inr ()"
  using login_authenticates [OF w_api w_deps_wired w_keys_conf w_reg_wf, unfolded w_deps_auth, OF w_log_ok [unfolded w_log_def]]
  by blast

abbreviation w_ctx :: Context where
  "w_ctx \<equiv> \<lparr>ctx_authUser = None, ctx_requestID = None\<rparr>"

theorem login_failure_uniform_witness:
  "h_Login w_call (Some (ad_authService w_deps)) w_ctx \<lparr>lreq_Email = ''bob@example.org'', lreq_Password = ''correct horse''\<rparr>
     (w_state w_nobody) = (Inl (NewError CodeUnauthenticated ''unauthenticated''), w_state w_nobody)"
proof -
  let ?q = "\<lparr>lreq_Email = ''bob@example.org'', lreq_Password = ''correct horse''\<rparr>"
  have e: "Email (env_lib w_call) (lreq_Email ?q) = Inr ''bob@example.org''" using w_emails(3) by (simp add: w_call_def)
  have s: "st_stores (w_state w_nobody) = (mem_empty, \<lparr>db_users = [], db_chars = [], db_clock = 0\<rparr>)"
    by (simp add: w_state_def w_nobody_def)
  have q: "q_user_by_email mem_pg ''bob@example.org'' \<lparr>db_users = [], db_chars = [], db_clock = 0\<rparr> =
      (Inl (Sentinel ErrNoRows), \<lparr>db_users = [], db_chars = [], db_clock = 0\<rparr>)" by (simp add: mem_pg_def)
  show ?thesis
    using login_failure_uniform [OF w_deps_wired w_keys_conf e s q, of w_ctx] by (simp add: w_state_def w_nobody_def)
qed

definition w_srv :: "(mem \<times> mem_db) api_state Server" where
  "w_srv = projr (NewAPIServer (\<lambda>_. (401, [], [])) \<lparr>dec_Ping = Map.empty, dec_Register = Map.empty, dec_Login = Map.empty,
     dec_Logout = (\<lambda>_. Some ()), dec_CreateCharacter = Map.empty, dec_ListCharacters = Map.empty,
     dec_ListGameServers = Map.empty, dec_IssueJoinToken = Map.empty\<rparr> w_js w_call (\<lambda>m. ([], [])) (\<lambda>st. Inr ())
     (Some mem_redis) (Some mem_pg) w_conf)"

theorem http_protected_witness:
  "\<exists>w' st'. srv_handler w_srv ((w_request [])\<lparr>hr_Path := AuthServiceLogoutProcedure\<rparr>) (BaseWriter new_response, w_state w_nobody)
     = (Returned (), w', st') \<and> mem_view (fst (st_stores st')) = mem_view mem_empty"
proof -
  let ?cd = "\<lparr>dec_Ping = Map.empty, dec_Register = Map.empty, dec_Login = Map.empty,
     dec_Logout = (\<lambda>_. Some ()), dec_CreateCharacter = Map.empty, dec_ListCharacters = Map.empty,
     dec_ListGameServers = Map.empty, dec_IssueJoinToken = Map.empty\<rparr> :: codec"
  let ?n = "NewAPIServer (\<lambda>_. (401, [], [])) ?cd w_js w_call (\<lambda>m. ([], [])) (\<lambda>st. Inr ())
     (Some mem_redis) (Some mem_pg) w_conf"
  have "TrimSpace (APIHTTPAddr w_conf) \<noteq> []" by code_simp
  then have "\<exists>srv. ?n = Inr srv"
    by (simp add: NewAPIServer_def w_deps_wired NewServer_def newAPIServerOptions_def Let_def)
  then have srv: "?n = Inr w_srv" by (auto simp: w_srv_def)
  let ?r = "(w_request [])\<lparr>hr_Path := AuthServiceLogoutProcedure\<rparr>"
  have l: "live_bearer w_call w_keys (mem_view mem_empty) (hr_Header ?r) = None"
  proof -
    have "header_Get (hr_Header ?r) ''Authorization'' = []" by (simp add: header_Get_def w_request_def)
    then show ?thesis by (simp add: live_bearer_def BearerToken_def Cut_def)
  qed
  obtain out w' st' where h: "srv_handler w_srv ?r (BaseWriter new_response, w_state w_nobody) = (out, w', st')"
    by (metis prod.exhaust)
  have wf: "wf_sessions (wired_sessions mem_redis w_keys) (mem_view mem_empty)" using w_sessions_empty by (simp add: w_sessions_wired)
  have s: "st_stores (w_state w_nobody) = (mem_empty, \<lparr>db_users = [], db_chars = [], db_clock = 0\<rparr>)"
    by (simp add: w_state_def w_nobody_def)
  have p: "hr_Path ?r \<in> protected_procedures" by (simp add: protected_procedures_def)
  from http_protected [OF mem_server.redis_server_axioms w_keys_conf srv wf s p l h] h show ?thesis by simp
qed

definition w_login_req :: AnyRequest where
  "w_login_req = \<lparr>Procedure = AuthServiceLoginProcedure, Header = (\<lambda>k. if k = ''X-Forwarded-For'' then [''10.0.0.7''] else [])\<rparr>"

abbreviation w_limiter :: "mem RateLimiter" where
  "w_limiter \<equiv> \<lparr>rl_client = Some mem_redis, rl_keys = w_keys, rl_window = AuthRateLimitWindow w_conf, rl_limit = AuthRateLimitBurst w_conf\<rparr>"

theorem rate_limit_by_header_witness:
  "\<exists>st1 res st'. NewAuthRateLimitInterceptor w_call \<lparr>rlc_Window = AuthRateLimitWindow w_conf, rlc_Burst = AuthRateLimitBurst w_conf,
       rlc_Procedures = None, rlc_KeyFunc = None, rlc_Limiter = Some (ad_authLimiter w_deps)\<rparr>
       (\<lambda>ctx req st. (Inr (RLogout ()), st)) w_ctx w_login_req (w_state w_nobody) = (res, st') \<and>
     (res = Inr (RLogout ()) \<or> res = Inl limiter_unavailable)"
proof -
  let ?n = "\<lambda>ctx req st. (Inr (RLogout ()), st)"
  obtain res st' where r: "NewAuthRateLimitInterceptor w_call \<lparr>rlc_Window = AuthRateLimitWindow w_conf, rlc_Burst = AuthRateLimitBurst w_conf,
       rlc_Procedures = None, rlc_KeyFunc = None, rlc_Limiter = Some (ad_authLimiter w_deps)\<rparr> ?n w_ctx w_login_req (w_state w_nobody) = (res, st')"
    by (metis prod.exhaust)
  have p: "Procedure w_login_req \<in> {AuthServiceRegisterProcedure, AuthServiceLoginProcedure}" by (simp add: w_login_req_def)
  have f: "header_Get (Header w_login_req) ''Forwarded'' = []" "header_Get (Header w_login_req) ''X-Forwarded-For'' = ''10.0.0.7''"
    "TrimSpace ''10.0.0.7'' = ''10.0.0.7''" by code_simp+
  have "kb_prefix (rl_keys w_limiter) \<noteq> []" by simp
  then obtain rkey where k: "limit_key (env_lower w_call) w_limiter (env_now w_call) (Procedure w_login_req @ '':'' @ ''10.0.0.7'') = Inr rkey"
    using limit_key_Inr by blast
  have v: "mem_view (fst (st_stores (w_state w_nobody))) rkey = None"
    by (simp add: w_state_def w_nobody_def mem_view_def mem_empty_def)
  from rate_limit_by_header [OF mem_server.redis_server_axioms w_deps_wired w_keys_conf p f(1,2) _ f(3) _ refl k v r] r show ?thesis by auto
qed

end
