(* ===== verification/Handoff.thy ===== *)
theory Handoff
  imports Api_App
begin

text \<open>
  The handoff between the two processes of a deployment: the API server issues a join
  token, the client presents it to the game server that the token names, and that server
  admits the character. Both servers are the wired ones, on one Redis and one database.
\<close>

section \<open>Lemmas: choosing a server\<close>

abbreviation wired_registry :: "'s redis \<Rightarrow> KeyBuilder \<Rightarrow> 's GameServerStore" where
  "wired_registry rc keys \<equiv> \<lparr>gss_client = Some rc, gss_keys = keys, gss_serverTTL = DefaultServerTTL\<rparr>"

lemma config_prefix: "NewKeyBuilderFromConfig conf = Inr keys \<Longrightarrow> kb_prefix keys \<noteq> []"
  by (auto simp: NewKeyBuilderFromConfig_def NewKeyBuilder_def bindE_eq_Inr split: if_splits)

lemma server_at_valid:
  assumes "server_at js k m i = Inr g"
  shows "key_segment maxIDBytes (TrimSpace (gs_ID g)) \<and> (\<exists>a. ServerAddress (gs_Addr g) = Inr a)"
  using assms by (auto simp: server_at_def gameServerOf_Inr split: sum.splits option.splits rval.splits)

lemma select_server_valid:
  assumes "redis_server rc view" and "wf_keys keys (view (fst w))" and "kb_prefix keys \<noteq> []"
    and "selectServer (wired_games js rc pg keys) gid w = (Inr server, w')"
  shows "view (fst w') = view (fst w) \<and> snd w' = snd w \<and> (\<exists>i. server_at (snd js) keys (view (fst w)) i = Inr server)"
proof (cases "gid = []")
  case False
  with assms(4) have g: "GetGameServerByID (snd js) (Some (wired_registry rc keys)) gid (fst w) = (Inr server, fst w')"
    and "snd w' = snd w"
    by (simp_all add: selectServer_def wired_games_def game_server_store_i_def on_fst_cases)
  with redis_server.get_by_id_result [OF assms(1) g] assms(2,3) show ?thesis by auto
next
  case True
  let ?list = "on_fst (ListGameServers (snd js) (Some (wired_registry rc keys))) w"
  obtain q w1 where q: "?list = (q, w1)" by (cases ?list)
  with assms(4) True obtain servers where "q = Inr (server # servers)" and w1: "w1 = w'"
    by (cases q; cases "projr q") (simp_all add: selectServer_def wired_games_def game_server_store_i_def)
  with q have l: "ListGameServers (snd js) (Some (wired_registry rc keys)) (fst w) = (Inr (server # servers), fst w')"
    and f: "snd w' = snd w" by (simp_all add: on_fst_cases)
  obtain ids where "server # servers = sort_key gs_ID (List.map_filter (visible (snd js) keys (view (fst w))) ids)"
    and v: "view (fst w') = view (fst w)"
    by (rule redis_server.list_servers_result [OF assms(1) l]) (use assms(2,3) in auto)
  then have "server \<in> set (List.map_filter (visible (snd js) keys (view (fst w))) ids)"
    by (metis list.set_intros(1) set_sort)
  then show ?thesis using v f by (auto simp: set_map_filter visible_Some)
qed

section \<open>Lemmas: what issuing a token establishes\<close>

lemma issue_wired:
  assumes "redis_server rc view" and "postgres_db pg users chars canon ci"
    and "wf_keys keys (view (fst w))" and "kb_prefix keys \<noteq> []"
    and "IssueJoinToken rand now (Some (wired_games js rc pg keys)) userID characterID gid w = (Inr res, w')"
  obtains ch s2 x server where "key_segment maxIDBytes (TrimSpace userID)" and "key_segment maxIDBytes (TrimSpace characterID)"
    and "ch \<in> chars (snd w)" and "canon (TrimSpace characterID) = Some (char_ID ch)" and "char_UserID ch = TrimSpace userID"
    and "NewJoinToken rand = Inr (ij_JoinToken res)"
    and "ij_GameServerID res = gs_ID server" and "ij_GameServerAddr res = gs_Addr server"
    and "\<exists>i. server_at (snd js) keys (view (fst w)) i = Inr server" and "view s2 = view (fst w)"
    and "CreateJoinToken (fst js) (Some (NewJoinTokenStore (Some rc) keys)) now
       \<lparr>jt_Token = ij_JoinToken res, jt_UserID = TrimSpace userID, jt_CharacterID = TrimSpace characterID,
        jt_ServerID = gs_ID server, jt_ServerAddr = gs_Addr server, jt_ExpiresAt = now + DefaultJoinTokenTTL\<rparr> s2 = (Inr x, fst w')"
proof -
  let ?svc = "wired_games js rc pg keys"
  obtain ch w1 server w2 x g where ids: "key_segment maxIDBytes (TrimSpace userID)" "key_segment maxIDBytes (TrimSpace characterID)"
    and ch: "ch_GetCharacterByID (gsv_characters ?svc) (TrimSpace characterID) w = (Inr ch, w1)"
    and own: "char_UserID ch = TrimSpace userID" and sel: "selectServer ?svc g w1 = (Inr server, w2)"
    and tok: "NewJoinToken rand = Inr (ij_JoinToken res)" and srv: "ij_GameServerID res = gs_ID server"
      "ij_GameServerAddr res = gs_Addr server"
    and cr: "ji_CreateJoinToken (gsv_joinTokens ?svc) now
       \<lparr>jt_Token = ij_JoinToken res, jt_UserID = TrimSpace userID, jt_CharacterID = TrimSpace characterID,
        jt_ServerID = gs_ID server, jt_ServerAddr = gs_Addr server, jt_ExpiresAt = now + gsv_joinTokenTTL ?svc\<rparr> w2 = (Inr x, w')"
    by (rule IssueJoinToken_Inr [OF assms(5)])
  have c: "GetCharacterByID (Some pg) (TrimSpace characterID) (snd w) = (Inr ch, snd w1)" and f: "fst w1 = fst w"
    using ch by (simp_all add: wired_games_def character_store_i_def on_snd_cases)
  have "wf_keys keys (view (fst w1))" using assms(3) f by simp
  note s = select_server_valid [OF assms(1) this assms(4) sel]
  show ?thesis
    by (rule that [OF ids _ _ own tok srv, of "fst w2" x])
       (use postgres_db.get_character_id [OF assms(2) c] s f cr in
         \<open>auto simp: wired_games_def join_token_store_i_def on_fst_cases\<close>)
qed

lemma live_bearer_trim:
  assumes "redis_server rc view" and "wf_sessions (wired_sessions rc keys) (view s)"
    and "live_bearer env keys (view s) hdr = Some u"
  shows "TrimSpace u = u"
proof -
  have "key_segment maxIDBytes u"
    using assms(2,3) unfolding wf_sessions_def owners_valid_def wired_sessions_def live_bearer_def
    by (auto split: sum.splits)
  then show ?thesis by (rule key_segment_trim)
qed

section \<open>Properties\<close>


section \<open>Lemmas: an issued token on the game server\<close>

context join_backend
begin

text \<open>A matching token admits its bearer when the character is free and both stores answer.\<close>

lemma admits_free:
  assumes "wf (g_store g)" and "holder (g_store g) (TrimSpace (jt_CharacterID tok)) = None"
    and "unmarshalJoinRequest pb data = Inr \<lparr>jr_JoinToken = t, jr_CharacterId = jt_CharacterID tok\<rparr>"
    and "jh_ConsumeJoinToken h t (g_store g) = (Inr tok, s1)" and "jt_ServerID tok = jh_serverID h"
    and "jh_AcquireCharacterLock h (jt_CharacterID tok) (jh_serverID h) (jh_lockTTL h) s1 = (Inr b, s2)"
    and "jh_GetCharacterByID h (jt_CharacterID tok) s2 = (Inr ch, s3)"
  shows "HandleJoinRequest pb h peer data g = admit pb peer tok ch (g\<lparr>g_store := s3\<rparr>)"
    and "holder s3 (TrimSpace (jt_CharacterID tok)) = Some (TrimSpace (jh_serverID h))"
proof -
  have s1: "wf s1" "holder s1 = holder (g_store g)" using consume_frame [OF assms(1,4)] by simp_all
  note acq = acquire_ok [OF s1(1) lock_ttl assms(6)]
  have b: b using acq s1(2) assms(2) by simp
  have "wf s2" by (rule wf_acquire [OF s1(1) lock_ttl assms(6)])
  then have "holder s3 = holder s2" using load_frame assms(7) by blast
  with acq b show "holder s3 (TrimSpace (jt_CharacterID tok)) = Some (TrimSpace (jh_serverID h))" by simp
  show "HandleJoinRequest pb h peer data g = admit pb peer tok ch (g\<lparr>g_store := s3\<rparr>)"
    using assms(3-7) b by (simp add: HandleJoinRequest_def)
qed

end

text \<open>What the API stored is what the game server reads back within 60 seconds.\<close>

lemma issued_token_consumed:
  assumes "redis_clock rc view pass" and "postgres_db pg users chars canon ci"
    and "json_roundtrip token_payload_ok js" and "random_ok rand"
    and "kb_prefix keys \<noteq> []" and "wf_keys keys (view s)"
    and "IssueJoinToken rand now (Some (wired_games (js, jsv) rc pg keys)) userID characterID gid (s, d) = (Inr res, w)"
    and "list_all is_ascii [TrimSpace userID, TrimSpace characterID, ij_GameServerID res, ij_GameServerAddr res]"
    and "TrimSpace (ij_GameServerID res) = ij_GameServerID res"
    and "0 \<le> now" and "now + DefaultJoinTokenTTL < 2 ^ 63" and "0 \<le> ms" and "ms < 60000"
    and "ConsumeJoinToken js (Some (NewJoinTokenStore (Some rc) keys)) (ij_JoinToken res) (pass ms (fst w)) = (r, s')"
    and "\<not> (\<exists>e. r = Inl e \<and> errors_is e ErrUnavailable)"
  shows "r = Inr \<lparr>jt_Token = ij_JoinToken res, jt_UserID = TrimSpace userID, jt_CharacterID = TrimSpace characterID,
      jt_ServerID = ij_GameServerID res, jt_ServerAddr = ij_GameServerAddr res, jt_ExpiresAt = now + DefaultJoinTokenTTL\<rparr>"
    and "wf_keys keys (view (pass ms (fst w)))" and "key_segment maxIDBytes (TrimSpace characterID)"
proof -
  have rs: "redis_server rc view" using assms(1) by (simp add: redis_clock_def)
  let ?ts = "NewJoinTokenStore (Some rc) keys"
  let ?t = "\<lparr>jt_Token = ij_JoinToken res, jt_UserID = TrimSpace userID, jt_CharacterID = TrimSpace characterID,
    jt_ServerID = ij_GameServerID res, jt_ServerAddr = ij_GameServerAddr res, jt_ExpiresAt = now + DefaultJoinTokenTTL\<rparr>"
  have "wf_keys keys (view (fst (s, d)))" using assms(6) by simp
  then obtain s2 x server where ids: "key_segment maxIDBytes (TrimSpace userID)" "key_segment maxIDBytes (TrimSpace characterID)"
    and tok: "NewJoinToken rand = Inr (ij_JoinToken res)" and srv: "ij_GameServerID res = gs_ID server"
      "ij_GameServerAddr res = gs_Addr server" "\<exists>i. server_at jsv keys (view s) i = Inr server" and v2: "view s2 = view s"
    and cr: "CreateJoinToken js (Some ?ts) now ?t s2 = (Inr x, fst w)"
    by (rule issue_wired [OF rs assms(2) _ assms(5,7)]) auto
  from srv(3) server_at_valid obtain a where a: "key_segment maxIDBytes (gs_ID server)" "ServerAddress (gs_Addr server) = Inr a"
    using assms(9) srv(1) by metis
  have segs: "list_all (key_segment maxIDBytes) [jt_Token ?t, jt_UserID ?t, jt_CharacterID ?t, jt_ServerID ?t]"
    using ids a srv url_token_segment(2) [OF tok [unfolded NewJoinToken_def JoinTokenBytes_def] assms(4)] by simp
  have life: "ms < px_ms rc (Until now (jt_ExpiresAt ?t))"
    using assms(10,11,13) redis_server.px_ms [OF rs, of "60 * Second"]
    by (simp add: Until_exact DefaultJoinTokenTTL_def Second_def Millisecond_def)
  have c: "ConsumeJoinToken js (Some ?ts) (jt_Token ?t) (pass ms (fst w)) = (r, s')" using assms(14) by simp
  have "r = Inr ?t \<or> (\<exists>e. r = Inl e \<and> errors_is e ErrUnavailable)"
    by (rule created_token_consumed [OF assms(1,3) _ cr _ assms(10) _ segs _ assms(12) life c])
       (use assms(6,8,11) v2 srv a in \<open>simp_all add: NewJoinTokenStore_def\<close>)
  with assms(15) show "r = Inr ?t" by blast
  obtain key v where "key_JoinToken keys (ij_JoinToken res) = Inr key" "view (fst w) = (view s2)(key \<mapsto> v)" "\<exists>z t. v = (RStr z, t)"
    by (rule redis_server.create_token_result [OF rs cr]) (auto simp: NewJoinTokenStore_def)
  then have "wf_keys keys (view (fst w))" using assms(6) v2 wf_token_upd(1) by auto
  then show "wf_keys keys (view (pass ms (fst w)))"
    using redis_clock.pass_view [OF assms(1,12)] by (simp add: wf_keys_age)
  show "key_segment maxIDBytes (TrimSpace characterID)" by (rule ids(2))
qed

section \<open>Property: the handoff works\<close>

text \<open>
  C3. The handoff works: a token that the API server issued is accepted by the game
  server it names for 60 seconds. When Redis and PostgreSQL answer and nobody holds the
  character, the peer that presents the token is in the game as the character of the
  account, and the character is locked for that server.
\<close>

theorem handoff_admits:
  assumes "redis_clock rc view pass" and "postgres_db pg users chars canon ci"
    and "json_roundtrip token_payload_ok js" and "random_ok rand"
    and "newAPIDeps (js, jsv) env (Some rc) (Some pg) conf = Inr deps" and "NewKeyBuilderFromConfig conf = Inr keys"
    and "wf_keys keys (view s)"
    and "IssueJoinToken rand now (Some (ad_gameService deps)) userID characterID gid (s, d) = (Inr res, w)"
    and "app_NewGameServer new_host js jsv ready (Some rc) (Some pg) conf (ij_GameServerID res) = Inr gs"
    and "list_all is_ascii [TrimSpace userID, TrimSpace characterID, ij_GameServerID res, ij_GameServerAddr res]"
    and "TrimSpace (ij_GameServerID res) = ij_GameServerID res"
    and "0 \<le> now" and "now + DefaultJoinTokenTTL < 2 ^ 63" and "0 \<le> ms" and "ms < 60000"
    and "g_store g = (pass ms (fst w), snd w)" and "holder_stores keys view (g_store g) (TrimSpace characterID) = None"
    and "unmarshalJoinRequest pb data = Inr \<lparr>jr_JoinToken = ij_JoinToken res, jr_CharacterId = TrimSpace characterID\<rparr>"
    and "jh_ConsumeJoinToken (joinHandler gs) (ij_JoinToken res) (g_store g) = (r1, s1)"
    and "\<not> (\<exists>e. r1 = Inl e \<and> errors_is e ErrUnavailable)"
    and "jh_AcquireCharacterLock (joinHandler gs) (TrimSpace characterID) (ij_GameServerID res) DefaultCharacterLockTTL s1 = (Inr b, s2)"
    and "jh_GetCharacterByID (joinHandler gs) (TrimSpace characterID) s2 = (Inr ch, s3)"
    and "g' = HandleJoinRequest pb (joinHandler gs) peer data g"
  shows "\<exists>se. fmlookup (g_sessions g') peer = Some se \<and> sess_UserID se = TrimSpace userID \<and> sess_CharacterID se = char_ID ch \<and>
    holder_stores keys view (g_store g') (TrimSpace characterID) = Some (ij_GameServerID res)"
proof -
  have rs: "redis_server rc view" using assms(1) by (simp add: redis_clock_def)
  obtain ls where h: "joinHandler gs = game_handler js (NewJoinTokenStore (Some rc) keys) ls pg DefaultCharacterLockTTL (ij_GameServerID res)"
    by (rule app_NewGameServer_Inr [OF assms(9)]) (use assms(6) in \<open>simp add: NewJoinTokenStore_def\<close>)
  then have hs: "jh_serverID (joinHandler gs) = ij_GameServerID res" "jh_lockTTL (joinHandler gs) = DefaultCharacterLockTTL"
    by (simp_all add: game_handler_def NewJoinHandler_def)
  have c: "ConsumeJoinToken js (Some (NewJoinTokenStore (Some rc) keys)) (ij_JoinToken res) (pass ms (fst w)) = (r1, fst s1)"
    using assms(16,19) by (simp add: h game_handler_def NewJoinHandler_def on_fst_cases)
  note tok = issued_token_consumed [OF assms(1-4) config_prefix [OF assms(6)] assms(7)
      assms(8) [unfolded newAPIDeps_Inr(4) [OF assms(5,6)]] assms(10-15) c assms(20)]
  have wf: "wf_base keys view (g_store g)" using tok(2) assms(16) by (simp add: wf_base_def)
  have trim: "TrimSpace (TrimSpace characterID) = TrimSpace characterID" by (rule key_segment_trim [OF tok(3)])
  note adm = join_backend.admits_free [OF wired_handler(2) [OF rs assms(2,9,6)] wf _ _ assms(19) [unfolded tok(1)], of pb data b s2 ch s3]
  show ?thesis
    using adm assms(11,17,18,21-23) hs trim by (simp add: admit_def Let_def Add_def)
qed

section \<open>Witnesses\<close>

text \<open>The registry and the sessions share one Redis without disturbing each other.\<close>

lemma register_keeps_sessions:
  assumes "redis_server rc view" and "wf_sessions (wired_sessions rc keys) (view s)"
    and "RegisterGameServer js (Some (wired_registry rc keys)) now g s = (Inr u, s')"
  shows "wf_sessions (wired_sessions rc keys) (view s')"
proof -
  have wf: "wf_keys keys (view s)" using assms(2) by (simp add: wf_sessions_def wired_sessions_def)
  obtain key ikey v v' where k: "key_Server keys (gs_ID g) = Inr key" "ServersIndex keys = Inr ikey"
    and v: "view s' = (view s)(key \<mapsto> v, ikey \<mapsto> v')"
    by (rule redis_server.register_result [OF assms(1,3)]) (use wf in \<open>auto simp: DefaultServerTTL_def Second_def\<close>)
  note other = sessions_other [OF k(1) [unfolded key_Server_def]] sessions_other [OF k(2) [unfolded ServersIndex_def]]
  have e: "session_entry keys (view s') = session_entry keys (view s)" "index_entry keys (view s') = index_entry keys (view s)"
    unfolding v by (simp_all add: other)
  have "wf_keys keys (view s')"
    using redis_server.wf_register [OF assms(1,3)] wf by (simp add: DefaultServerTTL_def Second_def)
  moreover have "owners_valid keys (view s') = owners_valid keys (view s)" by (simp add: owners_valid_def session_owner_def e)
  ultimately show ?thesis
    using assms(2) sessions_indexed_cong [OF e] by (simp add: wf_sessions_def wired_sessions_def)
qed

lemma w_registry: "wired_registry mem_redis w_keys = mem_server_store"
  by (simp add: mem_server_store_def)

definition w_session_state :: "mem \<times> mem_db" where
  "w_session_state = (snd (CreateSession (Some mem_session_store) ''tok'' ''a1'' w_registered), w_mem_db)"

lemma w_session_state_wf: "wf_sessions (wired_sessions mem_redis w_keys) (mem_view (fst w_session_state))"
proof -
  have "wf_sessions (wired_sessions mem_redis w_keys) (mem_view w_registered)"
    by (rule register_keeps_sessions [OF mem_server.redis_server_axioms _ w_server_registered [folded w_registry]])
       (simp add: w_sessions_wired w_sessions_empty)
  moreover have "key_segment maxIDBytes ''a1''" by code_simp
  ultimately show ?thesis
    using mem_sessions.wf_CreateSession [of w_registered "''a1''" "''tok''"] by (simp add: w_sessions_wired w_session_state_def prod_eq_iff)
qed

definition w_codec :: codec where
  "w_codec = \<lparr>dec_Ping = Map.empty, dec_Register = Map.empty, dec_Login = Map.empty, dec_Logout = Map.empty,
     dec_CreateCharacter = Map.empty, dec_ListCharacters = Map.empty, dec_ListGameServers = Map.empty,
     dec_IssueJoinToken = (\<lambda>b. Some \<lparr>jreq_CharacterId = b, jreq_GameServerId = []\<rparr>)\<rparr>"

definition w_bearer :: header where
  "w_bearer = (\<lambda>k. if k = ''Authorization'' then [''Bearer tok''] else [])"

abbreviation w_call_issue :: "AnyResponse rpc \<times> (mem \<times> mem_db) api_state" where
  "w_call_issue \<equiv> NewUnaryHandler GameServiceIssueJoinTokenProcedure (dec_IssueJoinToken w_codec)
     (game_IssueJoinToken (NewGameHandler w_call (Some (ad_gameService w_deps)))) RIssueJoinToken
     (api_interceptors w_call w_conf w_deps) w_ctx w_bearer ''b1'' (w_state w_session_state)"

definition w_inner_issue :: "AnyResponse rpc \<times> (mem \<times> mem_db) api_state" where
  "w_inner_issue = NewAuthInterceptor w_call (Some (session_store_i (wired_sessions mem_redis w_keys))) [Some PublicProcedures]
     (\<lambda>ctx req st. case h_IssueJoinToken w_call (Some (wired_games w_js mem_redis mem_pg w_keys)) ctx
         \<lparr>jreq_CharacterId = ''b1'', jreq_GameServerId = []\<rparr> st of (r, st') \<Rightarrow> (map_sum id RIssueJoinToken r, st'))
     w_ctx \<lparr>Procedure = GameServiceIssueJoinTokenProcedure, Header = w_bearer\<rparr> (w_state w_session_state)"


text \<open>A handoff from the API server to the game server \<open>s1\<close>, one second apart.\<close>

definition w_issued :: "IssueJoinTokenResult result \<times> mem \<times> mem_db" where
  "w_issued = IssueJoinToken w_random 0 (Some (wired_games w_js mem_redis mem_pg w_keys)) ''a1'' ''b1'' [] (w_registered, w_mem_db)"

definition w_res :: IssueJoinTokenResult where
  "w_res = projr (fst w_issued)"

definition w_store :: "mem \<times> mem_db" where
  "w_store = (mem_pass 1000 (fst (snd w_issued)), snd (snd w_issued))"

definition w_before :: "(nat, mem \<times> mem_db) game" where
  "w_before = initial_game w_store"

definition w_consume_step :: "JoinToken result \<times> mem \<times> mem_db" where
  "w_consume_step = jh_ConsumeJoinToken mem_handler (ij_JoinToken w_res) w_store"

definition w_acquire_step :: "bool result \<times> mem \<times> mem_db" where
  "w_acquire_step = jh_AcquireCharacterLock mem_handler ''b1'' ''s1'' DefaultCharacterLockTTL (snd w_consume_step)"

definition w_load_step :: "Character result \<times> mem \<times> mem_db" where
  "w_load_step = jh_GetCharacterByID mem_handler ''b1'' (snd w_acquire_step)"

lemma w_issued_ok: "\<not> isl (fst w_issued)" and w_res_id: "ij_GameServerID w_res = ''s1''"
  and w_res_ascii: "is_ascii (ij_GameServerAddr w_res)" "is_ascii (ij_JoinToken w_res)"
proof -
  have "map_sum (\<lambda>_. ()) (\<lambda>r. (ij_GameServerID r, is_ascii (ij_GameServerAddr r), is_ascii (ij_JoinToken r))) (fst w_issued) =
      Inr (''s1'', True, True)"
    by code_simp
  then show "\<not> isl (fst w_issued)" and "ij_GameServerID w_res = ''s1''" and "is_ascii (ij_GameServerAddr w_res)"
    and "is_ascii (ij_JoinToken w_res)"
    by (cases "fst w_issued"; simp add: w_res_def)+
qed

lemma w_consume_ok: "\<not> isl (fst w_consume_step)"
  by code_simp

lemma w_acquire_ok: "\<not> isl (fst w_acquire_step)"
  by code_simp

text \<open>Loading reads the database only, which the calls on Redis leave alone.\<close>

lemma w_load_ok: "\<not> isl (fst w_load_step)"
proof -
  have "snd (snd w_issued) = w_mem_db" by code_simp
  then have "snd (snd w_acquire_step) = w_mem_db"
    by (simp add: w_acquire_step_def w_consume_step_def w_store_def mem_handler_def game_handler_def NewJoinHandler_def on_fst_def split: prod.split)
  moreover have "\<not> isl (fst (GetCharacterByID (Some mem_pg) ''b1'' w_mem_db))" by code_simp
  ultimately show ?thesis
    by (auto simp: w_load_step_def mem_handler_def game_handler_def NewJoinHandler_def on_snd_def split: prod.split)
qed

lemmas w_res_fields = w_res_id w_res_ascii(1)

lemma Inr_pair: "\<not> isl (fst p) \<Longrightarrow> p = (Inr (projr (fst p)), snd p)"
  by (metis prod.collapse sum.collapse(2))

lemma w_registered_keys: "wf_keys w_keys (mem_view w_registered)"
  using w_registered_wf by (simp add: mem_server_store_def)

theorem handoff_admits_witness:
  "\<exists>se. fmlookup (g_sessions (HandleJoinRequest w_proto mem_handler 1 (frame [ij_JoinToken w_res, ''b1'']) w_before)) 1 = Some se \<and>
     sess_UserID se = ''a1''"
proof -
  let ?g = "HandleJoinRequest w_proto (joinHandler w_gs) 1 (frame [ij_JoinToken w_res, ''b1'']) w_before"
  have t: "TrimSpace ''a1'' = ''a1''" "TrimSpace ''b1'' = ''b1''" "TrimSpace ''s1'' = ''s1''" by code_simp+
  have i: "IssueJoinToken w_random 0 (Some (ad_gameService w_deps)) ''a1'' ''b1'' [] (w_registered, w_mem_db) = (Inr w_res, snd w_issued)"
    using Inr_pair [OF w_issued_ok]
    by (simp add: w_res_def newAPIDeps_Inr(4) [OF w_deps_wired w_keys_conf] w_issued_def [symmetric])
  have a: "list_all is_ascii [TrimSpace ''a1'', TrimSpace ''b1'', ij_GameServerID w_res, ij_GameServerAddr w_res]"
    using w_res_fields by (simp add: t is_ascii_def)
  have s: "g_store w_before = w_store" by (simp add: w_before_def initial_game_def)
  have st: "g_store w_before = (mem_pass 1000 (fst (snd w_issued)), snd (snd w_issued))" unfolding s by (rule w_store_def)
  have h: "holder_stores w_keys mem_view (g_store w_before) (TrimSpace ''b1'') = None" unfolding s t by code_simp
  have u: "unmarshalJoinRequest w_proto (frame [ij_JoinToken w_res, ''b1'']) =
      Inr \<lparr>jr_JoinToken = ij_JoinToken w_res, jr_CharacterId = TrimSpace ''b1''\<rparr>"
    by (simp add: t unmarshalJoinRequest_def w_proto_def unframe_frame w_res_ascii(2) is_ascii_def [of "''b1''"])
  have c: "jh_ConsumeJoinToken (joinHandler w_gs) (ij_JoinToken w_res) (g_store w_before) = (Inr (projr (fst w_consume_step)), snd w_consume_step)"
    using Inr_pair [OF w_consume_ok] by (simp add: s w_gs_handler w_consume_step_def [symmetric])
  have b: "jh_AcquireCharacterLock (joinHandler w_gs) (TrimSpace ''b1'') (ij_GameServerID w_res) DefaultCharacterLockTTL (snd w_consume_step) =
      (Inr (projr (fst w_acquire_step)), snd w_acquire_step)"
    using Inr_pair [OF w_acquire_ok] by (simp add: t w_gs_handler w_res_fields w_acquire_step_def [symmetric])
  have l: "jh_GetCharacterByID (joinHandler w_gs) (TrimSpace ''b1'') (snd w_acquire_step) = (Inr (projr (fst w_load_step)), snd w_load_step)"
    using Inr_pair [OF w_load_ok] by (simp add: t w_gs_handler w_load_step_def [symmetric])
  have gs: "app_NewGameServer (\<lambda>_ _ _. Inr ()) mem_token_json mem_server_json (\<lambda>_. Inr ())
     (Some mem_redis) (Some mem_pg) w_conf (ij_GameServerID w_res) = Inr w_gs" unfolding w_res_fields by (rule w_gs_wired)
  have ttl: "(0::int) + DefaultJoinTokenTTL < 2 ^ 63" by (simp add: DefaultJoinTokenTTL_def Second_def)
  have id: "TrimSpace (ij_GameServerID w_res) = ij_GameServerID w_res" by (simp add: w_res_fields t)
  from handoff_admits [OF mem_clocked.redis_clock_axioms mem_database.postgres_db_axioms mem_token_json_roundtrip w_libraries(2)
      w_deps_wired w_keys_conf w_registered_keys i gs a id order_refl ttl _ _ st h u c _ b l refl]
  show ?thesis by (auto simp: t w_gs_handler)
qed

end
