(* ===== verification/Cluster.thy ===== *)
theory Cluster
  imports Game_App Sessions
begin

text \<open>
  A deployment with several game servers on one Redis and one database. The handler of a
  join request is cut at its store calls, so that the calls of different processes may
  interleave, and time may pass between any two of them. The theory shows that the pieces
  put together are the handler of \<open>internal/game/join.go\<close>, and that as long as nobody plays
  longer than the time to live of a lock, no character is in the game twice, on whichever
  servers.
\<close>

section \<open>Definitions: the join handler, one store call at a time\<close>

text \<open>Where the main loop of a process stands: between events, or before a store call of the handler.\<close>

datatype 'p pc =
    Idle
  | Consuming 'p JoinRequest
  | Locking 'p JoinToken
  | Loading 'p JoinToken
  | Releasing 'p JoinToken

definition begin_join :: "proto \<Rightarrow> 'p \<Rightarrow> string \<Rightarrow> ('p, 's) game \<Rightarrow> 'p pc \<times> ('p, 's) game" where
  "begin_join pb peer data g =
     (case unmarshalJoinRequest pb data of
        Inl e \<Rightarrow> (Idle, sendJoinResponse pb peer False ''invalid join request'' g)
      | Inr req \<Rightarrow> (Consuming peer req, g))"

fun join_call :: "proto \<Rightarrow> 's JoinHandler \<Rightarrow> 'p pc \<Rightarrow> ('p, 's) game \<Rightarrow> 'p pc \<times> ('p, 's) game" where
  "join_call pb h Idle g = (Idle, g)"
| "join_call pb h (Consuming peer req) g =
     (case jh_ConsumeJoinToken h (jr_JoinToken req) (g_store g) of
        (Inl e, s1) \<Rightarrow> (Idle, sendJoinResponse pb peer False ''invalid or expired join token'' (g\<lparr>g_store := s1\<rparr>))
      | (Inr tok, s1) \<Rightarrow>
          if jt_CharacterID tok \<noteq> jr_CharacterId req then
            (Idle, sendJoinResponse pb peer False ''character ID mismatch'' (g\<lparr>g_store := s1\<rparr>))
          else if jt_ServerID tok \<noteq> jh_serverID h then
            (Idle, sendJoinResponse pb peer False ''join token is for a different server'' (g\<lparr>g_store := s1\<rparr>))
          else (Locking peer tok, g\<lparr>g_store := s1\<rparr>))"
| "join_call pb h (Locking peer tok) g =
     (case jh_AcquireCharacterLock h (jt_CharacterID tok) (jh_serverID h) (jh_lockTTL h) (g_store g) of
        (Inl e, s2) \<Rightarrow> (Idle, sendJoinResponse pb peer False ''internal error'' (g\<lparr>g_store := s2\<rparr>))
      | (Inr acquired, s2) \<Rightarrow>
          if \<not> acquired then
            (Idle, sendJoinResponse pb peer False ''character is already in-game'' (g\<lparr>g_store := s2\<rparr>))
          else (Loading peer tok, g\<lparr>g_store := s2\<rparr>))"
| "join_call pb h (Loading peer tok) g =
     (case jh_GetCharacterByID h (jt_CharacterID tok) (g_store g) of
        (Inl e, s3) \<Rightarrow> (Releasing peer tok, g\<lparr>g_store := s3\<rparr>)
      | (Inr ch, s3) \<Rightarrow> (Idle, admit pb peer tok ch (g\<lparr>g_store := s3\<rparr>)))"
| "join_call pb h (Releasing peer tok) g =
     (case jh_ReleaseCharacterLock h (jt_CharacterID tok) (jh_serverID h) (g_store g) of
        (_, s4) \<Rightarrow> (Idle, sendJoinResponse pb peer False ''failed to load character'' (g\<lparr>g_store := s4\<rparr>)))"

text \<open>The store calls that are still to come at most, and the peer whose join is pending.\<close>

fun pc_rank :: "'p pc \<Rightarrow> nat" where
  "pc_rank Idle = 0"
| "pc_rank (Consuming p req) = 4"
| "pc_rank (Locking p tok) = 3"
| "pc_rank (Loading p tok) = 2"
| "pc_rank (Releasing p tok) = 1"

fun pc_peer :: "'p pc \<Rightarrow> 'p option" where
  "pc_peer Idle = None"
| "pc_peer (Consuming p req) = Some p"
| "pc_peer (Locking p tok) = Some p"
| "pc_peer (Loading p tok) = Some p"
| "pc_peer (Releasing p tok) = Some p"

text \<open>The calls of one join, where \<open>f\<close> is what the others did to the stores before each call.\<close>

fun join_among :: "proto \<Rightarrow> 's JoinHandler \<Rightarrow> ('s \<Rightarrow> 's) list \<Rightarrow> 'p pc \<times> ('p, 's) game \<Rightarrow> 'p pc \<times> ('p, 's) game" where
  "join_among pb h [] x = x"
| "join_among pb h (f # fs) (c, g) = join_among pb h fs (join_call pb h c (g\<lparr>g_store := f (g_store g)\<rparr>))"

text \<open>What the peer is sent, and what else a join that ended has done to the game.\<close>

definition response_actions :: "proto \<Rightarrow> 'p \<Rightarrow> bool \<Rightarrow> string \<Rightarrow> 'p action list" where
  "response_actions pb peer ok reason =
     (case marshalJoinResponse pb \<lparr>rsp_Ok = ok, rsp_Reason = reason\<rparr> of
        Inl e \<Rightarrow> [Disconnect peer]
      | Inr data \<Rightarrow> SendBytes peer data channelReliable PacketFlagReliable # (if ok then [] else [Disconnect peer]))"

definition answered :: "proto \<Rightarrow> 'p \<Rightarrow> ('p, 's) game \<Rightarrow> ('p, 's) game \<Rightarrow> bool" where
  "answered pb peer g g' =
     (\<exists>ok reason. g_out g' = g_out g @ response_actions pb peer ok reason \<and>
        (if ok then peer |\<in>| fmdom (g_sessions g') \<and> fmdrop peer (g_sessions g') = fmdrop peer (g_sessions g)
         else g_sessions g' = g_sessions g \<and> g_world g' = g_world g))"

section \<open>Definitions: the cluster\<close>

text \<open>
  A process: its loop, where it stands, and two ghosts, the time at which its pending join
  took the lock and the time at which the join of each peer took its lock.
\<close>

record ('p, 's) node =
  nd_loop :: "('p, 's) loop"
  nd_pc :: "'p pc"
  nd_taken :: int
  nd_since :: "'p \<Rightarrow> int"

text \<open>The shared stores, the clock in milliseconds, and the running processes by server ID.\<close>

record ('p, 's) cluster =
  cs_stores :: 's
  cs_now :: int
  cs_nodes :: "string \<Rightarrow> ('p, 's) node option"

definition fresh_node :: "time \<Rightarrow> 's \<Rightarrow> ('p, 's) node" where
  "fresh_node start s = \<lparr>nd_loop = \<lparr>l_game = initial_game s, lastTick = start, tickSinceBroadcast = 0\<rparr>,
     nd_pc = Idle, nd_taken = 0, nd_since = (\<lambda>_. 0)\<rparr>"

text \<open>A process works on the shared stores; what it leaves there is what the others find.\<close>

definition local_game :: "('p, 's) cluster \<Rightarrow> ('p, 's) node \<Rightarrow> ('p, 's) game" where
  "local_game cs nd = (l_game (nd_loop nd))\<lparr>g_store := cs_stores cs\<rparr>"

definition with_game :: "('p, 's) game \<Rightarrow> ('p, 's) node \<Rightarrow> ('p, 's) node" where
  "with_game g nd = nd\<lparr>nd_loop := (nd_loop nd)\<lparr>l_game := g\<rparr>\<rparr>"

definition put_node :: "string \<Rightarrow> ('p, 's) node \<Rightarrow> ('p, 's) cluster \<Rightarrow> ('p, 's) cluster" where
  "put_node i nd cs = cs\<lparr>cs_stores := g_store (l_game (nd_loop nd)), cs_nodes := (cs_nodes cs)(i \<mapsto> nd)\<rparr>"

text \<open>The ghosts after a store call of the handler.\<close>

definition note_call :: "int \<Rightarrow> 'p pc \<Rightarrow> 'p pc \<Rightarrow> ('p, 's) node \<Rightarrow> ('p, 's) node" where
  "note_call now old new nd =
     (case old of
        Locking p tok \<Rightarrow> nd\<lparr>nd_pc := new, nd_taken := now\<rparr>
      | Loading p tok \<Rightarrow> nd\<lparr>nd_pc := new, nd_since := (if new = Idle then (nd_since nd)(p := nd_taken nd) else nd_since nd)\<rparr>
      | _ \<Rightarrow> nd\<lparr>nd_pc := new\<rparr>)"

definition is_join :: "'p event \<Rightarrow> bool" where
  "is_join ev = (case ev of EventReceive p ch data \<Rightarrow> ch = channelReliable \<and> data \<noteq> [] | _ \<Rightarrow> False)"

definition after_event :: "proto \<Rightarrow> 's GameServerProc \<Rightarrow> 'p round \<Rightarrow> ('p, 's) loop \<Rightarrow> ('p, 's) loop" where
  "after_event pb gs r l = broadcast_phase pb r (tick_phase gs r l)"

text \<open>
  The steps: a process starts with a new server ID, handles an event that is no join
  request, receives a join request, makes the next store call of the handler, ends a
  round of its loop, shuts down between events, or dies anywhere; another client of the
  stores acts, as \<open>others\<close> describes it; time passes.
\<close>

inductive cluster_step ::
  "proto \<Rightarrow> (string \<Rightarrow> 's GameServerProc) \<Rightarrow> (int \<Rightarrow> 's \<Rightarrow> 's) \<Rightarrow> ('s \<Rightarrow> 's \<Rightarrow> bool) \<Rightarrow> ('p, 's) cluster \<Rightarrow> ('p, 's) cluster \<Rightarrow> bool"
  for pb procs pass others where
  Start: "cs_nodes cs i = None \<Longrightarrow> i \<noteq> [] \<Longrightarrow> TrimSpace i = i \<Longrightarrow>
    cluster_step pb procs pass others cs (put_node i (fresh_node start (cs_stores cs)) cs)"
| Event: "cs_nodes cs i = Some nd \<Longrightarrow> nd_pc nd = Idle \<Longrightarrow> \<not> is_join ev \<Longrightarrow>
    cluster_step pb procs pass others cs (put_node i (with_game (handleENetEvent pb (procs i) ev (local_game cs nd)) nd) cs)"
| Request: "cs_nodes cs i = Some nd \<Longrightarrow> nd_pc nd = Idle \<Longrightarrow> begin_join pb p data (local_game cs nd) = (c, g) \<Longrightarrow>
    cluster_step pb procs pass others cs (put_node i (with_game g (nd\<lparr>nd_pc := c\<rparr>)) cs)"
| Call: "cs_nodes cs i = Some nd \<Longrightarrow> nd_pc nd \<noteq> Idle \<Longrightarrow>
    join_call pb (joinHandler (procs i)) (nd_pc nd) (local_game cs nd) = (c, g) \<Longrightarrow>
    cluster_step pb procs pass others cs (put_node i (with_game g (note_call (cs_now cs) (nd_pc nd) c nd)) cs)"
| Round: "cs_nodes cs i = Some nd \<Longrightarrow> nd_pc nd = Idle \<Longrightarrow>
    cluster_step pb procs pass others cs
      (put_node i (nd\<lparr>nd_loop := after_event pb (procs i) r ((nd_loop nd)\<lparr>l_game := local_game cs nd\<rparr>)\<rparr>) cs)"
| Stop: "cs_nodes cs i = Some nd \<Longrightarrow> nd_pc nd = Idle \<Longrightarrow>
    cluster_step pb procs pass others cs
      (cs\<lparr>cs_stores := g_store (shutdown (procs i) order (local_game cs nd)), cs_nodes := (cs_nodes cs)(i := None)\<rparr>)"
| Crash: "cluster_step pb procs pass others cs (cs\<lparr>cs_nodes := (cs_nodes cs)(i := None)\<rparr>)"
| Others: "others (cs_stores cs) s \<Longrightarrow> cluster_step pb procs pass others cs (cs\<lparr>cs_stores := s\<rparr>)"
| Time: "0 \<le> d \<Longrightarrow>
    cluster_step pb procs pass others cs (cs\<lparr>cs_stores := pass d (cs_stores cs), cs_now := cs_now cs + d\<rparr>)"

text \<open>What a process claims: the character of a session, or the one that a pending join has locked.\<close>

datatype 'p slot = Playing 'p | Pending

fun claim :: "('p, 's) node \<Rightarrow> 'p slot \<Rightarrow> (string \<times> int) option" where
  "claim nd (Playing p) = map_option (\<lambda>se. (sess_CharacterID se, nd_since nd p)) (fmlookup (g_sessions (l_game (nd_loop nd))) p)"
| "claim nd Pending = (case nd_pc nd of
     Loading p tok \<Rightarrow> Some (TrimSpace (jt_CharacterID tok), nd_taken nd)
   | Releasing p tok \<Rightarrow> Some (TrimSpace (jt_CharacterID tok), nd_taken nd)
   | _ \<Rightarrow> None)"

definition claims :: "('p, 's) cluster \<Rightarrow> string \<Rightarrow> 'p slot \<Rightarrow> (string \<times> int) option" where
  "claims cs i k = Option.bind (cs_nodes cs i) (\<lambda>nd. claim nd k)"

text \<open>Every claim is younger than the time to live of a lock.\<close>

definition young :: "int \<Rightarrow> ('p, 's) cluster \<Rightarrow> bool" where
  "young ttl cs = (\<forall>i k c t. claims cs i k = Some (c, t) \<longrightarrow> cs_now cs < t + ttl)"

definition empty_cluster :: "'s \<Rightarrow> ('p, 's) cluster" where
  "empty_cluster s = \<lparr>cs_stores = s, cs_now = 0, cs_nodes = (\<lambda>_. None)\<rparr>"

text \<open>The states that a cluster reaches from stores \<open>s\<close> while all claims are young.\<close>

inductive young_run ::
  "proto \<Rightarrow> (string \<Rightarrow> 's GameServerProc) \<Rightarrow> (int \<Rightarrow> 's \<Rightarrow> 's) \<Rightarrow> ('s \<Rightarrow> 's \<Rightarrow> bool) \<Rightarrow> int \<Rightarrow> 's \<Rightarrow> ('p, 's) cluster \<Rightarrow> bool"
  for pb procs pass others ttl s where
  Init: "young_run pb procs pass others ttl s (empty_cluster s)"
| Next: "young_run pb procs pass others ttl s cs \<Longrightarrow> cluster_step pb procs pass others cs cs' \<Longrightarrow> young ttl cs' \<Longrightarrow>
    young_run pb procs pass others ttl s cs'"

definition in_game :: "('p, 's) cluster \<Rightarrow> string \<Rightarrow> 'p \<Rightarrow> string \<Rightarrow> bool" where
  "in_game cs i p c = (\<exists>nd. cs_nodes cs i = Some nd \<and> plays (l_game (nd_loop nd)) p c)"

definition exclusive :: "('p, 's) cluster \<Rightarrow> bool" where
  "exclusive cs = (\<forall>i p j q c. in_game cs i p c \<longrightarrow> in_game cs j q c \<longrightarrow> i = j \<and> p = q)"

section \<open>Lemmas: a join ends\<close>

lemma send_out: "g_out (sendJoinResponse pb peer ok r g) = g_out g @ response_actions pb peer ok r"
  by (simp add: sendJoinResponse_def response_actions_def Let_def split: sum.splits)

lemma refused_answered: "answered pb p g (sendJoinResponse pb p False r (g\<lparr>g_store := s\<rparr>))"
  unfolding answered_def by (intro exI [of _ False] exI [of _ r]) (simp add: send_out)

lemma admit_answered: "answered pb p g (admit pb p tok ch (g\<lparr>g_store := s\<rparr>))"
  unfolding answered_def
  by (intro exI [of _ True] exI [of _ "[]"]) (simp add: admit_def send_out Let_def Add_def fmdrop_fmupd)

lemma answered_store [simp]: "answered pb p (g\<lparr>g_store := s\<rparr>) g' = answered pb p g g'"
  by (simp add: answered_def)

text \<open>A store call ends the join with an answer, or leaves fewer calls to come.\<close>

lemma join_call_progress:
  assumes "join_call pb h c g = (c', g')" and "pc_peer c = Some p"
  shows "c' = Idle \<and> answered pb p g g' \<or>
    pc_peer c' = Some p \<and> pc_rank c' < pc_rank c \<and> (\<exists>s. g' = g\<lparr>g_store := s\<rparr>)"
  using assms
  by (cases c) (auto simp: refused_answered admit_answered split: sum.splits prod.splits if_splits)

lemma answered_later [simp]: "answered pb p g (g'\<lparr>g_store := s\<rparr>) = answered pb p g g'"
  by (simp add: answered_def)

lemma join_among_idle: "\<exists>s. join_among pb h fs (Idle, g) = (Idle, g\<lparr>g_store := s\<rparr>)"
proof (induction fs arbitrary: g)
  case Nil
  show ?case by (intro exI [of _ "g_store g"]) simp
next
  case (Cons f fs)
  from Cons [of "g\<lparr>g_store := f (g_store g)\<rparr>"] show ?case by simp
qed

lemma join_among_ends:
  "pc_rank c \<le> length fs \<Longrightarrow> pc_peer c = Some p \<Longrightarrow> \<exists>g'. join_among pb h fs (c, g) = (Idle, g') \<and> answered pb p g g'"
proof (induction fs arbitrary: c g)
  case Nil
  then show ?case by (cases c) auto
next
  case (Cons f fs)
  obtain c1 g1 where call: "join_call pb h c (g\<lparr>g_store := f (g_store g)\<rparr>) = (c1, g1)" by force
  from join_call_progress [OF this Cons.prems(2)] show ?case
  proof
    assume "c1 = Idle \<and> answered pb p (g\<lparr>g_store := f (g_store g)\<rparr>) g1"
    then show ?case using join_among_idle [of pb h fs g1] call by auto
  next
    assume "pc_peer c1 = Some p \<and> pc_rank c1 < pc_rank c \<and> (\<exists>s. g1 = g\<lparr>g_store := f (g_store g), g_store := s\<rparr>)"
    then show ?case using Cons.IH [of c1 g1] Cons.prems(1) call by auto
  qed
qed

section \<open>Lemmas: claims\<close>

lemma claims_put:
  "claims (put_node i nd cs) j k = (if j = i then claim nd k else claims cs j k)"
  by (simp add: claims_def put_node_def)

lemma claim_with_game:
  assumes "\<And>p. map_option sess_CharacterID (fmlookup (g_sessions g) p) = map_option sess_CharacterID (fmlookup (g_sessions (l_game (nd_loop nd))) p)"
  shows "claim (with_game g nd) k = claim nd k"
proof (cases k)
  case (Playing p)
  with assms [of p] show ?thesis
    by (cases "fmlookup (g_sessions g) p"; cases "fmlookup (g_sessions (l_game (nd_loop nd))) p") (simp_all add: with_game_def)
qed (simp add: with_game_def split: pc.split)

lemma local_game_simps [simp]:
  "g_store (local_game cs nd) = cs_stores cs" "g_sessions (local_game cs nd) = g_sessions (l_game (nd_loop nd))"
  by (simp_all add: local_game_def)

lemma local_sessions: "local_game cs nd = g \<Longrightarrow> g_sessions (l_game (nd_loop nd)) = g_sessions g"
  by auto

lemma with_game_simps [simp]:
  "l_game (nd_loop (with_game g nd)) = g" "nd_pc (with_game g nd) = nd_pc nd"
  by (simp_all add: with_game_def)

lemma put_node_simps [simp]:
  "cs_stores (put_node i nd cs) = g_store (l_game (nd_loop nd))" "cs_now (put_node i nd cs) = cs_now cs"
  "cs_nodes (put_node i nd cs) = (cs_nodes cs)(i \<mapsto> nd)"
  by (simp_all add: put_node_def)

lemma fresh_node_simps [simp]:
  "claim (fresh_node start s) k = None" "nd_pc (fresh_node start s) = Idle" "g_store (l_game (nd_loop (fresh_node start s))) = s"
  by (cases k; simp add: fresh_node_def initial_game_def NewSessionManager_def)+

lemma local_game_put [simp]: "local_game (put_node i nd cs) nd = l_game (nd_loop nd)"
  by (simp add: local_game_def)

lemma in_game_claim: "in_game cs i p c \<longleftrightarrow> (\<exists>t. claims cs i (Playing p) = Some (c, t))"
  by (auto simp: in_game_def claims_def plays_def split: bind_splits)

lemma after_event_sessions:
  "map_option sess_CharacterID (fmlookup (g_sessions (l_game (after_event pb gs r l))) p) =
     map_option sess_CharacterID (fmlookup (g_sessions (l_game l)) p)"
  and after_event_store: "g_store (l_game (after_event pb gs r l)) = g_store (l_game l)"
proof -
  have b: "g_sessions (l_game (broadcast_phase pb r l)) = g_sessions (l_game l)"
    "g_store (l_game (broadcast_phase pb r l)) = g_store (l_game l)" for l
    by (auto simp: broadcast_phase_def Broadcast_def Let_def split: sum.splits)
  let ?g = "l_game l"
  obtain w sm where d: "DrainInputs (simulation gs) (r_sessions r (g_sessions ?g)) (g_world ?g) (g_sessions ?g) = (w, sm)" by force
  then have "fmlookup sm p = fmlookup (g_sessions ?g) p \<or>
      fmlookup sm p = map_option (LatestInput_update (\<lambda>_. None)) (fmlookup (g_sessions ?g) p)"
    using drain_sm [of "simulation gs" "r_sessions r (g_sessions ?g)" "(g_world ?g, g_sessions ?g)" p]
    by (simp add: DrainInputs_def split: if_splits)
  then have "map_option sess_CharacterID (fmlookup sm p) = map_option sess_CharacterID (fmlookup (g_sessions ?g) p)"
    by (auto simp: option.map_comp comp_def)
  with d show "map_option sess_CharacterID (fmlookup (g_sessions (l_game (after_event pb gs r l))) p) =
     map_option sess_CharacterID (fmlookup (g_sessions ?g) p)"
    and "g_store (l_game (after_event pb gs r l)) = g_store ?g"
    by (simp_all add: after_event_def b tick_phase_def Let_def)
qed

section \<open>Lemmas: the cluster over its stores\<close>

text \<open>
  What the processes rely on: every store call keeps the stores well formed and leaves
  the leases of the locks alone, except that an acquisition may take a free lock and a
  release may give back the caller's. A lease is an owner with the milliseconds left.
\<close>

locale cluster_stores =
  fixes procs :: "string \<Rightarrow> 's GameServerProc"
    and lease :: "'s \<Rightarrow> string \<Rightarrow> (string \<times> int) option"
    and wf :: "'s \<Rightarrow> bool"
    and ttl :: int
    and pass :: "int \<Rightarrow> 's \<Rightarrow> 's"
    and others :: "'s \<Rightarrow> 's \<Rightarrow> bool"
  assumes server_id: "i \<noteq> [] \<Longrightarrow> jh_serverID (joinHandler (procs i)) = i" "i \<noteq> [] \<Longrightarrow> cfg_ServerID (gsp_cfg (procs i)) = i"
    and same_release: "i \<noteq> [] \<Longrightarrow> gsp_release (procs i) = jh_ReleaseCharacterLock (joinHandler (procs i))"
    and consume_kept: "i \<noteq> [] \<Longrightarrow> wf s \<Longrightarrow> jh_ConsumeJoinToken (joinHandler (procs i)) t s = (r, s') \<Longrightarrow> wf s' \<and> lease s' = lease s"
    and load_kept: "i \<noteq> [] \<Longrightarrow> wf s \<Longrightarrow> jh_GetCharacterByID (joinHandler (procs i)) c s = (r', s') \<Longrightarrow> wf s' \<and> lease s' = lease s"
    and load_id: "i \<noteq> [] \<Longrightarrow> wf s \<Longrightarrow> jh_ConsumeJoinToken (joinHandler (procs i)) t s = (Inr tok, s1) \<Longrightarrow> wf s2 \<Longrightarrow>
        jh_GetCharacterByID (joinHandler (procs i)) (jt_CharacterID tok) s2 = (Inr ch, s3) \<Longrightarrow>
        char_ID ch = jt_CharacterID tok \<and> TrimSpace (jt_CharacterID tok) = jt_CharacterID tok"
    and acquire_lease: "i \<noteq> [] \<Longrightarrow> wf s \<Longrightarrow> jh_AcquireCharacterLock (joinHandler (procs i)) c ow (jh_lockTTL (joinHandler (procs i))) s = (a, s') \<Longrightarrow>
        wf s' \<and> (lease s' = lease s \<and> a \<noteq> Inr True \<or>
          lease s (TrimSpace c) = None \<and> lease s' = (lease s)(TrimSpace c \<mapsto> (TrimSpace ow, ttl)))"
    and release_lease: "i \<noteq> [] \<Longrightarrow> wf s \<Longrightarrow> jh_ReleaseCharacterLock (joinHandler (procs i)) c ow s = (a, s') \<Longrightarrow>
        wf s' \<and> (lease s' = lease s \<or>
          (\<exists>t. lease s (TrimSpace c) = Some (TrimSpace ow, t)) \<and> lease s' = (lease s)(TrimSpace c := None))"
    and deregister_kept: "i \<noteq> [] \<Longrightarrow> wf s \<Longrightarrow> gsp_deregister (procs i) j s = (u, s') \<Longrightarrow> wf s' \<and> lease s' = lease s"
    and others_kept: "wf s \<Longrightarrow> others s s' \<Longrightarrow> wf s' \<and> lease s' = lease s"
    and pass_kept: "wf s \<Longrightarrow> 0 \<le> d \<Longrightarrow> wf (pass d s) \<and>
        (\<forall>c ow t. lease s c = Some (ow, t) \<longrightarrow> d < t \<longrightarrow> lease (pass d s) c = Some (ow, t - d))"
begin

text \<open>A token in the hands of the handler was consumed from well-formed stores.\<close>

definition token_ok :: "string \<Rightarrow> JoinToken \<Rightarrow> bool" where
  "token_ok i tok = (\<exists>t s s1. wf s \<and> jh_ConsumeJoinToken (joinHandler (procs i)) t s = (Inr tok, s1))"

definition pc_ok :: "string \<Rightarrow> 'p pc \<Rightarrow> bool" where
  "pc_ok i c = (case c of Locking p tok \<Rightarrow> token_ok i tok | Loading p tok \<Rightarrow> token_ok i tok
     | Releasing p tok \<Rightarrow> token_ok i tok | _ \<Rightarrow> True)"

definition node_ok :: "string \<Rightarrow> ('p, 's) node \<Rightarrow> bool" where
  "node_ok i nd = (i \<noteq> [] \<and> TrimSpace i = i \<and> pc_ok i (nd_pc nd))"

definition cluster_inv :: "('p, 's) cluster \<Rightarrow> bool" where
  "cluster_inv cs =
     (wf (cs_stores cs) \<and>
      (\<forall>i nd. cs_nodes cs i = Some nd \<longrightarrow> node_ok i nd) \<and>
      (\<forall>i k c t. claims cs i k = Some (c, t) \<longrightarrow> TrimSpace c = c \<and>
         (\<exists>left. lease (cs_stores cs) c = Some (i, left) \<and> t + ttl \<le> cs_now cs + left)) \<and>
      (\<forall>i k j l c t u. claims cs i k = Some (c, t) \<longrightarrow> claims cs j l = Some (c, u) \<longrightarrow> i = j \<and> k = l))"

lemma inv_wf: "cluster_inv cs \<Longrightarrow> wf (cs_stores cs)"
  by (simp add: cluster_inv_def)

lemma inv_node: "cluster_inv cs \<Longrightarrow> cs_nodes cs i = Some nd \<Longrightarrow> node_ok i nd"
  by (simp add: cluster_inv_def)

lemma inv_id: "cluster_inv cs \<Longrightarrow> cs_nodes cs i = Some nd \<Longrightarrow> i \<noteq> []"
  using inv_node by (auto simp: node_ok_def)

lemma inv_lease:
  assumes "cluster_inv cs" and "claims cs i k = Some (c, t)"
  obtains left where "TrimSpace c = c" and "lease (cs_stores cs) c = Some (i, left)" and "t + ttl \<le> cs_now cs + left"
  using assms unfolding cluster_inv_def by blast

lemma inv_unique:
  "cluster_inv cs \<Longrightarrow> claims cs i k = Some (c, t) \<Longrightarrow> claims cs j l = Some (c, u) \<Longrightarrow> i = j \<and> k = l"
  unfolding cluster_inv_def by blast

text \<open>A step that adds no claim, though it may move one, and keeps the leases of the claims that stay.\<close>

lemma inv_shrink:
  assumes "cluster_inv cs" and "wf (cs_stores cs')" and "cs_now cs' = cs_now cs"
    and "\<And>i nd. cs_nodes cs' i = Some nd \<Longrightarrow> node_ok i nd"
    and "\<And>i k x. claims cs' i k = Some x \<Longrightarrow> claims cs i (f i k) = Some x"
    and "\<And>i k c t. claims cs' i k = Some (c, t) \<Longrightarrow> lease (cs_stores cs') c = lease (cs_stores cs) c"
    and "\<And>i k l x y. claims cs' i k = Some x \<Longrightarrow> claims cs' i l = Some y \<Longrightarrow> f i k = f i l \<Longrightarrow> k = l"
  shows "cluster_inv cs'"
  unfolding cluster_inv_def
proof (intro conjI allI impI)
  fix i k c t
  assume a: "claims cs' i k = Some (c, t)"
  from inv_lease [OF assms(1) assms(5) [OF a]] assms(3) assms(6) [OF a]
  show "TrimSpace c = c" and "\<exists>left. lease (cs_stores cs') c = Some (i, left) \<and> t + ttl \<le> cs_now cs' + left" by auto
next
  fix i k j l c t u
  assume a: "claims cs' i k = Some (c, t)" and b: "claims cs' j l = Some (c, u)"
  have e: "i = j \<and> f i k = f j l" by (rule inv_unique [OF assms(1) assms(5) [OF a] assms(5) [OF b]])
  then show "i = j" by simp
  with a b e assms(7) show "k = l" by blast
qed (use assms(2,4) in simp_all)

text \<open>A step that leaves all claims as they are, or drops some.\<close>

lemma inv_keep:
  assumes "cluster_inv cs" and "wf (cs_stores cs')" and "cs_now cs' = cs_now cs"
    and "\<And>i nd. cs_nodes cs' i = Some nd \<Longrightarrow> node_ok i nd"
    and "\<And>i k x. claims cs' i k = Some x \<Longrightarrow> claims cs i k = Some x"
    and "\<And>i k c t. claims cs' i k = Some (c, t) \<Longrightarrow> lease (cs_stores cs') c = lease (cs_stores cs) c"
  shows "cluster_inv cs'"
  by (rule inv_shrink [OF assms(1-4), where f = "\<lambda>_ k. k"]) (use assms(5,6) in simp_all)

text \<open>The lock call: one new claim, on a lock that was free.\<close>

lemma inv_grow:
  assumes "cluster_inv cs" and "wf (cs_stores cs')" and "cs_now cs' = cs_now cs"
    and "\<And>i nd. cs_nodes cs' i = Some nd \<Longrightarrow> node_ok i nd"
    and "\<And>j l x. claims cs' j l = Some x \<Longrightarrow> claims cs j l = Some x \<or> j = i \<and> l = Pending \<and> x = (c, cs_now cs)"
    and "lease (cs_stores cs) c = None" and "lease (cs_stores cs') = (lease (cs_stores cs))(c \<mapsto> (i, ttl))"
    and "TrimSpace c = c"
  shows "cluster_inv cs'"
proof -
  have old: "d \<noteq> c" if a: "claims cs j l = Some (d, t)" for j l d t
  proof
    assume "d = c"
    with inv_lease [OF assms(1) a] assms(6) show False by auto
  qed
  have held: "TrimSpace d = d \<and> (\<exists>left. lease (cs_stores cs') d = Some (j, left) \<and> t + ttl \<le> cs_now cs' + left)"
    if "claims cs' j l = Some (d, t)" for j l d t
    using assms(5) [OF that]
  proof
    assume a: "claims cs j l = Some (d, t)"
    from inv_lease [OF assms(1) a] old [OF a] assms(3,7) show ?thesis by auto
  qed (use assms(3,7,8) in simp)
  have "j = j' \<and> l = l'" if "claims cs' j l = Some (d, t)" and "claims cs' j' l' = Some (d, u)" for j l j' l' d t u
    using assms(5) [OF that(1)] assms(5) [OF that(2)] old inv_unique [OF assms(1)] by blast
  with held assms(2,4) show ?thesis unfolding cluster_inv_def by blast
qed

text \<open>A step of one process that adds no claim.\<close>

lemma inv_put:
  assumes "cluster_inv cs" and "cs_nodes cs i = Some nd" and "node_ok i nd'" and "wf (g_store (l_game (nd_loop nd')))"
    and "\<And>k x. claim nd' k = Some x \<Longrightarrow> claim nd k = Some x"
    and "\<And>j k c t. claims cs j k = Some (c, t) \<Longrightarrow> j = i \<Longrightarrow> claim nd' k \<noteq> None \<Longrightarrow>
      lease (g_store (l_game (nd_loop nd'))) c = lease (cs_stores cs) c"
    and "\<And>j k c t. claims cs j k = Some (c, t) \<Longrightarrow> j \<noteq> i \<Longrightarrow>
      lease (g_store (l_game (nd_loop nd'))) c = lease (cs_stores cs) c"
  shows "cluster_inv (put_node i nd' cs)"
proof (rule inv_keep [OF assms(1)])
  have sub: "claims cs j k = Some x" if "claims (put_node i nd' cs) j k = Some x" for j k x
    using that assms(2,5) by (simp add: claims_put claims_def split: if_splits)
  show "claims cs j k = Some x" if "claims (put_node i nd' cs) j k = Some x" for j k x by (rule sub [OF that])
  show "lease (cs_stores (put_node i nd' cs)) c = lease (cs_stores cs) c"
    if c: "claims (put_node i nd' cs) j k = Some (c, t)" for j k c t
  proof (cases "j = i")
    case True
    with c have "claim nd' k \<noteq> None" by (simp add: claims_put)
    with True assms(6) [OF sub [OF c]] show ?thesis by simp
  qed (use assms(7) [OF sub [OF c]] in simp)
  show "node_ok j x" if "cs_nodes (put_node i nd' cs) j = Some x" for j x
    using that assms(3) inv_node [OF assms(1)] by (auto split: if_splits)
qed (use assms(4) in simp_all)

text \<open>The same with the stores as they were, or with the same leases.\<close>

lemma inv_put_same:
  assumes "cluster_inv cs" and "cs_nodes cs i = Some nd" and "node_ok i nd'"
    and "wf (g_store (l_game (nd_loop nd')))" and "lease (g_store (l_game (nd_loop nd'))) = lease (cs_stores cs)"
    and "\<And>k. claim nd' k = claim nd k"
  shows "cluster_inv (put_node i nd' cs)"
  by (rule inv_put [OF assms(1-4)]) (use assms(5,6) in simp_all)

text \<open>A release touches the lease of its own character only, and only if the caller has it.\<close>

lemma release_other:
  assumes "i \<noteq> []" and "wf s" and "jh_ReleaseCharacterLock (joinHandler (procs i)) c ow s = (a, s')" and "d \<noteq> TrimSpace c"
  shows "lease s' d = lease s d"
  using release_lease [OF assms(1-3)] assms(4) by auto

lemma release_foreign:
  assumes "i \<noteq> []" and "wf s" and "jh_ReleaseCharacterLock (joinHandler (procs i)) c ow s = (a, s')"
    and "lease s d = Some (j, t)" and "j \<noteq> TrimSpace ow"
  shows "lease s' d = lease s d"
  using release_lease [OF assms(1-3)] assms(4,5) by auto

text \<open>An acquisition never touches the lease of a claim.\<close>

lemma acquire_claimed:
  assumes "i \<noteq> []" and "cluster_inv cs" and "claims cs j k = Some (d, t)"
    and "jh_AcquireCharacterLock (joinHandler (procs i)) c ow (jh_lockTTL (joinHandler (procs i))) (cs_stores cs) = (a, s')"
  shows "lease s' d = lease (cs_stores cs) d"
proof -
  obtain left where "lease (cs_stores cs) d = Some (j, left)" by (rule inv_lease [OF assms(2,3)])
  with acquire_lease [OF assms(1) inv_wf [OF assms(2)] assms(4)] show ?thesis by auto
qed

section \<open>Lemmas: every step keeps the invariant\<close>

lemma inv_disconnect:
  assumes inv: "cluster_inv cs" and nd: "cs_nodes cs i = Some nd"
  shows "cluster_inv (put_node i (with_game (HandleDisconnect (joinHandler (procs i)) p (local_game cs nd)) nd) cs)"
proof (cases "fmlookup (g_sessions (l_game (nd_loop nd))) p")
  case None
  then have "HandleDisconnect (joinHandler (procs i)) p (local_game cs nd) = local_game cs nd"
    by (simp add: HandleDisconnect_def Remove_def)
  then show ?thesis
    by (intro inv_put_same [OF inv nd]) (use inv_node [OF inv nd] inv_wf [OF inv] in \<open>simp_all add: node_ok_def claim_with_game\<close>)
next
  case (Some se)
  have ne: "i \<noteq> []" by (rule inv_id [OF inv nd])
  let ?c = "sess_CharacterID se"
  let ?g = "HandleDisconnect (joinHandler (procs i)) p (local_game cs nd)"
  obtain a s1 where r: "jh_ReleaseCharacterLock (joinHandler (procs i)) ?c i (cs_stores cs) = (a, s1)" by force
  have g: "g_store ?g = s1" "g_sessions ?g = fmdrop p (g_sessions (l_game (nd_loop nd)))"
    using Some r by (simp_all add: HandleDisconnect_def Remove_def server_id [OF ne] Let_def)
  have me: "claims cs i (Playing p) = Some (?c, nd_since nd p)" using Some nd by (simp add: claims_def)
  have trim: "TrimSpace ?c = ?c" by (rule inv_lease [OF inv me])
  have other: "lease s1 c = lease (cs_stores cs) c" if "claims cs j k = Some (c, t)" and "(j, k) \<noteq> (i, Playing p)" for j k c t
  proof (rule release_other [OF ne inv_wf [OF inv] r])
    show "c \<noteq> TrimSpace ?c" using inv_unique [OF inv that(1)] me that(2) trim by auto
  qed
  have gone: "claim (with_game ?g nd) (Playing p) = None" by (simp add: g)
  show ?thesis
  proof (rule inv_put [OF inv nd])
    show "claim nd k = Some x" if "claim (with_game ?g nd) k = Some x" for k x
    proof (cases k)
      case (Playing q)
      with that show ?thesis by (auto simp: g with_game_def split: if_splits)
    qed (use that in \<open>simp add: with_game_def split: pc.splits\<close>)
    show "wf (g_store (l_game (nd_loop (with_game ?g nd))))" using release_lease [OF ne inv_wf [OF inv] r] by (simp add: g)
    show "lease (g_store (l_game (nd_loop (with_game ?g nd)))) c = lease (cs_stores cs) c"
      if "claims cs j k = Some (c, t)" "claim (with_game ?g nd) k \<noteq> None" for j k c t
    proof -
      have "k \<noteq> Playing p" using that(2) gone by metis
      then show ?thesis using other [OF that(1)] by (simp add: g)
    qed
    show "lease (g_store (l_game (nd_loop (with_game ?g nd)))) c = lease (cs_stores cs) c"
      if "claims cs j k = Some (c, t)" "j \<noteq> i" for j k c t
      using other [OF that(1)] that(2) by (auto simp: g)
  qed (use inv_node [OF inv nd] in \<open>simp add: node_ok_def\<close>)
qed

lemma inv_event:
  assumes "cluster_inv cs" and "cs_nodes cs i = Some nd" and "\<not> is_join ev"
  shows "cluster_inv (put_node i (with_game (handleENetEvent pb (procs i) ev (local_game cs nd)) nd) cs)"
proof (cases "\<exists>p. ev = EventDisconnect p")
  case True
  then show ?thesis using inv_disconnect [OF assms(1,2)] by auto
next
  case False
  let ?g = "handleENetEvent pb (procs i) ev (local_game cs nd)"
  have "g_store ?g = cs_stores cs" and "map_option sess_CharacterID (fmlookup (g_sessions ?g) q) =
      map_option sess_CharacterID (fmlookup (g_sessions (l_game (nd_loop nd))) q)" for q
    using False assms(3)
    by (cases ev; auto simp: is_join_def handleReceive_def sm_Get_def split: option.splits sum.splits)+
  then show ?thesis
    by (intro inv_put_same [OF assms(1,2)])
       (use inv_node [OF assms(1,2)] inv_wf [OF assms(1)] in \<open>simp_all add: node_ok_def claim_with_game\<close>)
qed

lemma inv_round:
  assumes "cluster_inv cs" and "cs_nodes cs i = Some nd"
  shows "cluster_inv (put_node i (nd\<lparr>nd_loop := after_event pb (procs i) r ((nd_loop nd)\<lparr>l_game := local_game cs nd\<rparr>)\<rparr>) cs)"
proof (rule inv_put_same [OF assms])
  let ?nd = "nd\<lparr>nd_loop := after_event pb (procs i) r ((nd_loop nd)\<lparr>l_game := local_game cs nd\<rparr>)\<rparr>"
  show "claim ?nd k = claim nd k" for k
  proof (cases k)
    case (Playing p)
    then show ?thesis
      using after_event_sessions [of pb "procs i" r "(nd_loop nd)\<lparr>l_game := local_game cs nd\<rparr>" p]
      by (cases "fmlookup (g_sessions (l_game (nd_loop ?nd))) p"; cases "fmlookup (g_sessions (l_game (nd_loop nd))) p") simp_all
  qed (simp split: pc.split)
qed (use inv_node [OF assms] inv_wf [OF assms(1)] in \<open>simp_all add: node_ok_def after_event_store\<close>)

lemma inv_request:
  assumes "cluster_inv cs" and "cs_nodes cs i = Some nd" and "nd_pc nd = Idle"
    and "begin_join pb p data (local_game cs nd) = (c, g)"
  shows "cluster_inv (put_node i (with_game g (nd\<lparr>nd_pc := c\<rparr>)) cs)"
proof -
  have g: "g_store g = cs_stores cs" "g_sessions g = g_sessions (l_game (nd_loop nd))"
    and c: "c = Idle \<or> (\<exists>req. c = Consuming p req)"
    using assms(4) by (auto simp: begin_join_def split: sum.splits)
  have "claim (with_game g (nd\<lparr>nd_pc := c\<rparr>)) k = claim nd k" for k
    using c assms(3) by (cases k) (auto simp: with_game_def g)
  moreover have "node_ok i (with_game g (nd\<lparr>nd_pc := c\<rparr>))"
    using c inv_node [OF assms(1,2)] by (auto simp: node_ok_def pc_ok_def)
  ultimately show ?thesis by (intro inv_put_same [OF assms(1,2)]) (simp_all add: g inv_wf [OF assms(1)])
qed

text \<open>The outcomes of each call of the handler.\<close>

lemma inv_consume:
  assumes "cluster_inv cs" and "cs_nodes cs i = Some nd" and "nd_pc nd = Consuming p req"
    and "join_call pb (joinHandler (procs i)) (nd_pc nd) (local_game cs nd) = (c, g)"
  shows "cluster_inv (put_node i (with_game g (note_call (cs_now cs) (nd_pc nd) c nd)) cs)"
proof -
  let ?nd = "with_game g (note_call (cs_now cs) (nd_pc nd) c nd)"
  obtain r s1 where r: "jh_ConsumeJoinToken (joinHandler (procs i)) (jr_JoinToken req) (cs_stores cs) = (r, s1)" by force
  have g: "g_store g = s1" "g_sessions g = g_sessions (l_game (nd_loop nd))"
    and c: "c = Idle \<or> (\<exists>tok. c = Locking p tok \<and> r = Inr tok)"
    using assms(3,4) r by (auto split: sum.splits if_splits)
  have "claim ?nd k = claim nd k" for k
    using c assms(3) by (cases k) (auto simp: with_game_def note_call_def g)
  moreover have "token_ok i tok" if "r = Inr tok" for tok
    unfolding token_ok_def using r inv_wf [OF assms(1)] that by blast
  then have "node_ok i ?nd"
    using c inv_node [OF assms(1,2)] assms(3) by (auto simp: node_ok_def pc_ok_def note_call_def)
  ultimately show ?thesis
    using consume_kept [OF inv_id [OF assms(1,2)] inv_wf [OF assms(1)] r] by (intro inv_put_same [OF assms(1,2)]) (simp_all add: g)
qed

lemma inv_lock:
  assumes inv: "cluster_inv cs" and nd: "cs_nodes cs i = Some nd" and pc: "nd_pc nd = Locking p tok"
    and "join_call pb (joinHandler (procs i)) (nd_pc nd) (local_game cs nd) = (c, g)"
  shows "cluster_inv (put_node i (with_game g (note_call (cs_now cs) (nd_pc nd) c nd)) cs)"
proof -
  let ?nd = "with_game g (note_call (cs_now cs) (nd_pc nd) c nd)"
  let ?c = "TrimSpace (jt_CharacterID tok)"
  have ne: "i \<noteq> []" by (rule inv_id [OF inv nd])
  obtain a s2 where a: "jh_AcquireCharacterLock (joinHandler (procs i)) (jt_CharacterID tok) i (jh_lockTTL (joinHandler (procs i))) (cs_stores cs) = (a, s2)"
    by force
  have g: "g_store g = s2" "g_sessions g = g_sessions (l_game (nd_loop nd))"
    and c: "c = (if a = Inr True then Loading p tok else Idle)"
    using assms(4) pc a by (auto simp: server_id [OF ne] split: sum.splits if_splits)
  note l = acquire_lease [OF ne inv_wf [OF inv] a]
  have i: "TrimSpace i = i" and t: "token_ok i tok" using inv_node [OF inv nd] pc by (auto simp: node_ok_def pc_ok_def)
  have ok: "node_ok i ?nd" using ne i t c pc by (simp add: node_ok_def pc_ok_def note_call_def)
  have playing: "claim ?nd (Playing q) = claim nd (Playing q)" for q using pc by (simp add: with_game_def note_call_def g)
  show ?thesis
  proof (cases "a = Inr True")
    case True
    show ?thesis
    proof (rule inv_grow [OF inv, where i = i and c = ?c])
      show "claims cs j k = Some x \<or> j = i \<and> k = Pending \<and> x = (?c, cs_now cs)" if "claims (put_node i ?nd cs) j k = Some x" for j k x
        using that True c pc nd playing by (cases k) (auto simp: claims_put claims_def note_call_def with_game_def split: if_splits)
      show "node_ok j x" if "cs_nodes (put_node i ?nd cs) j = Some x" for j x
        using that ok inv_node [OF inv] by (auto split: if_splits)
    qed (use l True i in \<open>auto simp: g\<close>)
  next
    case False
    then have same: "claim ?nd k = claim nd k" for k
      using c pc playing by (cases k) (auto simp: note_call_def with_game_def)
    show ?thesis
      by (rule inv_put [OF inv nd ok]) (use l same acquire_claimed [OF ne inv _ a] in \<open>simp_all add: g\<close>)
  qed
qed

lemma inv_load:
  assumes inv: "cluster_inv cs" and nd: "cs_nodes cs i = Some nd" and pc: "nd_pc nd = Loading p tok"
    and "join_call pb (joinHandler (procs i)) (nd_pc nd) (local_game cs nd) = (c, g)"
  shows "cluster_inv (put_node i (with_game g (note_call (cs_now cs) (nd_pc nd) c nd)) cs)"
proof -
  let ?nd = "with_game g (note_call (cs_now cs) (nd_pc nd) c nd)"
  have ne: "i \<noteq> []" by (rule inv_id [OF inv nd])
  obtain r s3 where r: "jh_GetCharacterByID (joinHandler (procs i)) (jt_CharacterID tok) (cs_stores cs) = (r, s3)" by force
  have g: "g_store g = s3" using assms(4) pc r by (auto simp: admit_def Let_def split: sum.splits)
  note l = load_kept [OF ne inv_wf [OF inv] r]
  have i: "TrimSpace i = i" and t: "token_ok i tok" using inv_node [OF inv nd] pc by (auto simp: node_ok_def pc_ok_def)
  show ?thesis
  proof (cases r)
    case (Inl e)
    then have c: "c = Releasing p tok" "g_sessions g = g_sessions (l_game (nd_loop nd))" using assms(4) pc r by auto
    have "claim ?nd k = claim nd k" for k using c pc by (cases k) (simp_all add: with_game_def note_call_def)
    then show ?thesis using l ne i t pc c
      by (intro inv_put_same [OF inv nd]) (simp_all add: g node_ok_def pc_ok_def note_call_def)
  next
    case (Inr ch)
    then have c: "c = Idle" "g = admit pb p tok ch ((local_game cs nd)\<lparr>g_store := s3\<rparr>)" using assms(4) pc r by auto
    have id: "char_ID ch = jt_CharacterID tok" "TrimSpace (jt_CharacterID tok) = jt_CharacterID tok"
      using t load_id [OF ne _ _ inv_wf [OF inv] r [unfolded Inr]] unfolding token_ok_def by blast+
    let ?f = "\<lambda>j k. if j = i \<and> k = Playing p then Pending else k"
    have cl: "claim ?nd k = (if k = Playing p then Some (jt_CharacterID tok, nd_taken nd) else if k = Pending then None else claim nd k)" for k
      using c pc id by (cases k) (auto simp: with_game_def note_call_def admit_def Add_def Let_def)
    show ?thesis
    proof (rule inv_shrink [OF inv, where f = ?f])
      show "claims cs j (?f j k) = Some x" if "claims (put_node i ?nd cs) j k = Some x" for j k x
      proof (cases "j = i")
        case True
        with that have "claim ?nd k = Some x" by (simp add: claims_put)
        with True show ?thesis using nd pc id unfolding cl by (auto simp: claims_def split: if_splits)
      qed (use that in \<open>simp add: claims_put\<close>)
      show "k = m" if "claims (put_node i ?nd cs) j k = Some x" "claims (put_node i ?nd cs) j m = Some y" "?f j k = ?f j m" for j k m x y
        using that cl [of k] cl [of m] by (auto simp: claims_put split: if_splits)
      show "node_ok j x" if "cs_nodes (put_node i ?nd cs) j = Some x" for j x
        using that ne i c pc inv_node [OF inv] by (auto simp: node_ok_def pc_ok_def note_call_def split: if_splits)
    qed (use l in \<open>simp_all add: g\<close>)
  qed
qed

lemma inv_undo:
  assumes inv: "cluster_inv cs" and nd: "cs_nodes cs i = Some nd" and pc: "nd_pc nd = Releasing p tok"
    and "join_call pb (joinHandler (procs i)) (nd_pc nd) (local_game cs nd) = (c, g)"
  shows "cluster_inv (put_node i (with_game g (note_call (cs_now cs) (nd_pc nd) c nd)) cs)"
proof -
  let ?nd = "with_game g (note_call (cs_now cs) (nd_pc nd) c nd)"
  have ne: "i \<noteq> []" by (rule inv_id [OF inv nd])
  obtain a s4 where a: "jh_ReleaseCharacterLock (joinHandler (procs i)) (jt_CharacterID tok) i (cs_stores cs) = (a, s4)" by force
  have g: "g_store g = s4" "g_sessions g = g_sessions (l_game (nd_loop nd))" "c = Idle"
    using assms(4) pc a by (auto simp: server_id [OF ne])
  have me: "claims cs i Pending = Some (TrimSpace (jt_CharacterID tok), nd_taken nd)" using nd pc by (simp add: claims_def)
  have cl: "claim ?nd k = (if k = Pending then None else claim nd k)" for k
    using pc by (cases k) (simp_all add: note_call_def with_game_def g)
  have other: "lease s4 d = lease (cs_stores cs) d" if "claims cs j k = Some (d, t)" and "(j, k) \<noteq> (i, Pending)" for j k d t
  proof (rule release_other [OF ne inv_wf [OF inv] a])
    show "d \<noteq> TrimSpace (jt_CharacterID tok)" using inv_unique [OF inv that(1)] me that(2) by auto
  qed
  show ?thesis
  proof (rule inv_put [OF inv nd])
    show "node_ok i ?nd" using inv_node [OF inv nd] pc by (simp add: node_ok_def pc_ok_def note_call_def g)
    show "claim nd k = Some x" if "claim ?nd k = Some x" for k x using that unfolding cl by (simp split: if_splits)
    show "lease (g_store (l_game (nd_loop ?nd))) d = lease (cs_stores cs) d"
      if "claims cs j k = Some (d, t)" "claim ?nd k \<noteq> None" for j k d t
      using other [OF that(1)] that(2) unfolding cl by (simp add: g split: if_splits)
  qed (use release_lease [OF ne inv_wf [OF inv] a] other in \<open>simp_all add: g\<close>)
qed

lemma inv_call:
  assumes "cluster_inv cs" and "cs_nodes cs i = Some nd" and "nd_pc nd \<noteq> Idle"
    and "join_call pb (joinHandler (procs i)) (nd_pc nd) (local_game cs nd) = (c, g)"
  shows "cluster_inv (put_node i (with_game g (note_call (cs_now cs) (nd_pc nd) c nd)) cs)"
  using assms(3) inv_consume [OF assms(1,2) _ assms(4)] inv_lock [OF assms(1,2) _ assms(4)]
    inv_load [OF assms(1,2) _ assms(4)] inv_undo [OF assms(1,2) _ assms(4)]
  by (cases "nd_pc nd") blast+

text \<open>A shutdown gives back locks of its own server only.\<close>

lemma shutdown_sessions_kept:
  assumes "wf (g_store g)" and "i \<noteq> []" and "TrimSpace i = i"
  shows "wf (g_store (shutdown_sessions (procs i) ses g)) \<and>
    (\<forall>d j t. lease (g_store g) d = Some (j, t) \<longrightarrow> j \<noteq> i \<longrightarrow> lease (g_store (shutdown_sessions (procs i) ses g)) d = Some (j, t))"
  using assms(1)
proof (induction ses arbitrary: g)
  case (Cons se ses)
  obtain a s1 where a: "jh_ReleaseCharacterLock (joinHandler (procs i)) (sess_CharacterID se) i (g_store g) = (a, s1)" by force
  let ?g = "(emit (Disconnect (Peer se)) g)\<lparr>g_store := s1\<rparr>"
  have "wf (g_store ?g)" using release_lease [OF assms(2) Cons.prems a] by simp
  from Cons.IH [OF this] show ?case
    using release_foreign [OF assms(2) Cons.prems a] a assms(2,3) by (simp add: same_release [OF assms(2)] server_id [OF assms(2)] Let_def)
qed simp

lemma inv_stop:
  assumes inv: "cluster_inv cs" and nd: "cs_nodes cs i = Some nd"
  shows "cluster_inv (cs\<lparr>cs_stores := g_store (shutdown (procs i) order (local_game cs nd)), cs_nodes := (cs_nodes cs)(i := None)\<rparr>)"
proof -
  let ?ses = "All (order (g_sessions (local_game cs nd))) (g_sessions (local_game cs nd))"
  let ?g = "shutdown_sessions (procs i) ?ses (emit HealthShutdown (local_game cs nd))"
  have i: "TrimSpace i = i" and ne: "i \<noteq> []" using inv_node [OF inv nd] by (simp_all add: node_ok_def)
  have w: "wf (g_store (emit HealthShutdown (local_game cs nd)))" using inv_wf [OF inv] by simp
  note k = shutdown_sessions_kept [OF w ne i, of ?ses]
  obtain u s' where u: "gsp_deregister (procs i) i (g_store ?g) = (u, s')" by force
  note d = deregister_kept [OF ne conjunct1 [OF k] u]
  have st: "g_store (shutdown (procs i) order (local_game cs nd)) = s'" using u by (simp add: shutdown_store server_id [OF ne])
  show ?thesis unfolding st
  proof (rule inv_keep [OF inv])
    fix j l c t
    assume a: "claims (cs\<lparr>cs_stores := s', cs_nodes := (cs_nodes cs)(i := None)\<rparr>) j l = Some (c, t)"
    then have a': "claims cs j l = Some (c, t)" and j: "j \<noteq> i" by (auto simp: claims_def split: if_splits)
    obtain left where "lease (cs_stores cs) c = Some (j, left)" by (rule inv_lease [OF inv a'])
    with k d j show "lease (cs_stores (cs\<lparr>cs_stores := s', cs_nodes := (cs_nodes cs)(i := None)\<rparr>)) c = lease (cs_stores cs) c" by simp
  qed (use d inv_node [OF inv] in \<open>auto simp: claims_def split: if_splits\<close>)
qed

lemma inv_time:
  assumes inv: "cluster_inv cs" and d: "0 \<le> d"
    and young: "young ttl (cs\<lparr>cs_stores := pass d (cs_stores cs), cs_now := cs_now cs + d\<rparr>)"
  shows "cluster_inv (cs\<lparr>cs_stores := pass d (cs_stores cs), cs_now := cs_now cs + d\<rparr>)"
proof -
  let ?cs = "cs\<lparr>cs_stores := pass d (cs_stores cs), cs_now := cs_now cs + d\<rparr>"
  note p = pass_kept [OF inv_wf [OF inv] d]
  have cl: "claims ?cs = claims cs" by (simp add: claims_def fun_eq_iff)
  have "TrimSpace c = c \<and> (\<exists>left. lease (cs_stores ?cs) c = Some (i, left) \<and> t + ttl \<le> cs_now ?cs + left)"
    if a: "claims cs i k = Some (c, t)" for i k c t
  proof -
    obtain left where l: "TrimSpace c = c" "lease (cs_stores cs) c = Some (i, left)" "t + ttl \<le> cs_now cs + left"
      by (rule inv_lease [OF inv a])
    have "cs_now cs + d < t + ttl" using young a unfolding young_def cl by simp
    with l(3) have "d < left" by simp
    with p l show ?thesis by simp
  qed
  with p inv_node [OF inv] inv_unique [OF inv] show ?thesis unfolding cluster_inv_def cl by simp
qed

lemma inv_step:
  assumes "cluster_step pb procs pass others cs cs'" and "cluster_inv cs" and "young ttl cs'"
  shows "cluster_inv cs'"
  using assms(1)
proof (cases rule: cluster_step.cases)
  case (Start i start)
  then show ?thesis
    by (intro inv_keep [OF assms(2)])
       (use inv_wf [OF assms(2)] inv_node [OF assms(2)] in
         \<open>auto simp: node_ok_def pc_ok_def claims_def split: if_splits\<close>)
next
  case (Crash i)
  then show ?thesis
    by (intro inv_keep [OF assms(2)])
       (use inv_wf [OF assms(2)] inv_node [OF assms(2)] in \<open>auto simp: claims_def split: if_splits\<close>)
next
  case (Others s)
  with others_kept [OF inv_wf [OF assms(2)] Others(2)] show ?thesis
    by (intro inv_keep [OF assms(2)]) (use inv_node [OF assms(2)] in \<open>auto simp: claims_def\<close>)
qed (use assms(2,3) in \<open>auto intro: inv_event inv_request inv_call inv_round inv_stop inv_time\<close>)

lemma inv_run:
  assumes "young_run pb procs pass others ttl s cs" and "wf s"
  shows "cluster_inv cs"
  using assms(1)
proof (induction rule: young_run.induct)
  case Init
  show ?case using assms(2) by (simp add: cluster_inv_def empty_cluster_def claims_def)
next
  case (Next cs cs')
  show ?case by (rule inv_step [OF Next.hyps(2) Next.IH Next.hyps(3)])
qed

text \<open>Nobody is in the game twice, and everybody who is holds the lock.\<close>

lemma run_exclusive:
  assumes "young_run pb procs pass others ttl s cs" and "wf s"
  shows "exclusive cs" and "in_game cs i p c \<Longrightarrow> \<exists>left. lease (cs_stores cs) c = Some (i, left) \<and> 0 < left"
proof -
  note inv = inv_run [OF assms]
  show "exclusive cs" using inv_unique [OF inv] unfolding exclusive_def in_game_claim by blast
  assume "in_game cs i p c"
  then obtain t where c: "claims cs i (Playing p) = Some (c, t)" by (auto simp: in_game_claim)
  from assms(1) have "young ttl cs" by (cases rule: young_run.cases) (simp_all add: young_def empty_cluster_def claims_def)
  with c have "cs_now cs < t + ttl" by (auto simp: young_def)
  with inv_lease [OF inv c] show "\<exists>left. lease (cs_stores cs) c = Some (i, left) \<and> 0 < left" by force
qed

end

section \<open>Definitions: the cluster on Redis and PostgreSQL\<close>

definition lock_lease :: "KeyBuilder \<Rightarrow> kv \<Rightarrow> string \<Rightarrow> (string \<times> int) option" where
  "lock_lease k m c = (case CharacterLock k c of Inl e \<Rightarrow> None
     | Inr key \<Rightarrow> (case m key of Some (RStr ow, Some t) \<Rightarrow> Some (ow, t) | _ \<Rightarrow> None))"

definition lease_stores :: "KeyBuilder \<Rightarrow> ('s \<Rightarrow> kv) \<Rightarrow> 's \<times> 'd \<Rightarrow> string \<Rightarrow> (string \<times> int) option" where
  "lease_stores k view sd = lock_lease k (view (fst sd))"

text \<open>No key of a lock or a join token differs.\<close>

definition untouched :: "KeyBuilder \<Rightarrow> kv \<Rightarrow> kv \<Rightarrow> bool" where
  "untouched k m m' =
     (\<forall>parts key. build k parts = Inr key \<longrightarrow> hd parts = ''character_lock'' \<or> hd parts = ''join_token'' \<longrightarrow> m' key = m key)"

text \<open>
  The other clients of the two stores: the API process issues a join token that spells
  the character as the database does, or anybody writes to the database or to Redis keys
  of the other families (sessions, the server registry, rate limits).
\<close>

inductive other_client ::
  "joinTokenPayload json \<Rightarrow> (string \<Rightarrow> string option) \<Rightarrow> 's redis \<Rightarrow> KeyBuilder \<Rightarrow> ('s \<Rightarrow> kv) \<Rightarrow> 's \<times> 'd \<Rightarrow> 's \<times> 'd \<Rightarrow> bool"
  for js canon rc keys view where
  Issue: "CreateJoinToken js (Some (NewJoinTokenStore (Some rc) keys)) now t s = (r, s') \<Longrightarrow>
    canon (jt_CharacterID t) = Some (jt_CharacterID t) \<Longrightarrow>
    list_all is_ascii [jt_UserID t, jt_CharacterID t, jt_ServerID t, jt_ServerAddr t] \<Longrightarrow>
    0 \<le> now \<Longrightarrow> jt_ExpiresAt t < 2 ^ 63 \<Longrightarrow> other_client js canon rc keys view (s, d) (s', d)"
| Elsewhere: "untouched keys (view s) (view s') \<Longrightarrow> wf_keys keys (view s') \<Longrightarrow> other_client js canon rc keys view (s, d) (s', d')"

section \<open>Lemmas: leases\<close>

lemma lock_lease_at:
  "lock_lease k (m(key := e)) c =
     (if CharacterLock k c = Inr key then (case e of Some (RStr ow, Some t) \<Rightarrow> Some (ow, t) | _ \<Rightarrow> None) else lock_lease k m c)"
  by (simp add: lock_lease_def split: sum.splits)

lemma lock_lease_upd:
  assumes "CharacterLock k c = Inr key"
  shows "lock_lease k (m(key \<mapsto> (RStr ow, Some t))) = (lock_lease k m)(c \<mapsto> (ow, t))"
    and "lock_lease k (m(key := None)) = (lock_lease k m)(c := None)"
  by (simp_all add: fun_eq_iff lock_lease_at lock_key_inject [OF assms])

lemma untouched_upd:
  assumes "build k parts = Inr key" and "hd parts \<noteq> ''character_lock''" and "hd parts \<noteq> ''join_token''"
  shows "untouched k m (m(key := e))"
  unfolding untouched_def
proof (intro allI impI)
  fix qs key'
  assume b: "build k qs = Inr key'" and f: "hd qs = ''character_lock'' \<or> hd qs = ''join_token''"
  have "key' \<noteq> key" using build_inject [OF assms(1), of qs] b f assms(2,3) by metis
  then show "(m(key := e)) key' = m key'" by simp
qed

lemma untouched_trans: "untouched k m m' \<Longrightarrow> untouched k m' m'' \<Longrightarrow> untouched k m m''"
  by (simp add: untouched_def)

lemma untouched_leases: "untouched k m m' \<Longrightarrow> lock_lease k m' = lock_lease k m"
  by (rule ext) (auto simp: untouched_def lock_lease_def CharacterLock_def split: sum.splits)

lemma untouched_tokens: "untouched k m m' \<Longrightarrow> pending_raw k m' = pending_raw k m"
  by (rule ext) (auto simp: untouched_def pending_raw_def key_JoinToken_def split: sum.splits)

lemma token_keeps_leases: "key_JoinToken k t = Inr key \<Longrightarrow> lock_lease k (m(key := e)) = lock_lease k m"
  unfolding key_JoinToken_def
  using build_inject [of k "[''join_token'', t]" key] by (auto simp: fun_eq_iff lock_lease_at CharacterLock_def)

lemma age_lease: "lock_lease k m c = Some (ow, t) \<Longrightarrow> d < t \<Longrightarrow> lock_lease k (age d m) c = Some (ow, t - d)"
  by (auto simp: lock_lease_def age_def split: sum.splits option.splits rval.splits prod.splits)

lemma age_tokens: "pending_raw k (age d m) tok = Some raw \<Longrightarrow> pending_raw k m tok = Some raw"
  by (auto simp: pending_raw_def age_def split: sum.splits option.splits rval.splits prod.splits if_splits)

lemma lease_holder: "lock_lease k m c = Some (ow, t) \<Longrightarrow> lock_holder k m c = Some ow"
  by (auto simp: lock_lease_def lock_holder_def split: sum.splits option.splits rval.splits)

context redis_server
begin

lemma issue_canonical:
  assumes "tokens_canonical js canon (jts_keys ts) (view s)" and "CreateJoinToken js (Some ts) now t s = (r, s')"
    and "jts_client ts = Some rc"
    and "json_roundtrip token_payload_ok js" and "canon (jt_CharacterID t) = Some (jt_CharacterID t)"
    and "list_all is_ascii [jt_UserID t, jt_CharacterID t, jt_ServerID t, jt_ServerAddr t]"
    and "0 \<le> now" and "jt_ExpiresAt t < 2 ^ 63"
  shows "tokens_canonical js canon (jts_keys ts) (view s')"
  using assms(2,3)
proof (cases rule: CreateJoinToken_cases)
  case (call key data q)
  let ?p = "\<lparr>jp_UserID = jt_UserID t, jp_CharacterID = jt_CharacterID t, jp_ServerID = jt_ServerID t,
     jp_ServerAddr = jt_ServerAddr t, jp_ExpiresAt = jt_ExpiresAt t\<rparr>"
  have pos: "0 < Until now (jt_ExpiresAt t)" using call(2) by simp
  from c_Set_view [OF call(4) pos] show ?thesis
  proof
    assume v: "view s' = (view s)(key \<mapsto> (RStr data, Some (px_ms rc (Until now (jt_ExpiresAt t)))))"
    have "token_payload_ok ?p" using assms(6-8) call(2) by (simp add: token_payload_ok_def)
    from json_roundtripD [OF assms(4) this call(3)] have um: "unmarshal js data = Inr ?p" .
    show ?thesis
      using assms(1,5) um call(1) by (auto simp: tokens_canonical_def v pending_raw_upd joinTokenOf_Inr split: if_splits)
  qed (use assms(1) in simp)
qed (use assms(1) in simp)

lemma consume_canonical:
  assumes "tokens_canonical js canon (jts_keys ts) (view s)" and "wf_keys (jts_keys ts) (view s)"
    and "ConsumeJoinToken js (Some ts) tok s = (r, s')" and "jts_client ts = Some rc"
  shows "tokens_canonical js canon (jts_keys ts) (view s')"
  using consume_token_view [OF assms(3,4,2)] assms(1)
  by (auto simp: tokens_canonical_def pending_raw_upd split: if_splits)

end

context game_stores
begin

lemma acquire_leases:
  assumes "AcquireCharacterLock (Some ls) c ow lockTTL s = (a, s')"
  shows "lock_lease k_stores (view s') = lock_lease k_stores (view s) \<and> a \<noteq> Inr True \<or>
    lock_lease k_stores (view s) (TrimSpace c) = None \<and>
    lock_lease k_stores (view s') = (lock_lease k_stores (view s))(TrimSpace c \<mapsto> (TrimSpace ow, px_ms rc lockTTL))"
proof (cases "view s' = view s \<and> a \<noteq> Inr True")
  case False
  have e: "effectiveTTL ls lockTTL = lockTTL" using lockTTL by (simp add: effectiveTTL_def)
  obtain key where "CharacterLock k_stores (TrimSpace c) = Inr key" "view s key = None"
    "view s' = (view s)(key \<mapsto> (RStr (TrimSpace ow), Some (px_ms rc lockTTL)))"
  proof (cases "a = Inr True")
    case True
    with acquire_True_view [OF assms [unfolded True] st_client effectiveTTL_pos] that e show ?thesis by auto
  next
    case a: False
    with False have "view s' \<noteq> view s" by simp
    with acquire_view [OF assms st_client effectiveTTL_pos] that e show ?thesis by auto
  qed
  then show ?thesis by (simp add: lock_lease_upd) (simp add: lock_lease_def)
qed simp

lemma release_leases:
  assumes "wf_keys k_stores (view s)" and "ReleaseCharacterLock (Some ls) c ow s = (a, s')"
  shows "lock_lease k_stores (view s') = lock_lease k_stores (view s) \<or>
    (\<exists>t. lock_lease k_stores (view s) (TrimSpace c) = Some (TrimSpace ow, t)) \<and>
    lock_lease k_stores (view s') = (lock_lease k_stores (view s))(TrimSpace c := None)"
  using release_view [OF assms(2) st_client assms(1)]
proof
  assume "\<exists>key t. CharacterLock k_stores (TrimSpace c) = Inr key \<and> view s key = Some (RStr (TrimSpace ow), t) \<and>
      view s' = (view s)(key := None)"
  then obtain key t where k: "CharacterLock k_stores (TrimSpace c) = Inr key" "view s key = Some (RStr (TrimSpace ow), t)"
    and v: "view s' = (view s)(key := None)" by blast
  have l: "lock_lease k_stores (view s) (TrimSpace c) = map_option (Pair (TrimSpace ow)) t"
    using k by (cases t) (simp_all add: lock_lease_def)
  show ?thesis
  proof (cases t)
    case None
    with l show ?thesis unfolding v lock_lease_upd(2) [OF k(1)] by (simp add: fun_upd_idem)
  qed (use l in \<open>simp add: v lock_lease_upd(2) [OF k(1)]\<close>)
qed simp

lemma consume_leases:
  assumes "wf_keys k_stores (view s)" and "ConsumeJoinToken js (Some ts) t s = (r, s')"
  shows "lock_lease k_stores (view s') = lock_lease k_stores (view s)"
  using consume_token_view [OF assms(2) ts_client] assms(1) by (auto simp: ts_keys token_keeps_leases)

text \<open>Issuing a token, whatever the call reports.\<close>

lemma issue_stores:
  assumes "wf_stores js canon k_stores view (s, d)" and "CreateJoinToken js (Some ts) now t s = (r, s')"
    and "json_roundtrip token_payload_ok js" and "canon (jt_CharacterID t) = Some (jt_CharacterID t)"
    and "list_all is_ascii [jt_UserID t, jt_CharacterID t, jt_ServerID t, jt_ServerAddr t]"
    and "0 \<le> now" and "jt_ExpiresAt t < 2 ^ 63"
  shows "wf_stores js canon k_stores view (s', d) \<and> lock_lease k_stores (view s') = lock_lease k_stores (view s)"
proof -
  have w: "wf_keys (jts_keys ts) (view s)" "tokens_canonical js canon (jts_keys ts) (view s)"
    using assms(1) by (simp_all add: wf_stores_def ts_keys)
  have "wf_stores js canon k_stores view (s', d)"
    using keeps_to_wf [OF tokens_within(1) [OF ts_client w(1) assms(2)]] issue_canonical [OF w(2) assms(2) ts_client assms(3-7)]
    by (simp add: wf_stores_def ts_keys)
  moreover have "lock_lease k_stores (view s') = lock_lease k_stores (view s)"
    using create_token_view [OF assms(2) ts_client] by (auto simp: ts_keys token_keeps_leases)
  ultimately show ?thesis by simp
qed

text \<open>The calls on both stores, as the handler makes them.\<close>

lemma consume_call:
  assumes "wf_stores js canon k_stores view s" and "on_fst (ConsumeJoinToken js (Some ts) t) s = (r, s')"
  shows "wf_stores js canon k_stores view s' \<and> lease_stores k_stores view s' = lease_stores k_stores view s"
proof -
  from assms(2) have c: "ConsumeJoinToken js (Some ts) t (fst s) = (r, fst s')" by (cases s) (auto simp: on_fst_eq)
  have w: "wf_stores js canon k_stores view (fst s, snd s)" using assms(1) by simp
  from consume_stores [OF w c, of "snd s'"] consume_leases [OF wf_storesD(1) [OF w, simplified] c] show ?thesis
    by (simp add: lease_stores_def)
qed

lemma acquire_call:
  assumes "wf_stores js canon k_stores view s" and "on_fst (AcquireCharacterLock (Some ls) c ow lockTTL) s = (a, s')"
  shows "wf_stores js canon k_stores view s' \<and> (lease_stores k_stores view s' = lease_stores k_stores view s \<and> a \<noteq> Inr True \<or>
    lease_stores k_stores view s (TrimSpace c) = None \<and>
    lease_stores k_stores view s' = (lease_stores k_stores view s)(TrimSpace c \<mapsto> (TrimSpace ow, px_ms rc lockTTL)))"
proof -
  from assms(2) have c: "AcquireCharacterLock (Some ls) c ow lockTTL (fst s) = (a, fst s')" by (cases s) (auto simp: on_fst_eq)
  have w: "wf_stores js canon k_stores view (fst s, snd s)" using assms(1) by simp
  from acquire_wf [OF w c, of "snd s'"] acquire_leases [OF c] show ?thesis by (simp add: lease_stores_def)
qed

lemma release_call:
  assumes "wf_stores js canon k_stores view s" and "on_fst (ReleaseCharacterLock (Some ls) c ow) s = (a, s')"
  shows "wf_stores js canon k_stores view s' \<and> (lease_stores k_stores view s' = lease_stores k_stores view s \<or>
    (\<exists>t. lease_stores k_stores view s (TrimSpace c) = Some (TrimSpace ow, t)) \<and>
    lease_stores k_stores view s' = (lease_stores k_stores view s)(TrimSpace c := None))"
proof -
  from assms(2) have c: "ReleaseCharacterLock (Some ls) c ow (fst s) = (a, fst s')" by (cases s) (auto simp: on_fst_eq)
  have w: "wf_stores js canon k_stores view (fst s, snd s)" using assms(1) by simp
  from release_wf [OF w c, of "snd s'"] release_leases [OF wf_storesD(1) [OF w, simplified] c] show ?thesis
    by (simp add: lease_stores_def)
qed

end

section \<open>Lemmas: the other clients keep to their keys\<close>

lemma untouched_refl [simp]: "untouched k m m"
  by (simp add: untouched_def)

lemma keeps_to_untouched: "keeps_to F k m m' \<Longrightarrow> ''character_lock'' \<notin> F \<Longrightarrow> ''join_token'' \<notin> F \<Longrightarrow> untouched k m m'"
  unfolding keeps_to_def untouched_def by metis

lemma untouched_stores:
  "wf_stores js canon k view s \<Longrightarrow> untouched k (view (fst s)) (view (fst s')) \<Longrightarrow> wf_keys k (view (fst s')) \<Longrightarrow>
     wf_stores js canon k view s' \<and> lease_stores k view s' = lease_stores k view s"
  by (simp add: lease_stores_def wf_stores_def untouched_leases tokens_canonical_def untouched_tokens)

lemma pass_stores:
  assumes "redis_clock rc view pass" and "wf_stores js canon k view s" and "0 \<le> d"
  shows "wf_stores js canon k view (pass d (fst s), snd s) \<and>
    (\<forall>c ow t. lease_stores k view s c = Some (ow, t) \<longrightarrow> d < t \<longrightarrow> lease_stores k view (pass d (fst s), snd s) c = Some (ow, t - d))"
proof -
  have v: "view (pass d (fst s)) = age d (view (fst s))" by (rule redis_clock.pass_view [OF assms(1,3)])
  have "tokens_canonical js canon k (age d (view (fst s)))"
    by (rule tokens_canonical_sub [OF _ age_tokens]) (use assms(2) in \<open>simp_all add: wf_stores_def\<close>)
  moreover have "wf_keys k (age d (view (fst s)))" using assms(2) by (simp add: wf_stores_def wf_keys_age)
  ultimately have "wf_stores js canon k view (pass d (fst s), snd s)" by (simp add: wf_stores_def v)
  then show ?thesis using age_lease [of k "view (fst s)"] by (simp add: lease_stores_def v)
qed

text \<open>Every wired process meets the contract of the cluster.\<close>

lemma wired_cluster:
  assumes "redis_clock rc view pass" and "postgres_db pg users chars canon ci" and "json_roundtrip token_payload_ok js"
    and "NewKeyBuilderFromConfig conf = Inr keys"
    and "\<forall>i. i \<noteq> [] \<longrightarrow> app_NewGameServer new_host js jsv ready (Some rc) (Some pg) conf i = Inr (procs i)"
  shows "cluster_stores procs (lease_stores keys view) (wf_stores js canon keys view) (px_ms rc DefaultCharacterLockTTL)
    (\<lambda>d sd. (pass d (fst sd), snd sd)) (other_client js canon rc keys view)"
proof -
  have rs: "redis_server rc view" using assms(1) by (simp add: redis_clock_def)
  define ls where "ls = \<lparr>cl_client = Some rc, cl_keys = keys, cl_lockTTL = DefaultCharacterLockTTL\<rparr>"
  define ts where "ts = \<lparr>jts_client = Some rc, jts_keys = keys\<rparr>"
  note st = wired_stores [OF rs assms(2) ls_def ts_def]
  have k: "cl_keys ls = keys" "NewJoinTokenStore (Some rc) keys = ts" by (simp_all add: ls_def ts_def NewJoinTokenStore_def)
  have h: "joinHandler (procs i) = game_handler js ts ls pg DefaultCharacterLockTTL i" if "i \<noteq> []" for i
    by (rule app_NewGameServer_Inr [OF assms(5) [rule_format, OF that]]) (use assms(4) in \<open>simp add: ls_def ts_def\<close>)
  note hs = h game_handler_def NewJoinHandler_def
  show ?thesis
  proof (unfold_locales, goal_cases)
    case (1 i)
    then show ?case by (simp add: hs)
  next
    case (2 i)
    then show ?case using wired_handler(4) [OF rs assms(2) assms(5) [rule_format, OF 2] assms(4)] by simp
  next
    case (3 i)
    then show ?case using wired_handler(5) [OF rs assms(2) assms(5) [rule_format, OF 3] assms(4)] by simp
  next
    case (4 i s t r s')
    from 4(1,3) have "on_fst (ConsumeJoinToken js (Some ts) t) s = (r, s')" by (simp add: hs)
    from game_stores.consume_call [OF st 4(2) [folded k(1)] this] show ?case by (simp add: k)
  next
    case (5 i s c r s')
    then show ?case by (cases s) (auto simp: hs on_snd_eq lease_stores_def wf_stores_def)
  next
    case (6 i s t tok s1 s2 ch s3)
    from wired_handler(1) [OF rs assms(2) assms(5) [rule_format, OF 6(1)] assms(4)] 6(2-5)
    show ?case by (rule canonical_backend.load_id)
  next
    case (7 i s c ow a s')
    from 7(1,3) have "on_fst (AcquireCharacterLock (Some ls) c ow DefaultCharacterLockTTL) s = (a, s')" by (simp add: hs)
    from game_stores.acquire_call [OF st 7(2) [folded k(1)] this] show ?case by (simp add: k)
  next
    case (8 i s c ow a s')
    from 8(1,3) have "on_fst (ReleaseCharacterLock (Some ls) c ow) s = (a, s')" by (simp add: hs)
    from game_stores.release_call [OF st 8(2) [folded k(1)] this] show ?case by (simp add: k)
  next
    case (9 i s j u s')
    obtain reg where reg: "gsp_deregister (procs i) = (\<lambda>j. on_fst (DeregisterGameServer (Some reg) j))"
      "gss_client reg = Some rc" "gss_keys reg = keys"
      by (rule app_NewGameServer_Inr [OF assms(5) [rule_format, OF 9(1)]]) (use assms(4) in simp)
    with 9(3) have d: "DeregisterGameServer (Some reg) j (fst s) = (u, fst s')" by (cases s) (auto simp: on_fst_eq)
    have "keeps_to {''server''} keys (view (fst s)) (view (fst s'))"
      using redis_server.deregister_within [OF rs d reg(2)] 9(2) by (simp add: reg wf_stores_def)
    then show ?case by (intro untouched_stores [OF 9(2)]) (auto intro: keeps_to_untouched keeps_to_wf)
  next
    case (10 s s')
    from 10(2) show ?case
    proof (cases rule: other_client.cases)
      case (Issue now t s0 r s1 d)
      with 10(1) game_stores.issue_stores [OF st _ _ assms(3), of s0 d now t r s1] show ?thesis
        by (simp add: k lease_stores_def)
    qed (use untouched_stores [OF 10(1), of s'] in simp)
  next
    case (11 s d)
    then show ?case by (rule pass_stores [OF assms(1)])
  qed
qed

lemma lock_ttl_ms: "redis_server rc view \<Longrightarrow> px_ms rc DefaultCharacterLockTTL = 20000"
  by (simp add: redis_server.px_ms DefaultCharacterLockTTL_def Second_def Millisecond_def)

text \<open>The pieces make up the handler.\<close>

lemma join_calls:
  "((\<lambda>(c, g). join_call pb h c g) ^^ 4) (begin_join pb peer data g) = (Idle, HandleJoinRequest pb h peer data g)"
  by (auto simp: numeral_eq_Suc begin_join_def HandleJoinRequest_def split: sum.splits prod.splits)

section \<open>Properties\<close>



text \<open>
  C14. Every join ends and is answered: whatever the stores answer and whatever the other
  processes do to them before each call, after at most four store calls the process is
  between events again, the peer has been sent exactly one answer (with a disconnection
  when it is a refusal), a refusal has left world and sessions alone, and an admission has
  touched no other session.
\<close>

theorem join_terminates:
  "\<exists>g'. join_among pb h (f1 # f2 # f3 # f4 # fs) (begin_join pb peer data g) = (Idle, g') \<and> answered pb peer g g'"
proof (cases "unmarshalJoinRequest pb data")
  case (Inl e)
  have a: "answered pb peer g (sendJoinResponse pb peer False ''invalid join request'' g)"
    using refused_answered [of pb peer g _ "g_store g"] by simp
  obtain s where "join_among pb h (f1 # f2 # f3 # f4 # fs) (begin_join pb peer data g) =
      (Idle, (sendJoinResponse pb peer False ''invalid join request'' g)\<lparr>g_store := s\<rparr>)"
    using Inl join_among_idle [of pb h "f1 # f2 # f3 # f4 # fs" "sendJoinResponse pb peer False ''invalid join request'' g"]
    unfolding begin_join_def by (auto simp del: join_among.simps)
  then show ?thesis using a by simp
next
  case (Inr req)
  then show ?thesis
    using join_among_ends [of "Consuming peer req" "f1 # f2 # f3 # f4 # fs" peer pb h g] unfolding begin_join_def
    by (simp del: join_among.simps)
qed

section \<open>Witnesses\<close>

text \<open>Less than the bound has passed since the start, so every claim is young.\<close>

definition early :: "int \<Rightarrow> ('p, 's) cluster \<Rightarrow> bool" where
  "early ttl cs = (0 \<le> cs_now cs \<and> cs_now cs < ttl \<and>
     (\<forall>i nd. cs_nodes cs i = Some nd \<longrightarrow> 0 \<le> nd_taken nd \<and> (\<forall>p. 0 \<le> nd_since nd p)))"

lemma early_claims: "early ttl cs \<Longrightarrow> claims cs i k = Some (c, t) \<Longrightarrow> 0 \<le> t"
  by (cases k) (auto simp: early_def claims_def split: bind_splits pc.splits)

lemma early_young: "early ttl cs \<Longrightarrow> young ttl cs"
  using early_claims by (fastforce simp: young_def early_def)

lemma early_put:
  "early ttl cs \<Longrightarrow> 0 \<le> nd_taken nd \<Longrightarrow> \<forall>p. 0 \<le> nd_since nd p \<Longrightarrow> early ttl (put_node i nd cs)"
  by (simp add: early_def)

lemma note_call_early:
  "0 \<le> now \<Longrightarrow> 0 \<le> nd_taken nd \<Longrightarrow> \<forall>p. 0 \<le> nd_since nd p \<Longrightarrow>
     0 \<le> nd_taken (with_game g (note_call now old new nd)) \<and> (\<forall>p. 0 \<le> nd_since (with_game g (note_call now old new nd)) p)"
  by (cases old) (auto simp: note_call_def with_game_def)

text \<open>The handler of a join as a sequence of steps of the cluster.\<close>

lemma calls_reachable:
  assumes "young_run pb procs pass others ttl s cs" and "early ttl cs" and "cs_nodes cs i = Some nd"
  shows "\<exists>cs' nd'. young_run pb procs pass others ttl s cs' \<and> early ttl cs' \<and> cs_nodes cs' = (cs_nodes cs)(i \<mapsto> nd') \<and>
    cs_now cs' = cs_now cs \<and> (nd_pc nd', local_game cs' nd') = ((\<lambda>(c, g). join_call pb (joinHandler (procs i)) c g) ^^ n) (nd_pc nd, local_game cs nd)"
proof (induction n)
  case 0
  show ?case using assms by (intro exI [of _ cs] exI [of _ nd]) (simp add: fun_upd_idem)
next
  case (Suc n)
  then obtain cs1 nd1 where r: "young_run pb procs pass others ttl s cs1" and z: "early ttl cs1" and ns: "cs_nodes cs1 = (cs_nodes cs)(i \<mapsto> nd1)" "cs_now cs1 = cs_now cs"
    and e: "(nd_pc nd1, local_game cs1 nd1) = ((\<lambda>(c, g). join_call pb (joinHandler (procs i)) c g) ^^ n) (nd_pc nd, local_game cs nd)"
    by blast
  have nd: "cs_nodes cs1 i = Some nd1" by (simp add: ns)
  obtain c g where j: "join_call pb (joinHandler (procs i)) (nd_pc nd1) (local_game cs1 nd1) = (c, g)" by force
  show ?case
  proof (cases "nd_pc nd1 = Idle")
    case True
    with r z ns e j show ?thesis by (intro exI [of _ cs1] exI [of _ nd1]) (simp flip: e)
  next
    case False
    let ?nd = "with_game g (note_call (cs_now cs1) (nd_pc nd1) c nd1)"
    have z': "early ttl (put_node i ?nd cs1)"
      using z nd note_call_early [of "cs_now cs1" nd1 g "nd_pc nd1" c] by (intro early_put) (simp_all add: early_def)
    have "young_run pb procs pass others ttl s (put_node i ?nd cs1)"
      by (rule young_run.Next [OF r cluster_step.Call [where procs = procs, OF nd False j] early_young [OF z']])
    moreover have "nd_pc ?nd = c" by (simp add: note_call_def split: pc.splits)
    ultimately show ?thesis using z' j ns
      by (intro exI [of _ "put_node i ?nd cs1"] exI [of _ ?nd]) (simp flip: e)
  qed
qed

lemma join_reachable:
  assumes "young_run pb procs pass others ttl s cs" and "early ttl cs" and "cs_nodes cs i = Some nd" and "nd_pc nd = Idle"
  shows "\<exists>cs' nd'. young_run pb procs pass others ttl s cs' \<and> early ttl cs' \<and> cs_nodes cs' = (cs_nodes cs)(i \<mapsto> nd') \<and>
    nd_pc nd' = Idle \<and> cs_now cs' = cs_now cs \<and> local_game cs' nd' = HandleJoinRequest pb (joinHandler (procs i)) p data (local_game cs nd)"
proof -
  obtain c g where b: "begin_join pb p data (local_game cs nd) = (c, g)" by force
  let ?nd = "with_game g (nd\<lparr>nd_pc := c\<rparr>)"
  have z: "early ttl (put_node i ?nd cs)"
    using assms(2,3) by (intro early_put) (simp_all add: early_def with_game_def)
  have "young_run pb procs pass others ttl s (put_node i ?nd cs)"
    by (rule young_run.Next [OF assms(1) cluster_step.Request [OF assms(3,4) b] early_young [OF z]])
  from calls_reachable [OF this z, of i ?nd 4] obtain cs' nd' where
    r: "young_run pb procs pass others ttl s cs'" "early ttl cs'" "cs_nodes cs' = (cs_nodes cs)(i \<mapsto> nd')" "cs_now cs' = cs_now cs"
    and e: "(nd_pc nd', local_game cs' nd') = ((\<lambda>(c, g). join_call pb (joinHandler (procs i)) c g) ^^ 4) (c, g)"
    by auto
  have "HandleJoinRequest pb (joinHandler (procs i)) p data (local_game cs nd) = local_game cs' nd'" "nd_pc nd' = Idle"
    using e join_calls [of pb "joinHandler (procs i)" p data "local_game cs nd"] b by simp_all
  with r show ?thesis by metis
qed

text \<open>Game servers on the in-memory stores, under every server ID.\<close>

definition w_procs :: "string \<Rightarrow> (mem \<times> mem_db) GameServerProc" where
  "w_procs i = projr (app_NewGameServer (\<lambda>_ _ _. Inr ()) mem_token_json mem_server_json (\<lambda>_. Inr ())
     (Some mem_redis) (Some mem_pg) w_conf i)"

lemma w_procs_wired:
  "\<forall>i. i \<noteq> [] \<longrightarrow> app_NewGameServer (\<lambda>_ _ _. Inr ()) mem_token_json mem_server_json (\<lambda>_. Inr ())
     (Some mem_redis) (Some mem_pg) w_conf i = Inr (w_procs i)"
proof (intro allI impI)
  fix i :: string
  assume ne: "i \<noteq> []"
  let ?a = "app_NewGameServer (\<lambda>_ _ _. Inr ()) mem_token_json mem_server_json (\<lambda>_. Inr ())
     (Some mem_redis) (Some mem_pg) w_conf i :: (mem \<times> mem_db) GameServerProc result"
  have addr: "GameENetAddr w_conf = '':7777''" "GameHTTPAddr w_conf = '':8081''" by (simp_all add: w_conf_def)
  have "\<exists>gs. ?a = Inr gs"
    unfolding app_NewGameServer_def newGameConfig_def w_keys_conf newGameStores_def
    by (simp add: NewCharacterLockStore_def NewGameServerStore_def NewGameServer_def required_stores_def newGameServerConfig_def addr w_host ne
        DefaultCharacterLockTTL_def DefaultServerTTL_def Second_def)
  then show "?a = Inr (w_procs i)" by (auto simp: w_procs_def)
qed

abbreviation w_pass :: "int \<Rightarrow> mem \<times> mem_db \<Rightarrow> mem \<times> mem_db" where
  "w_pass \<equiv> \<lambda>d sd. (mem_pass d (fst sd), snd sd)"

abbreviation w_others :: "mem \<times> mem_db \<Rightarrow> mem \<times> mem_db \<Rightarrow> bool" where
  "w_others \<equiv> other_client mem_token_json mem_canon mem_redis w_keys mem_view"

interpretation mem_cluster: cluster_stores w_procs "lease_stores w_keys mem_view" "wf_stores mem_token_json mem_canon w_keys mem_view"
  "px_ms mem_redis DefaultCharacterLockTTL" w_pass w_others
  by (rule wired_cluster [OF mem_clocked.redis_clock_axioms mem_database.postgres_db_axioms mem_token_json_roundtrip w_keys_conf w_procs_wired])

abbreviation w_stores :: "mem \<times> mem_db" where
  "w_stores \<equiv> (w_issue ''t2'' ''b2'' (w_issue ''t1'' ''b1'' mem_empty), w_mem_db)"

text \<open>Server \<open>s1\<close> starts, admits peer 1 as \<open>b1\<close>, server \<open>s2\<close> starts, and a second passes.\<close>

lemma w_procs_s1: "joinHandler (w_procs ''s1'') = mem_handler"
proof -
  have "w_procs ''s1'' = w_gs" by (simp add: w_procs_def w_gs_def)
  then show ?thesis by (simp add: w_gs_handler)
qed

lemma w_start:
  assumes "young_run w_proto w_procs w_pass w_others ttl s cs" and "early ttl cs" and "cs_nodes cs i = None"
    and "i \<noteq> []" and "TrimSpace i = i"
  shows "young_run w_proto w_procs w_pass w_others ttl s (put_node i (fresh_node 0 (cs_stores cs)) cs)"
    and "early ttl (put_node i (fresh_node 0 (cs_stores cs)) cs)"
proof -
  show z: "early ttl (put_node i (fresh_node 0 (cs_stores cs)) cs)"
    by (rule early_put [OF assms(2)]) (simp_all add: fresh_node_def)
  show "young_run w_proto w_procs w_pass w_others ttl s (put_node i (fresh_node 0 (cs_stores cs)) cs)"
    by (rule young_run.Next [OF assms(1) cluster_step.Start [OF assms(3-5)] early_young [OF z]])
qed

lemma w_wait:
  assumes "young_run w_proto w_procs w_pass w_others ttl s cs" and "early ttl cs" and "0 \<le> d" and "cs_now cs + d < ttl"
  shows "young_run w_proto w_procs w_pass w_others ttl s (cs\<lparr>cs_stores := w_pass d (cs_stores cs), cs_now := cs_now cs + d\<rparr>)"
    and "early ttl (cs\<lparr>cs_stores := w_pass d (cs_stores cs), cs_now := cs_now cs + d\<rparr>)"
proof -
  show z: "early ttl (cs\<lparr>cs_stores := w_pass d (cs_stores cs), cs_now := cs_now cs + d\<rparr>)" using assms(2-4) by (simp add: early_def)
  show "young_run w_proto w_procs w_pass w_others ttl s (cs\<lparr>cs_stores := w_pass d (cs_stores cs), cs_now := cs_now cs + d\<rparr>)"
    by (rule young_run.Next [OF assms(1) cluster_step.Time [where pass = w_pass and d = d, OF assms(3)] early_young [OF z]])
qed

text \<open>Server \<open>s1\<close> starts, admits peer 1, and time passes.\<close>

lemma w_first_join:
  assumes "young_run w_proto w_procs w_pass w_others ttl s cs" and "early ttl cs" and "cs_nodes cs ''s1'' = None" and "cs_stores cs = (m, w_mem_db)"
    and "0 \<le> d" and "cs_now cs + d < ttl"
  shows "\<exists>cs' nd. young_run w_proto w_procs w_pass w_others ttl s cs' \<and> early ttl cs' \<and> cs_nodes cs' = (cs_nodes cs)(''s1'' \<mapsto> nd) \<and>
    nd_pc nd = Idle \<and> cs_now cs' = cs_now cs + d \<and>
    local_game cs' nd = (w_join t c (w_game m))\<lparr>g_store := w_pass d (g_store (w_join t c (w_game m)))\<rparr>"
proof -
  note s1 = w_start [OF assms(1-3) _ w_trim(1), unfolded assms(4)]
  have g: "l_game (nd_loop (fresh_node 0 (m, w_mem_db))) = w_game m" by (simp add: fresh_node_def w_game_def)
  let ?c = "put_node ''s1'' (fresh_node 0 (m, w_mem_db)) cs"
  obtain cs1 nd where r: "young_run w_proto w_procs w_pass w_others ttl s cs1" "early ttl cs1"
    and n: "cs_nodes cs1 = (cs_nodes ?c)(''s1'' \<mapsto> nd)" "nd_pc nd = Idle" "cs_now cs1 = cs_now ?c"
    and j: "local_game cs1 nd = w_join t c (w_game m)"
    using join_reachable [OF s1, of "''s1''" "fresh_node 0 (m, w_mem_db)" 1 "frame [t, c]"]
    by (auto simp: g w_join_def w_procs_s1)
  let ?cs = "cs1\<lparr>cs_stores := w_pass d (cs_stores cs1), cs_now := cs_now cs1 + d\<rparr>"
  have "cs_stores cs1 = g_store (w_join t c (w_game m))" using j by (metis local_game_simps(1))
  then have "local_game ?cs nd = (w_join t c (w_game m))\<lparr>g_store := w_pass d (g_store (w_join t c (w_game m)))\<rparr>"
    unfolding j [symmetric] by (simp add: local_game_def)
  with w_wait [OF r assms(5)] n assms(6) show ?thesis by (intro exI [of _ ?cs] exI [of _ nd]) simp
qed

lemma w_empty: "0 < ttl \<Longrightarrow> early ttl (empty_cluster s)" "cs_nodes (empty_cluster s) i = None" "cs_stores (empty_cluster s) = s" "cs_now (empty_cluster s) = 0"
  by (simp_all add: early_def empty_cluster_def)

text \<open>The servers \<open>s2\<close> and \<open>s1\<close> start, \<open>s1\<close> admits peer 1 as \<open>b1\<close>, and a second passes.\<close>

lemma w_cluster:
  "\<exists>cs :: (nat, mem \<times> mem_db) cluster. young_run w_proto w_procs w_pass w_others 20000 w_stores cs \<and> in_game cs ''s1'' 1 ''b1'' \<and>
     cs_nodes cs ''s2'' \<noteq> None \<and> cs_now cs = 1000"
proof -
  have t: "TrimSpace ''s2'' = ''s2''" by code_simp
  note s2 = w_start [OF young_run.Init w_empty(1) w_empty(2) _ t, unfolded w_empty(3)]
  let ?c = "put_node ''s2'' (fresh_node 0 w_stores) (empty_cluster w_stores) :: (nat, mem \<times> mem_db) cluster"
  obtain cs nd where r: "young_run w_proto w_procs w_pass w_others 20000 w_stores cs" and n: "cs_nodes cs = (cs_nodes ?c)(''s1'' \<mapsto> nd)"
    "cs_now cs = 1000" and g: "local_game cs nd = (w_join ''t1'' ''b1'' w_game_2)\<lparr>g_store := w_pass 1000 (g_store (w_join ''t1'' ''b1'' w_game_2))\<rparr>"
    using w_first_join [OF s2, of 20000 w_stores "fst w_stores" 1000 "''t1''" "''b1''"] by (auto simp: w_empty w_game_2_def)
  from local_sessions [OF g] n have "in_game cs ''s1'' 1 ''b1''" using w_run_session unfolding w_run_join by (simp add: in_game_def plays_def)
  with r n show ?thesis by (intro exI [of _ cs]) simp
qed


section \<open>The bound is needed\<close>

definition w_double :: "(nat, mem \<times> mem_db) game" where
  "w_double = (let g = w_join ''t1'' ''b1'' (w_game (w_issue ''t2'' ''b1'' (w_issue ''t1'' ''b1'' mem_empty)))
     in HandleJoinRequest w_proto mem_handler 2 (frame [''t2'', ''b1'']) (g\<lparr>g_store := w_pass 20000 (g_store g)\<rparr>))"

lemma w_double_sessions:
  "map_option sess_CharacterID (fmlookup (g_sessions w_double) 1) = Some ''b1''"
  "map_option sess_CharacterID (fmlookup (g_sessions w_double) 2) = Some ''b1''"
  by code_simp+


end
