(* ===== verification/Redis_Program.thy ===== *)
theory Redis_Program
  imports Cluster Rate_Limit
begin

text \<open>
  The whole use of Redis by a deployment: every operation of the five stores of
  \<open>internal/store/redis\<close>, issued by any number of API and game server processes in any
  order, with time passing in between. The theory shows that each operation keeps to the
  key families of its store, and that the well-formedness which the other theories assume
  of the key space holds in every state that a deployment reaches from an empty Redis.
\<close>

section \<open>Definitions\<close>

text \<open>The stores on one client, as \<open>newAPIStores\<close> and \<open>newGameStores\<close> wire them.\<close>

record 's redis_stores =
  rs_sessions :: "'s SessionStore"
  rs_tokens :: "'s JoinTokenStore"
  rs_locks :: "'s CharacterLockStore"
  rs_servers :: "'s GameServerStore"
  rs_limiter :: "'s RateLimiter"

definition new_redis_stores :: "'s redis option \<Rightarrow> KeyBuilder \<Rightarrow> duration \<Rightarrow> int \<Rightarrow> 's redis_stores result" where
  "new_redis_stores redis keys window burst =
     bindE (NewSessionStore redis keys DefaultSessionTTL) (\<lambda>ss.
     bindE (NewCharacterLockStore redis keys DefaultCharacterLockTTL) (\<lambda>ls.
     bindE (NewGameServerStore redis keys DefaultServerTTL) (\<lambda>gs.
     bindE (NewRateLimiter redis keys window burst) (\<lambda>rl.
     Inr \<lparr>rs_sessions = ss, rs_tokens = NewJoinTokenStore redis keys, rs_locks = ls, rs_servers = gs, rs_limiter = rl\<rparr>))))"

text \<open>An operation of a store with its arguments, the clock included, or time passing.\<close>

datatype redis_op =
    Create_Session string string
  | Get_Session string
  | Delete_Session string
  | Delete_User_Sessions string
  | Create_Token time JoinToken
  | Consume_Token string
  | Acquire_Lock string string duration
  | Renew_Lock string string duration
  | Release_Lock string string
  | Lock_Owner string
  | Register_Server time GameServer
  | Deregister_Server string
  | List_Servers
  | Get_Server string
  | Allow_Client time string
  | Pass_Time int

text \<open>What is fixed in a deployment: the JSON of the payloads, \<open>ToLower\<close>, and the clock of Redis.\<close>

record 's deployment =
  dp_tokens :: "joinTokenPayload json"
  dp_servers :: "gameServerPayload json"
  dp_lower :: "string \<Rightarrow> string"
  dp_pass :: "int \<Rightarrow> 's \<Rightarrow> 's"

fun redis_exec :: "'s deployment \<Rightarrow> 's redis_stores \<Rightarrow> redis_op \<Rightarrow> 's \<Rightarrow> 's" where
  "redis_exec dp st (Create_Session sid u) s = snd (CreateSession (Some (rs_sessions st)) sid u s)"
| "redis_exec dp st (Get_Session sid) s = snd (GetSessionUserID (Some (rs_sessions st)) sid s)"
| "redis_exec dp st (Delete_Session sid) s = snd (DeleteSession (Some (rs_sessions st)) sid s)"
| "redis_exec dp st (Delete_User_Sessions u) s = snd (DeleteUserSessions (Some (rs_sessions st)) u s)"
| "redis_exec dp st (Create_Token now t) s = snd (CreateJoinToken (dp_tokens dp) (Some (rs_tokens st)) now t s)"
| "redis_exec dp st (Consume_Token tok) s = snd (ConsumeJoinToken (dp_tokens dp) (Some (rs_tokens st)) tok s)"
| "redis_exec dp st (Acquire_Lock c ow ttl) s = snd (AcquireCharacterLock (Some (rs_locks st)) c ow ttl s)"
| "redis_exec dp st (Renew_Lock c ow ttl) s = snd (RenewCharacterLock (Some (rs_locks st)) c ow ttl s)"
| "redis_exec dp st (Release_Lock c ow) s = snd (ReleaseCharacterLock (Some (rs_locks st)) c ow s)"
| "redis_exec dp st (Lock_Owner c) s = snd (GetCharacterLockOwner (Some (rs_locks st)) c s)"
| "redis_exec dp st (Register_Server now g) s = snd (RegisterGameServer (dp_servers dp) (Some (rs_servers st)) now g s)"
| "redis_exec dp st (Deregister_Server sid) s = snd (DeregisterGameServer (Some (rs_servers st)) sid s)"
| "redis_exec dp st List_Servers s = snd (ListGameServers (dp_servers dp) (Some (rs_servers st)) s)"
| "redis_exec dp st (Get_Server sid) s = snd (GetGameServerByID (dp_servers dp) (Some (rs_servers st)) sid s)"
| "redis_exec dp st (Allow_Client now key) s = snd (Allow (dp_lower dp) (Some (rs_limiter st)) now key s)"
| "redis_exec dp st (Pass_Time d) s = dp_pass dp d s"

text \<open>
  What the callers see to: sessions are for users of the database, tokens spell the
  character as the database does, and a renewal asks for whole milliseconds or the default.
\<close>

fun op_ok :: "(string \<Rightarrow> string option) \<Rightarrow> redis_op \<Rightarrow> bool" where
  "op_ok canon (Create_Session sid u) = key_segment maxIDBytes u"
| "op_ok canon (Create_Token now t) =
     (canon (jt_CharacterID t) = Some (jt_CharacterID t) \<and>
      list_all is_ascii [jt_UserID t, jt_CharacterID t, jt_ServerID t, jt_ServerAddr t] \<and>
      0 \<le> now \<and> jt_ExpiresAt t < 2 ^ 63)"
| "op_ok canon (Renew_Lock c ow ttl) = (ttl \<le> 0 \<or> Millisecond \<le> ttl)"
| "op_ok canon (Pass_Time d) = (0 \<le> d)"
| "op_ok canon _ = True"

text \<open>The key families that an operation may write to.\<close>

fun op_families :: "redis_op \<Rightarrow> string set" where
  "op_families (Create_Session _ _) = {''session'', ''user_sessions''}"
| "op_families (Delete_Session _) = {''session'', ''user_sessions''}"
| "op_families (Delete_User_Sessions _) = {''session'', ''user_sessions''}"
| "op_families (Create_Token _ _) = {''join_token''}"
| "op_families (Consume_Token _) = {''join_token''}"
| "op_families (Acquire_Lock _ _ _) = {''character_lock''}"
| "op_families (Renew_Lock _ _ _) = {''character_lock''}"
| "op_families (Release_Lock _ _) = {''character_lock''}"
| "op_families (Register_Server _ _) = {''server'', ''servers''}"
| "op_families (Deregister_Server _) = {''server''}"
| "op_families (Allow_Client _ _) = {''rate_limit''}"
| "op_families _ = {}"

text \<open>A well-formed key space: typed keys, indexed sessions of valid users, and canonical tokens.\<close>

definition redis_ok :: "joinTokenPayload json \<Rightarrow> (string \<Rightarrow> string option) \<Rightarrow> 's redis_stores \<Rightarrow> kv \<Rightarrow> bool" where
  "redis_ok js canon st m =
     (wf_sessions (rs_sessions st) m \<and> tokens_canonical js canon (ss_keys (rs_sessions st)) m)"

section \<open>Lemmas: staying within families\<close>

lemma keeps_to_sessions:
  assumes "keeps_to F k m m'" and "''session'' \<notin> F" and "''user_sessions'' \<notin> F"
  shows "session_entry k m' = session_entry k m" and "index_entry k m' = index_entry k m"
proof -
  have "session_entry k m' sid = session_entry k m sid" "index_entry k m' u = index_entry k m u" for sid u
    using assms by (auto simp: keeps_to_def session_entry_def index_entry_def key_Session_def UserSessions_def split: sum.splits)
  then show "session_entry k m' = session_entry k m" and "index_entry k m' = index_entry k m" by auto
qed

lemma keeps_to_wf_sessions:
  assumes "keeps_to F (ss_keys st) m m'" and "''session'' \<notin> F" and "''user_sessions'' \<notin> F" and "wf_sessions st m"
  shows "wf_sessions st m'"
  using assms(1,4) keeps_to_sessions [OF assms(1-3)] sessions_indexed_cong [of "ss_keys st" m' m]
  by (simp add: wf_sessions_def keeps_to_def owners_valid_def session_owner_def)

lemma canonical_age: "tokens_canonical js canon k m \<Longrightarrow> tokens_canonical js canon k (age d m)"
  unfolding tokens_canonical_def using age_tokens by blast

section \<open>Lemmas: the operations\<close>

locale redis_program = redis_counters +
  fixes keys :: KeyBuilder and window :: duration and burst :: int and st :: "'a redis_stores"
    and dp :: "'a deployment" and canon :: "string \<Rightarrow> string option"
  assumes wiring: "new_redis_stores (Some rc) keys window burst = Inr st"
    and token_json: "json_roundtrip token_payload_ok (dp_tokens dp)"
    and clock: "dp_pass dp = pass"
begin

lemma wired [simp]:
  "ss_client (rs_sessions st) = Some rc" "ss_keys (rs_sessions st) = keys" "ss_ttl (rs_sessions st) = DefaultSessionTTL"
  "jts_client (rs_tokens st) = Some rc" "jts_keys (rs_tokens st) = keys"
  "cl_client (rs_locks st) = Some rc" "cl_keys (rs_locks st) = keys" "cl_lockTTL (rs_locks st) = DefaultCharacterLockTTL"
  "gss_client (rs_servers st) = Some rc" "gss_keys (rs_servers st) = keys" "gss_serverTTL (rs_servers st) = DefaultServerTTL"
  "rl_client (rs_limiter st) = Some rc" "rl_keys (rs_limiter st) = keys" "rl_window (rs_limiter st) = window" "0 < window"
  using wiring
  by (auto simp: new_redis_stores_def bindE_eq_Inr NewSessionStore_def NewCharacterLockStore_def NewGameServerStore_def
      NewRateLimiter_def NewJoinTokenStore_def split: if_splits)

lemma lifetimes: "Millisecond \<le> DefaultSessionTTL" "Millisecond \<le> DefaultCharacterLockTTL" "0 < DefaultServerTTL"
  by (simp_all add: DefaultSessionTTL_def DefaultCharacterLockTTL_def DefaultServerTTL_def Second_def Millisecond_def)

sublocale ss: session_store rc view "rs_sessions st"
  by unfold_locales (simp_all add: lifetimes)

lemma lock_ttl: "0 < effectiveTTL (rs_locks st) ttl" "ttl \<le> 0 \<or> Millisecond \<le> ttl \<Longrightarrow> Millisecond \<le> effectiveTTL (rs_locks st) ttl"
  using lifetimes(2) by (auto simp: effectiveTTL_def Millisecond_def)

abbreviation ok :: "'a \<Rightarrow> bool" where
  "ok s \<equiv> redis_ok (dp_tokens dp) canon st (view s)"

lemma okD:
  assumes "ok s"
  shows "wf_sessions (rs_sessions st) (view s)" "wf_keys keys (view s)"
    "sessions_indexed keys (DefaultSessionTTL div Millisecond) (view s)" "tokens_canonical (dp_tokens dp) canon keys (view s)"
  using assms by (simp_all add: redis_ok_def wf_sessions_def)

text \<open>Every operation keeps to the families of its store.\<close>

lemma op_keeps_to:
  assumes "ok s" and "op_ok canon op" and "\<forall>d. op \<noteq> Pass_Time d"
  shows "keeps_to (op_families op) keys (view s) (view (redis_exec dp st op s))"
proof -
  note wf = okD [OF assms(1)]
  note same = keeps_to_refl [OF wf(2)]
  note e = prod.collapse [symmetric]
  show ?thesis
  proof (cases op)
    case (Create_Session sid u)
    then show ?thesis using create_session_within [where st = "rs_sessions st" and s = s, OF e] wf lifetimes by simp
  next
    case (Get_Session sid)
    then show ?thesis using ss.get_session_view [OF wf(1) e] same by simp
  next
    case (Delete_Session sid)
    then show ?thesis using delete_session_within [where st = "rs_sessions st" and s = s, OF e] wf by simp
  next
    case (Delete_User_Sessions u)
    then show ?thesis using delete_user_within [where st = "rs_sessions st" and s = s, OF e] wf by simp
  next
    case (Create_Token now t)
    then show ?thesis using tokens_within(1) [where st = "rs_tokens st" and s = s, OF _ _ e] wf by simp
  next
    case (Consume_Token tok)
    then show ?thesis using tokens_within(2) [where st = "rs_tokens st" and s = s, OF _ _ e] wf by simp
  next
    case (Acquire_Lock c ow ttl)
    then show ?thesis using locks_within(1) [where st = "rs_locks st" and s = s, OF _ _ e lock_ttl(1)] wf by simp
  next
    case (Renew_Lock c ow ttl)
    with assms(2) show ?thesis using locks_within(2) [where st = "rs_locks st" and s = s, OF _ _ e lock_ttl(2)] wf by simp
  next
    case (Release_Lock c ow)
    then show ?thesis using locks_within(3) [where st = "rs_locks st" and s = s, OF _ _ e] wf by simp
  next
    case (Lock_Owner c)
    then show ?thesis using owner_call_view [where st = "rs_locks st" and s = s, OF e] same by simp
  next
    case (Register_Server now g)
    then show ?thesis using register_within [where st = "rs_servers st" and s = s, OF e] wf lifetimes by simp
  next
    case (Deregister_Server sid)
    then show ?thesis using deregister_within [where st = "rs_servers st" and s = s, OF e] wf by simp
  next
    case List_Servers
    then show ?thesis using servers_read_view(1) [where st = "rs_servers st" and s = s, OF _ e] same by simp
  next
    case (Get_Server sid)
    then show ?thesis using servers_read_view(2) [where st = "rs_servers st" and s = s, OF _ e] same by simp
  next
    case (Allow_Client now key)
    then show ?thesis using allow_within [where l = "rs_limiter st" and s = s, OF e] wf by simp
  next
    case (Pass_Time d)
    with assms(3) show ?thesis by simp
  qed
qed

text \<open>Every operation keeps the key space well formed.\<close>

lemma op_redis_ok:
  assumes "ok s" and "op_ok canon op"
  shows "ok (redis_exec dp st op s)"
proof -
  note wf = okD [OF assms(1)]
  note e = prod.collapse [symmetric]
  let ?s' = "redis_exec dp st op s"
  have kt: "keeps_to (op_families op) keys (view s) (view ?s')" if "\<forall>d. op \<noteq> Pass_Time d"
    using op_keeps_to [OF assms that] .
  have "wf_sessions (rs_sessions st) (view ?s')"
  proof (cases op)
    case (Create_Session sid u)
    with assms(2) ss.wf_CreateSession [OF wf(1) _ e] show ?thesis by simp
  next
    case (Delete_Session sid)
    with ss.wf_DeleteSession [OF wf(1) e] show ?thesis by simp
  next
    case (Delete_User_Sessions u)
    with ss.wf_DeleteUserSessions [OF wf(1) e] show ?thesis by simp
  next
    case (Pass_Time d)
    with assms(2) wf_sessions_age [OF wf(1)] show ?thesis by (simp add: clock pass_view)
  qed (use kt keeps_to_wf_sessions [where st = "rs_sessions st", OF _ _ _ wf(1)] in simp_all)
  moreover have "tokens_canonical (dp_tokens dp) canon keys (view ?s')"
  proof (cases op)
    case (Create_Token now t)
    with assms(2) issue_canonical [where ts = "rs_tokens st" and s = s, OF _ e] wf(4) token_json show ?thesis by simp
  next
    case (Consume_Token tok)
    with consume_canonical [where ts = "rs_tokens st" and s = s, OF _ _ e] wf(2,4) show ?thesis by simp
  next
    case (Pass_Time d)
    with assms(2) canonical_age [OF wf(4)] show ?thesis by (simp add: clock pass_view)
  qed (use kt keeps_to_canonical [OF _ _ wf(4)] in simp_all)
  ultimately show ?thesis by (simp add: redis_ok_def)
qed

lemma run_redis_ok: "list_all (op_ok canon) ops \<Longrightarrow> ok s \<Longrightarrow> ok (fold (redis_exec dp st) ops s)"
  by (induction ops arbitrary: s) (simp_all add: op_redis_ok)

lemma empty_ok: "view s = Map.empty \<Longrightarrow> ok s"
  by (simp add: redis_ok_def wf_sessions_def wf_keys_empty sessions_indexed_def owners_valid_def session_owner_def
      session_entry_def index_entry_def tokens_canonical_def pending_raw_def str_entry_def set_entry_def split: sum.splits)

text \<open>An operation of the other stores is a step that the cluster allows its other clients.\<close>

lemma op_other_client:
  assumes "ok s" and "op_ok canon op" and "\<forall>d. op \<noteq> Pass_Time d" and "\<And>tok. op \<noteq> Consume_Token tok"
    and "''character_lock'' \<notin> op_families op"
  shows "other_client (dp_tokens dp) canon rc keys view (s, db) (redis_exec dp st op s, db)"
proof (cases "''join_token'' \<in> op_families op")
  case True
  have ts: "rs_tokens st = NewJoinTokenStore (Some rc) keys" by (rule JoinTokenStore.equality) (simp_all add: NewJoinTokenStore_def)
  from True assms(4) obtain now t where op: "op = Create_Token now t" by (cases op) auto
  with assms(2) show ?thesis unfolding op
    by (intro other_client.Issue [where r = "fst (CreateJoinToken (dp_tokens dp) (Some (rs_tokens st)) now t s)"]) (auto simp: ts)
next
  case False
  note kt = op_keeps_to [OF assms(1-3)]
  show ?thesis by (rule other_client.Elsewhere [OF keeps_to_untouched [OF kt assms(5) False] keeps_to_wf [OF kt]])
qed

end

section \<open>Properties\<close>


text \<open>
  C13. The stores do not interfere: after any such run, an operation leaves every key of the
  other stores alone, its value and its time to live, whatever the operation reports; the
  reads leave all keys alone.
\<close>

theorem stores_isolated:
  assumes "redis_counters rc view pass" and "new_redis_stores (Some rc) keys window burst = Inr st"
    and "json_roundtrip token_payload_ok (dp_tokens dp)" and "dp_pass dp = pass"
    and "list_all (op_ok canon) (ops @ [op])" and "view s = Map.empty" and "\<forall>d. op \<noteq> Pass_Time d"
    and "build keys parts = Inr key" and "hd parts \<notin> op_families op"
  shows "view (fold (redis_exec dp st) (ops @ [op]) s) key = view (fold (redis_exec dp st) ops s) key"
proof -
  have p: "redis_program rc view pass keys window burst st dp"
    using assms(1-4) by (simp add: redis_program_def redis_program_axioms_def)
  have "redis_ok (dp_tokens dp) canon st (view (fold (redis_exec dp st) ops s))"
    using redis_program.run_redis_ok [OF p _ redis_program.empty_ok [OF p assms(6)]] assms(5) by simp
  from redis_program.op_keeps_to [OF p this] assms(5,7-9) show ?thesis by (simp add: keeps_to_def)
qed

section \<open>Witnesses\<close>

definition w_deployment :: "mem deployment" where
  "w_deployment = \<lparr>dp_tokens = mem_token_json, dp_servers = mem_server_json, dp_lower = id, dp_pass = mem_pass\<rparr>"

definition w_redis_stores :: "mem redis_stores" where
  "w_redis_stores = projr (new_redis_stores (Some mem_redis) w_keys Second 2)"

lemma w_redis_stores_new: "new_redis_stores (Some mem_redis) w_keys Second 2 = Inr w_redis_stores"
  by (simp add: w_redis_stores_def new_redis_stores_def NewSessionStore_def NewCharacterLockStore_def NewGameServerStore_def
      NewRateLimiter_def DefaultSessionTTL_def DefaultCharacterLockTTL_def DefaultServerTTL_def Second_def)

text \<open>A run of all stores: a login, a registered server, a rate-limited call, a token issued and consumed, a lock.\<close>

definition w_ops :: "redis_op list" where
  "w_ops = [Allow_Client 5 ''login'', Create_Session ''sess'' ''u1'', Pass_Time 10, Register_Server 0 w_server,
     Get_Session ''sess'', List_Servers, Create_Token 0 (w_token\<lparr>jt_CharacterID := ''c1''\<rparr>), Consume_Token ''t1'',
     Acquire_Lock ''c1'' ''s1'' 0, Renew_Lock ''c1'' ''s1'' 0]"

lemma w_ops_ok: "list_all (op_ok mem_canon) w_ops"
  by code_simp

definition w_redis_run :: mem where
  "w_redis_run = fold (redis_exec w_deployment w_redis_stores) w_ops mem_empty"

lemma w_redis_run_live: "session_owner w_keys (mem_view w_redis_run) ''sess'' = Some ''u1''"
  by code_simp

lemmas w_program = mem_counters.redis_counters_axioms w_redis_stores_new

interpretation mem_program: redis_program mem_redis mem_view mem_pass w_keys Second 2 w_redis_stores w_deployment mem_canon
  using mem_token_json_roundtrip w_redis_stores_new by unfold_locales (simp_all add: w_deployment_def)


theorem stores_isolated_witness:
  "\<exists>key. key_Session w_keys ''sess'' = Inr key \<and> mem_view w_redis_run key \<noteq> None \<and>
     mem_view (redis_exec w_deployment w_redis_stores (Release_Lock ''c1'' ''s1'') w_redis_run) key = mem_view w_redis_run key"
proof -
  from w_redis_run_live obtain key where key: "key_Session w_keys ''sess'' = Inr key"
    by (auto simp: session_owner_def session_entry_def split: sum.splits)
  have live: "mem_view w_redis_run key \<noteq> None"
  proof
    assume "mem_view w_redis_run key = None"
    with w_redis_run_live key show False by (simp add: session_owner_def session_entry_def str_entry_def)
  qed
  have "list_all (op_ok mem_canon) (w_ops @ [Release_Lock ''c1'' ''s1''])" using w_ops_ok by simp
  from stores_isolated [OF w_program _ _ this _ _ key [unfolded key_Session_def], of w_deployment mem_empty]
  have "mem_view (redis_exec w_deployment w_redis_stores (Release_Lock ''c1'' ''s1'') w_redis_run) key = mem_view w_redis_run key"
    using mem_token_json_roundtrip by (simp add: w_redis_run_def) (simp add: w_deployment_def mem_view_def mem_empty_def fun_eq_iff)
  with key live show ?thesis by blast
qed

end
