(* ===== verification/Server_Presence.thy ===== *)
theory Server_Presence
  imports Redis_Program
begin

text \<open>
  How long a game server is visible: \<open>registerGameServer\<close> and \<open>renewHeartbeat\<close> of
  \<open>internal/game/server.go\<close> against the registry of \<open>internal/store/redis/game_servers.go\<close>,
  while the other processes of the deployment use Redis and time passes. A server whose last
  completed heartbeat is less than two intervals ago is listed; one that died is gone when
  its time to live has passed, although nobody deregisters it.
\<close>

section \<open>Definitions\<close>

text \<open>The operations that write or delete the registry entry of a server.\<close>

fun names_server :: "string \<Rightarrow> redis_op \<Rightarrow> bool" where
  "names_server sid (Register_Server now g) = (gs_ID g = sid)"
| "names_server sid (Deregister_Server i) = (TrimSpace i = sid)"
| "names_server sid _ = False"

definition op_time :: "redis_op \<Rightarrow> int" where
  "op_time op = (case op of Pass_Time d \<Rightarrow> d | _ \<Rightarrow> 0)"

definition elapsed :: "redis_op list \<Rightarrow> int" where
  "elapsed ops = sum_list (map op_time ops)"

text \<open>A clock whose times, and the expiries made from them, fit into the payload.\<close>

definition clock_ok :: "time \<Rightarrow> bool" where
  "clock_ok now = (0 \<le> now \<and> now + DefaultServerTTL < 2 ^ 63)"

text \<open>
  A process that has registered and runs its heartbeat goroutine, from stores \<open>s\<close>. The
  number is the time in milliseconds since the last registration or heartbeat that was
  reported to have worked. In between a heartbeat may fail anywhere, another process or this
  one makes an operation on Redis that does not name this server, and time passes.
\<close>

inductive serving ::
  "(string \<Rightarrow> string option) \<Rightarrow> 's deployment \<Rightarrow> 's redis_stores \<Rightarrow> ('s \<times> 'd) GameServerProc \<Rightarrow> 's \<Rightarrow> int \<Rightarrow> 's \<times> 'd \<Rightarrow> bool"
  for canon dp st gs s where
  Registered: "list_all (op_ok canon) ops \<Longrightarrow> clock_ok now \<Longrightarrow>
    registerGameServer gs now (fold (redis_exec dp st) ops s, db) = (Inr (), sd) \<Longrightarrow> serving canon dp st gs s 0 sd"
| Beat: "serving canon dp st gs s n sd \<Longrightarrow> clock_ok now \<Longrightarrow> fst (gsp_register gs now (self_record gs now) sd) = Inr () \<Longrightarrow>
    serving canon dp st gs s 0 (renewHeartbeat gs [now] sd)"
| Missed: "serving canon dp st gs s n sd \<Longrightarrow> clock_ok now \<Longrightarrow> serving canon dp st gs s n (renewHeartbeat gs [now] sd)"
| Other: "serving canon dp st gs s n (t, db) \<Longrightarrow> op_ok canon op \<Longrightarrow> \<not> names_server (cfg_ServerID (gsp_cfg gs)) op \<Longrightarrow>
    serving canon dp st gs s (n + op_time op) (redis_exec dp st op t, db')"

text \<open>The entry of a server lives at most \<open>b\<close> milliseconds more.\<close>

definition expires_within :: "KeyBuilder \<Rightarrow> string \<Rightarrow> int \<Rightarrow> kv \<Rightarrow> bool" where
  "expires_within k sid b m =
     (\<forall>key x t. key_Server k sid = Inr key \<longrightarrow> m key = Some (x, t) \<longrightarrow> (\<exists>u. t = Some u \<and> 0 < u \<and> u \<le> b))"

text \<open>A server is indexed, with an entry that gives its address, for \<open>b\<close> milliseconds at least.\<close>

definition live_for :: "(rval \<times> int option) option \<Rightarrow> int \<Rightarrow> bool" where
  "live_for e b = (case e of None \<Rightarrow> False | Some (x, None) \<Rightarrow> True | Some (x, Some t) \<Rightarrow> b \<le> t)"

definition listed_for :: "gameServerPayload json \<Rightarrow> KeyBuilder \<Rightarrow> string \<Rightarrow> string \<Rightarrow> int \<Rightarrow> kv \<Rightarrow> bool" where
  "listed_for js k sid addr b m =
     (\<exists>key ikey g. key_Server k sid = Inr key \<and> ServersIndex k = Inr ikey \<and>
        server_at js k m sid = Inr g \<and> gs_ID g = sid \<and> gs_Addr g = addr \<and> sid \<in> indexed_servers k m \<and>
        live_for (m key) b \<and> live_for (m ikey) b)"

section \<open>Lemmas: entries and time\<close>

lemma live_for_age: "live_for (m key) b \<Longrightarrow> d < b \<Longrightarrow> live_for (age d m key) (b - d)"
  by (auto simp: live_for_def age_def split: option.splits prod.splits)

lemma age_live:
  assumes "live_for (m key) b" and "d < b"
  shows "map_option fst (age d m key) = map_option fst (m key)"
  using assms by (auto simp: live_for_def age_def split: option.splits prod.splits)

lemma server_at_cong:
  "map_option fst (m' key) = map_option fst (m key) \<Longrightarrow> key_Server k sid = Inr key \<Longrightarrow> server_at js k m' sid = server_at js k m sid"
  by (auto simp: server_at_def split: option.splits rval.splits)

lemma indexed_servers_at: "ServersIndex k = Inr ikey \<Longrightarrow> indexed_servers k m = set_members (m ikey)"
  by (simp add: indexed_servers_def)

lemma set_members_cong: "map_option fst e = map_option fst e' \<Longrightarrow> set_members e = set_members e'"
  by (auto simp: set_members_def split: option.splits rval.splits)

lemma listed_for_age:
  assumes "listed_for js k sid addr b m" and "d < b"
  shows "listed_for js k sid addr (b - d) (age d m)"
proof -
  from assms(1) obtain key ikey g where l: "key_Server k sid = Inr key" "ServersIndex k = Inr ikey" "server_at js k m sid = Inr g"
    "gs_ID g = sid" "gs_Addr g = addr" "sid \<in> indexed_servers k m" "live_for (m key) b" "live_for (m ikey) b"
    unfolding listed_for_def by blast
  have "server_at js k (age d m) sid = Inr g" using server_at_cong [of "age d m" key m, OF age_live [of m key, OF l(7) assms(2)] l(1)] l(3) by simp
  moreover have "sid \<in> indexed_servers k (age d m)"
    using set_members_cong [OF age_live [of m ikey, OF l(8) assms(2)]] l(2,6) by (simp add: indexed_servers_at)
  ultimately show ?thesis
    using l live_for_age [of m key, OF l(7) assms(2)] live_for_age [of m ikey, OF l(8) assms(2)] unfolding listed_for_def by blast
qed

lemma expires_within_age:
  assumes "expires_within k sid b m" and "0 \<le> d"
  shows "expires_within k sid (b - d) (age d m)"
  using assms by (fastforce simp: expires_within_def age_def split: option.splits prod.splits if_splits)

lemma expires_now: "expires_within k sid b m \<Longrightarrow> b \<le> 0 \<Longrightarrow> key_Server k sid = Inr key \<Longrightarrow> m key = None"
  by (cases "m key") (auto simp: expires_within_def)

lemma listed_for_upd:
  assumes "listed_for js k sid addr b m" and "b \<le> c"
    and "\<And>key. key_Server k sid = Inr key \<Longrightarrow> m' key = m key \<or> (\<exists>data g. m' key = Some (RStr data, Some c) \<and>
        gameServerOf js data = Inr g \<and> gs_ID g = sid \<and> gs_Addr g = addr)"
    and "\<And>ikey. ServersIndex k = Inr ikey \<Longrightarrow> m' ikey = m ikey \<or> (\<exists>A t. m' ikey = Some (RSet A, t) \<and> sid \<in> A \<and>
        live_for (m' ikey) b)"
  shows "listed_for js k sid addr b m'"
proof -
  from assms(1) obtain key ikey g where l: "key_Server k sid = Inr key" "ServersIndex k = Inr ikey" "server_at js k m sid = Inr g"
    "gs_ID g = sid" "gs_Addr g = addr" "sid \<in> indexed_servers k m" "live_for (m key) b" "live_for (m ikey) b"
    unfolding listed_for_def by blast
  have "\<exists>g. server_at js k m' sid = Inr g \<and> gs_ID g = sid \<and> gs_Addr g = addr \<and> live_for (m' key) b"
    using assms(3) [OF l(1)]
  proof (elim disjE exE conjE)
    assume "m' key = m key"
    with l show ?thesis using server_at_cong [of m' key m k sid js] by auto
  next
    fix data h assume "m' key = Some (RStr data, Some c)" "gameServerOf js data = Inr h" "gs_ID h = sid" "gs_Addr h = addr"
    with assms(2) l(1) show ?thesis by (auto simp: server_at_key live_for_def)
  qed
  moreover have "sid \<in> indexed_servers k m' \<and> live_for (m' ikey) b"
    using assms(4) [OF l(2)] l(2,6,8) by (auto simp: indexed_servers_at)
  ultimately show ?thesis using l(1,2) unfolding listed_for_def by blast
qed

section \<open>Lemmas: the operations of the others\<close>

context redis_program
begin

lemma rs_servers: "rs_servers st = \<lparr>gss_client = Some rc, gss_keys = keys, gss_serverTTL = DefaultServerTTL\<rparr>"
  by (rule GameServerStore.equality) simp_all

text \<open>What lookup and listing answer, by what the key space holds.\<close>

lemma lookup_answer:
  assumes "ok s" and "kb_prefix keys \<noteq> []" and "GetGameServerByID (dp_servers dp) (Some (rs_servers st)) sid s = (r, s')"
    and "key_segment maxIDBytes sid"
  shows "r = server_at (dp_servers dp) keys (view s) sid \<or> (\<exists>e. r = Inl e \<and> errors_is e ErrUnavailable)"
proof -
  obtain key where key: "key_Server keys sid = Inr key"
    using key_segment_seg_ok [OF assms(4)] assms(2) by (auto simp: key_Server_def build_Inr)
  from get_by_id_valid [OF assms(4)] assms(3) have "getGameServer (dp_servers dp) (rs_servers st) rc sid s = (r, s')" by simp
  from get_server_result [OF this] key okD(2) [OF assms(1)] show ?thesis by auto
qed

lemma listing_answer:
  assumes "ok s" and "kb_prefix keys \<noteq> []" and "ListGameServers (dp_servers dp) (Some (rs_servers st)) s = (Inr gs, s')"
  shows "set gs = {g. \<exists>i \<in> indexed_servers keys (view s). key_segment maxIDBytes (TrimSpace i) \<and>
      server_at (dp_servers dp) keys (view s) (TrimSpace i) = Inr g}"
proof -
  have "server_store rc view (rs_servers st)"
    using assms(2) lifetimes(3) redis_server_axioms by (simp add: server_store_def server_store_axioms_def)
  from server_store.list_content [OF this _ assms(3)] okD(2) [OF assms(1)] show ?thesis by simp
qed

lemma server_ttls: "px_ms rc DefaultServerTTL = 10000" "ex_ms rc DefaultServerTTL = 10000"
  using px_ms [OF lifetimes(3)] ex_ms [OF lifetimes(3)] by (simp_all add: DefaultServerTTL_def Second_def Millisecond_def)

lemma registry:
  assumes "wf_keys keys (view s)"
  shows "gss_client (rs_servers st) = Some rc" and "0 < gss_serverTTL (rs_servers st)" and "wf_keys (gss_keys (rs_servers st)) (view s)"
  using assms lifetimes by simp_all

text \<open>Any registration keeps the members of the index and does not shorten its life below the time to live.\<close>

lemma register_index:
  assumes "wf_keys keys (view s)" and "ServersIndex keys = Inr ikey"
    and "RegisterGameServer js (Some (rs_servers st)) now g s = (r, s')" and "i \<in> set_members (view s ikey)"
    and "live_for (view s ikey) b" and "b \<le> 10000"
  shows "view s' ikey = view s ikey \<or> (\<exists>A t. view s' ikey = Some (RSet A, t) \<and> i \<in> A \<and> live_for (view s' ikey) b)"
  using assms(3) registry [OF assms(1)]
proof (cases rule: register_cases)
  case (Written key ikey' data m1 A t)
  note Written = Written [simplified]
  have ik: "ikey' = ikey" using Written(2) assms(2) by simp
  have ne: "key \<noteq> ikey" using server_index_keys [OF Written(1)] assms(2) by auto
  have m1: "m1 ikey = view s ikey" using ne by (simp add: Written(5))
  have "live_for (Some (RSet A, t)) b"
    using Written(7) assms(4-6) server_ttls ik
    by (auto simp: live_for_def set_members_def split: option.splits prod.splits)
  with Written(6,8) assms(4) m1 ik show ?thesis by auto
qed simp

text \<open>The registry entry of a server is left alone by operations that do not name it.\<close>

lemma op_entry:
  assumes "ok s" and "op_ok canon op" and "\<forall>d. op \<noteq> Pass_Time d" and "\<not> names_server sid op" and "key_Server keys sid = Inr key"
  shows "view (redis_exec dp st op s) key = view s key"
proof -
  note wf = okD [OF assms(1)]
  note kt = op_keeps_to [OF assms(1-3)]
  consider (Reg) now g where "op = Register_Server now g" | (Dereg) i where "op = Deregister_Server i" | (Else) "''server'' \<notin> op_families op"
    by (cases op) auto
  then show ?thesis
  proof cases
    case Reg
    obtain r s' where r: "RegisterGameServer (dp_servers dp) (Some (rs_servers st)) now g s = (r, s')" by force
    from r registry [OF wf(2)] have "view s' key = view s key"
    proof (cases rule: register_cases)
      case (Written key' ikey data m1 A t)
      note Written = Written [simplified]
      have "key' \<noteq> key" using Written(1) server_key_inject [OF assms(5), of "gs_ID g"] assms(4) Reg by auto
      moreover have "ikey \<noteq> key" using server_index_keys [OF assms(5)] Written(2) by auto
      ultimately show ?thesis using Written(5,8) by auto
    qed simp
    with r Reg show ?thesis by simp
  next
    case Dereg
    obtain r s' where r: "DeregisterGameServer (Some (rs_servers st)) i s = (r, s')" by force
    have "key_Server keys (TrimSpace i) \<noteq> Inr key"
      using server_key_inject [OF assms(5), of "TrimSpace i"] assms(4) Dereg by auto
    with deregister_view [OF r] have "view s' key = view s key" by auto
    with r Dereg show ?thesis by simp
  next
    case Else
    with kt assms(5) show ?thesis by (auto simp: keeps_to_def key_Server_def)
  qed
qed

lemma op_index:
  assumes "ok s" and "op_ok canon op" and "\<forall>d. op \<noteq> Pass_Time d" and "ServersIndex keys = Inr ikey"
    and "i \<in> set_members (view s ikey)" and "live_for (view s ikey) b" and "b \<le> 10000"
  shows "view (redis_exec dp st op s) ikey = view s ikey \<or>
    (\<exists>A t. view (redis_exec dp st op s) ikey = Some (RSet A, t) \<and> i \<in> A \<and> live_for (view (redis_exec dp st op s) ikey) b)"
proof -
  consider (Reg) now g where "op = Register_Server now g" | (Else) "''servers'' \<notin> op_families op" by (cases op) auto
  then show ?thesis
  proof cases
    case Reg
    obtain r s' where r: "RegisterGameServer (dp_servers dp) (Some (rs_servers st)) now g s = (r, s')" by force
    from register_index [OF okD(2) [OF assms(1)] assms(4) r assms(5-7)] r Reg show ?thesis by simp
  next
    case Else
    with op_keeps_to [OF assms(1-3)] assms(4) show ?thesis by (auto simp: keeps_to_def ServersIndex_def)
  qed
qed

lemma op_expires:
  assumes "ok s" and "op_ok canon op" and "\<not> names_server sid op" and "expires_within keys sid b (view s)"
  shows "expires_within keys sid (b - op_time op) (view (redis_exec dp st op s))"
proof (cases "\<exists>d. op = Pass_Time d")
  case True
  with assms(2) expires_within_age [OF assms(4)] show ?thesis by (auto simp: op_time_def clock pass_view)
next
  case False
  then have "op_time op = 0" by (cases op) (auto simp: op_time_def)
  with op_entry [OF assms(1,2) _ assms(3)] False assms(4) show ?thesis by (simp add: expires_within_def)
qed

lemma op_listed:
  assumes "ok s" and "op_ok canon op" and "\<not> names_server sid op" and "listed_for js keys sid addr b (view s)" and "b \<le> 10000"
    and "op_time op < b"
  shows "listed_for js keys sid addr (b - op_time op) (view (redis_exec dp st op s))"
proof (cases "\<exists>d. op = Pass_Time d")
  case True
  with assms(2,6) listed_for_age [OF assms(4)] show ?thesis by (auto simp: op_time_def clock pass_view)
next
  case False
  then have t: "op_time op = 0" by (cases op) (auto simp: op_time_def)
  have "listed_for js keys sid addr b (view (redis_exec dp st op s))"
  proof (rule listed_for_upd [OF assms(4,5)])
    fix ikey assume ikey: "ServersIndex keys = Inr ikey"
    with assms(4) have "sid \<in> set_members (view s ikey)" "live_for (view s ikey) b"
      by (auto simp: listed_for_def indexed_servers_at)
    from op_index [OF assms(1,2) _ ikey this assms(5)] False
    show "view (redis_exec dp st op s) ikey = view s ikey \<or>
      (\<exists>A t. view (redis_exec dp st op s) ikey = Some (RSet A, t) \<and> sid \<in> A \<and> live_for (view (redis_exec dp st op s) ikey) b)" by simp
  qed (use op_entry [OF assms(1,2) _ assms(3)] False in simp)
  with t show ?thesis by simp
qed

lemma run_expires:
  assumes "list_all (\<lambda>op. op_ok canon op \<and> \<not> names_server sid op) ops" and "ok s" and "expires_within keys sid b (view s)"
  shows "expires_within keys sid (b - elapsed ops) (view (fold (redis_exec dp st) ops s))"
  using assms
proof (induction ops arbitrary: s b)
  case (Cons op ops)
  then have "expires_within keys sid (b - op_time op - elapsed ops) (view (fold (redis_exec dp st) ops (redis_exec dp st op s)))"
    by (intro Cons.IH) (simp_all add: op_redis_ok op_expires)
  then show ?case by (simp add: elapsed_def algebra_simps)
qed (simp add: elapsed_def)

end

section \<open>Lemmas: the process itself\<close>

text \<open>A process that registers itself in these stores, with an ID and an address that can be read back.\<close>

locale serving_process = redis_program +
  fixes gs :: "('a \<times> 'd) GameServerProc" and sid :: string and addr :: string
  assumes registers: "gsp_register gs = (\<lambda>now srv. on_fst (RegisterGameServer (dp_servers dp) (Some (rs_servers st)) now srv))"
    and identity: "cfg_ServerID (gsp_cfg gs) = sid" "ENetAddr (gsp_cfg gs) = addr" "ServerTTL (gsp_cfg gs) = DefaultServerTTL"
    and server_json: "json_roundtrip server_payload_ok (dp_servers dp)"
    and readable: "key_segment maxIDBytes sid" "is_ascii sid" "is_ascii addr" "\<exists>a. ServerAddress addr = Inr a"
begin

abbreviation register :: "time \<Rightarrow> 'a \<Rightarrow> unit result \<times> 'a" where
  "register now \<equiv> RegisterGameServer (dp_servers dp) (Some (rs_servers st)) now (self_record gs now)"

abbreviation listed :: "int \<Rightarrow> 'a \<Rightarrow> bool" where
  "listed b s \<equiv> listed_for (dp_servers dp) keys sid addr b (view s)"

abbreviation expires :: "int \<Rightarrow> 'a \<Rightarrow> bool" where
  "expires b s \<equiv> expires_within keys sid b (view s)"

lemma self_fields [simp]:
  "gs_ID (self_record gs now) = sid" "gs_Addr (self_record gs now) = addr" "gs_ExpiresAt (self_record gs now) = now + DefaultServerTTL"
  by (simp_all add: self_record_def identity)

lemma ttl_ms [simp]: "px_ms rc (Until now (now + DefaultServerTTL)) = 10000"
  using server_ttls(1) Until_exact [of now "now + DefaultServerTTL"] by (simp add: DefaultServerTTL_def Second_def)

lemma beat_store: "fst (renewHeartbeat gs [now] sd) = snd (register now (fst sd))"
  by (simp add: renewHeartbeat.simps registers on_fst_def split: prod.splits)


lemma self_decodes:
  assumes "clock_ok now" and "marshal (dp_servers dp) \<lparr>gp_ID = sid, gp_Addr = addr, gp_ExpiresAt = now + DefaultServerTTL\<rparr> = Inr data"
  shows "gameServerOf (dp_servers dp) data = Inr (self_record gs now)"
proof -
  have "server_payload_ok \<lparr>gp_ID = sid, gp_Addr = addr, gp_ExpiresAt = now + DefaultServerTTL\<rparr>"
    using assms(1) readable lifetimes(3) by (simp add: server_payload_ok_def clock_ok_def)
  from json_roundtripD [OF server_json this assms(2)] readable(1,4) show ?thesis
    by (auto simp: gameServerOf_Inr key_segment_trim self_record_def identity)
qed

text \<open>A heartbeat, whatever it reports, leaves the entry alone or renews it.\<close>

lemma register_entry:
  assumes "wf_keys keys (view s)" and "clock_ok now" and "register now s = (r, s')" and "key_Server keys sid = Inr key"
  shows "view s' key = view s key \<or> (\<exists>data. view s' key = Some (RStr data, Some 10000) \<and>
    gameServerOf (dp_servers dp) data = Inr (self_record gs now))"
  using assms(3) registry [OF assms(1)]
proof (cases rule: register_cases)
  case (Written key' ikey data m1 A t)
  note Written = Written [simplified]
  have k: "key' = key" "ikey \<noteq> key" using Written(1,2) assms(4) server_index_keys [OF assms(4)] by auto
  from self_decodes [OF assms(2) Written(3)] Written(5,8) k server_ttls show ?thesis by auto
qed simp

lemma register_keeps:
  assumes "wf_keys keys (view s)" and "clock_ok now" and "register now s = (r, s')"
  shows "expires 10000 s \<Longrightarrow> expires 10000 s'" and "listed b s \<Longrightarrow> b \<le> 10000 \<Longrightarrow> listed b s'"
proof -
  note entry = register_entry [OF assms]
  show "expires 10000 s'" if "expires 10000 s"
    unfolding expires_within_def
  proof (intro allI impI)
    fix key x t
    assume key: "key_Server keys sid = Inr key" and e: "view s' key = Some (x, t)"
    from entry [OF key] show "\<exists>u. t = Some u \<and> 0 < u \<and> u \<le> 10000"
    proof
      assume "view s' key = view s key"
      with that key e show ?thesis unfolding expires_within_def by metis
    qed (use e in auto)
  qed
  assume l: "listed b s" and b: "b \<le> 10000"
  show "listed b s'"
  proof (rule listed_for_upd [OF l b])
    fix ikey assume ikey: "ServersIndex keys = Inr ikey"
    with l have "sid \<in> set_members (view s ikey)" "live_for (view s ikey) b" by (auto simp: listed_for_def indexed_servers_at)
    from register_index [OF assms(1) ikey assms(3) this b]
    show "view s' ikey = view s ikey \<or> (\<exists>A t. view s' ikey = Some (RSet A, t) \<and> sid \<in> A \<and> live_for (view s' ikey) b)" .
  qed (use entry in fastforce)
qed

lemma register_lists:
  assumes "wf_keys keys (view s)" and "clock_ok now" and "register now s = (Inr u, s')"
  shows "listed 10000 s'" and "expires 10000 s'"
proof -
  obtain key ikey data where w: "key_Server keys sid = Inr key" "ServersIndex keys = Inr ikey"
    "marshal (dp_servers dp) \<lparr>gp_ID = sid, gp_Addr = addr, gp_ExpiresAt = now + DefaultServerTTL\<rparr> = Inr data"
    "view s' = (view s)(key \<mapsto> (RStr data, Some 10000), ikey \<mapsto> (RSet (insert sid (set_members (view s ikey))), Some 10000))"
    by (rule register_result [OF assms(3) registry [OF assms(1)]]) (auto simp: server_ttls)
  have "ikey \<noteq> key" using server_index_keys [OF w(1)] w(2) by auto
  with self_decodes [OF assms(2) w(3)] w(1,2,4) show "listed 10000 s'" and "expires 10000 s'"
    by (auto simp: listed_for_def expires_within_def server_at_key live_for_def indexed_servers_at)
qed

lemma register_ok: "ok s \<Longrightarrow> ok (snd (register now s))"
  using op_redis_ok [of s "Register_Server now (self_record gs now)"] by simp

lemma serving_inv:
  assumes "serving canon dp st gs s n sd" and "view s = Map.empty"
  shows "ok (fst sd) \<and> 0 \<le> n \<and> expires 10000 (fst sd) \<and> (n < 10000 \<longrightarrow> listed (10000 - n) (fst sd))"
  using assms(1)
proof induction
  case (Registered ops now db sd)
  let ?s = "fold (redis_exec dp st) ops s"
  have o: "ok ?s" by (rule run_redis_ok [OF Registered(1) empty_ok [OF assms(2)]])
  from Registered(3) have r: "register now ?s = (Inr (), fst sd)"
    by (auto simp: registerGameServer_def registers on_fst_def mapErrS_def mapErr_eq_Inr split: prod.splits)
  show ?case using register_lists [OF okD(2) [OF o] Registered(2) r] register_ok [OF o, of now] r by simp
next
  case (Beat n sd now)
  then have o: "ok (fst sd)" by simp
  from Beat(3) obtain s' where r: "register now (fst sd) = (Inr (), s')"
    by (auto simp: registers on_fst_def split: prod.splits)
  show ?case using register_lists [OF okD(2) [OF o] Beat(2) r] register_ok [OF o, of now] r by (simp add: beat_store del: renewHeartbeat.simps)
next
  case (Missed n sd now)
  then have o: "ok (fst sd)" by simp
  obtain r s' where r: "register now (fst sd) = (r, s')" by force
  show ?case using register_keeps [OF okD(2) [OF o] Missed(2) r] register_ok [OF o, of now] r Missed.IH by (simp add: beat_store del: renewHeartbeat.simps)
next
  case (Other n t db op db')
  then have o: "ok t" and nn: "\<not> names_server sid op" by (simp_all add: identity)
  have t: "0 \<le> op_time op" using Other(2) by (cases op) (simp_all add: op_time_def)
  have "expires 10000 (redis_exec dp st op t)"
    using op_expires [OF o Other(2) nn, of 10000] Other.IH t by (fastforce simp: expires_within_def)
  moreover have "listed (10000 - (n + op_time op)) (redis_exec dp st op t)" if "n + op_time op < 10000"
    using op_listed [OF o Other(2) nn, of "dp_servers dp" addr "10000 - n"] Other.IH t that by (simp add: algebra_simps)
  ultimately show ?case using Other.IH t op_redis_ok [OF o Other(2)] by simp
qed

lemma listed_found:
  assumes "ok s" and "kb_prefix keys \<noteq> []" and "listed b s"
    and "GetGameServerByID (dp_servers dp) (Some (rs_servers st)) sid s = (r, s1)"
    and "ListGameServers (dp_servers dp) (Some (rs_servers st)) s = (l, s2)"
  shows "((\<exists>g. r = Inr g \<and> gs_ID g = sid \<and> gs_Addr g = addr) \<or> (\<exists>e. r = Inl e \<and> errors_is e ErrUnavailable)) \<and>
    (\<forall>srvs. l = Inr srvs \<longrightarrow> (\<exists>g \<in> set srvs. gs_ID g = sid \<and> gs_Addr g = addr))"
proof -
  from assms(3) obtain g where g: "server_at (dp_servers dp) keys (view s) sid = Inr g" "gs_ID g = sid" "gs_Addr g = addr"
    "sid \<in> indexed_servers keys (view s)" unfolding listed_for_def by blast
  have "g \<in> set srvs" if "l = Inr srvs" for srvs
    using listing_answer [OF assms(1,2) assms(5) [unfolded that]] g(1,4) readable(1) key_segment_trim [OF readable(1)]
    by (auto intro: bexI [of _ sid])
  with g lookup_answer [OF assms(1,2,4) readable(1)] show ?thesis by auto
qed

lemma expired_gone:
  assumes "ok s" and "kb_prefix keys \<noteq> []" and "expires b s" and "b \<le> 0"
    and "GetGameServerByID (dp_servers dp) (Some (rs_servers st)) sid s = (r, s1)"
    and "ListGameServers (dp_servers dp) (Some (rs_servers st)) s = (l, s2)"
  shows "(\<exists>e. r = Inl e) \<and> (\<forall>srvs. l = Inr srvs \<longrightarrow>
    (\<forall>g \<in> set srvs. \<exists>i. TrimSpace i \<noteq> sid \<and> server_at (dp_servers dp) keys (view s) (TrimSpace i) = Inr g))"
proof -
  have gone: "server_at (dp_servers dp) keys (view s) sid = Inl (Sentinel ErrNotFound)"
    using expires_now [OF assms(3,4)] by (simp add: server_at_def split: sum.splits)
  have "\<exists>i. TrimSpace i \<noteq> sid \<and> server_at (dp_servers dp) keys (view s) (TrimSpace i) = Inr g"
    if "l = Inr srvs" and "g \<in> set srvs" for srvs g
    using listing_answer [OF assms(1,2) assms(6) [unfolded that(1)]] that(2) gone by force
  with gone lookup_answer [OF assms(1,2,5) readable(1)] show ?thesis by auto
qed

end

text \<open>The process that \<open>app.NewGameServer\<close> wires is such a process.\<close>

lemma wired_serving:
  assumes "redis_counters rc view pass" and "new_redis_stores (Some rc) keys window burst = Inr st"
    and "json_roundtrip token_payload_ok (dp_tokens dp)" and "json_roundtrip server_payload_ok (dp_servers dp)" and "dp_pass dp = pass"
    and "app_NewGameServer new_host (dp_tokens dp) (dp_servers dp) ready (Some rc) (Some pg) conf sid = Inr gs"
    and "NewKeyBuilderFromConfig conf = Inr keys" and "key_segment maxIDBytes sid" and "is_ascii sid"
    and "is_ascii (GameENetAddr conf)" and "ServerAddress (GameENetAddr conf) = Inr a"
  shows "serving_process rc view pass keys window burst st dp gs sid (GameENetAddr conf)" and "kb_prefix keys \<noteq> []"
proof -
  have p: "redis_program rc view pass keys window burst st dp"
    using assms(1-3,5) by (simp add: redis_program_def redis_program_axioms_def)
  obtain sv where sv: "sv = \<lparr>gss_client = Some rc, gss_keys = keys, gss_serverTTL = DefaultServerTTL\<rparr>"
    and reg: "gsp_register gs = (\<lambda>now srv. on_fst (RegisterGameServer (dp_servers dp) (Some sv) now srv))"
    and ids: "cfg_ServerID (gsp_cfg gs) = sid" "ServerTTL (gsp_cfg gs) = DefaultServerTTL" "ENetAddr (gsp_cfg gs) = GameENetAddr conf"
    by (rule app_NewGameServer_Inr [OF assms(6)]) (use assms(7) in auto)
  have "rs_servers st = sv" unfolding sv by (rule redis_program.rs_servers [OF p])
  with p reg ids assms(4,8-11) show "serving_process rc view pass keys window burst st dp gs sid (GameENetAddr conf)"
    by (simp add: serving_process_def serving_process_axioms_def)
  show "kb_prefix keys \<noteq> []" using assms(7) by (auto simp: NewKeyBuilderFromConfig_def NewKeyBuilder_def bindE_eq_Inr split: if_splits)
qed

section \<open>Properties\<close>


text \<open>
  C22. A crashed game server disappears by itself: when a process has stopped sending
  heartbeats, no matter where it stopped and what the others do in the meantime, after the
  time to live of its entry no lookup finds it and no listing contains its entry.
\<close>

theorem crashed_server_gone:
  assumes "redis_counters rc view pass" and "new_redis_stores (Some rc) keys window burst = Inr st"
    and "json_roundtrip token_payload_ok (dp_tokens dp)" and "json_roundtrip server_payload_ok (dp_servers dp)" and "dp_pass dp = pass"
    and "app_NewGameServer new_host (dp_tokens dp) (dp_servers dp) ready (Some rc) (Some pg) conf sid = Inr gs"
    and "NewKeyBuilderFromConfig conf = Inr keys" and "key_segment maxIDBytes sid" and "is_ascii sid"
    and "is_ascii (GameENetAddr conf)" and "ServerAddress (GameENetAddr conf) = Inr a"
    and "view s = Map.empty" and "serving canon dp st gs s n sd"
    and "list_all (\<lambda>op. op_ok canon op \<and> \<not> names_server sid op) ops" and "DefaultServerTTL \<le> elapsed ops * Millisecond"
    and "t = fold (redis_exec dp st) ops (fst sd)"
    and "GetGameServerByID (dp_servers dp) (Some (rs_servers st)) sid t = (r, s1)"
    and "ListGameServers (dp_servers dp) (Some (rs_servers st)) t = (l, s2)"
  shows "(\<exists>e. r = Inl e) \<and> (\<forall>srvs. l = Inr srvs \<longrightarrow>
    (\<forall>g \<in> set srvs. \<exists>i. TrimSpace i \<noteq> sid \<and> server_at (dp_servers dp) keys (view t) (TrimSpace i) = Inr g))"
proof -
  note w = wired_serving [OF assms(1-11)]
  have p: "redis_program rc view pass keys window burst st dp" using w(1) by (simp add: serving_process_def)
  from serving_process.serving_inv [OF w(1) assms(13,12)]
  have ok: "redis_ok (dp_tokens dp) canon st (view (fst sd))" and e: "expires_within keys sid 10000 (view (fst sd))" by simp_all
  have e': "expires_within keys sid (10000 - elapsed ops) (view t)"
    unfolding assms(16) by (rule redis_program.run_expires [OF p assms(14) ok e])
  have ok': "redis_ok (dp_tokens dp) canon st (view t)"
    unfolding assms(16) using redis_program.run_redis_ok [OF p _ ok] assms(14) by (simp add: list_all_iff)
  have "10000 - elapsed ops \<le> 0" using assms(15) by (simp add: DefaultServerTTL_def Second_def Millisecond_def)
  from serving_process.expired_gone [OF w(1) ok' w(2) e' this assms(17,18)] show ?thesis .
qed

section \<open>Witnesses\<close>

lemma w_serving_setup:
  "json_roundtrip token_payload_ok (dp_tokens w_deployment)" "json_roundtrip server_payload_ok (dp_servers w_deployment)"
  "dp_pass w_deployment = mem_pass"
  "app_NewGameServer (\<lambda>_ _ _. Inr ()) (dp_tokens w_deployment) (dp_servers w_deployment) (\<lambda>_. Inr ()) (Some mem_redis) (Some mem_pg) w_conf ''s1'' = Inr w_gs"
  "NewKeyBuilderFromConfig w_conf = Inr w_keys"
  using mem_token_json_roundtrip mem_server_json_roundtrip w_gs_wired w_keys_conf by (simp_all add: w_deployment_def)

lemma w_identity:
  "key_segment maxIDBytes ''s1''" "is_ascii ''s1''" "is_ascii (GameENetAddr w_conf)" "ServerAddress (GameENetAddr w_conf) = Inr '':7777''"
  by code_simp+

lemma w_addr: "GameENetAddr w_conf = '':7777''"
  by (simp add: w_conf_def)

interpretation mem_serving: serving_process mem_redis mem_view mem_pass w_keys Second 2 w_redis_stores w_deployment mem_canon w_gs "''s1''" "'':7777''"
  using wired_serving(1) [OF w_program w_serving_setup w_identity] by (simp add: w_addr)

text \<open>
  A process registers, sends a heartbeat after five seconds, and another server registers
  almost ten seconds later.
\<close>

definition w_self :: "time \<Rightarrow> GameServer" where
  "w_self now = \<lparr>gs_ID = ''s1'', gs_Addr = '':7777'', gs_ExpiresAt = now + DefaultServerTTL\<rparr>"

abbreviation w_register :: "time \<Rightarrow> GameServer \<Rightarrow> mem \<Rightarrow> unit result \<times> mem" where
  "w_register \<equiv> RegisterGameServer mem_server_json (Some mem_server_store)"

definition w_up :: mem where
  "w_up = snd (w_register 0 (w_self 0) mem_empty)"

definition w_beaten :: mem where
  "w_beaten = snd (w_register (5 * Second) (w_self (5 * Second)) (mem_pass 5000 w_up))"

definition w_late :: mem where
  "w_late = snd (w_register 0 (w_server\<lparr>gs_ID := ''s2''\<rparr>) (mem_pass 9999 w_beaten))"

lemma w_stores: "rs_servers w_redis_stores = mem_server_store" "dp_servers w_deployment = mem_server_json"
  by (simp_all add: mem_program.rs_servers mem_server_store_def w_deployment_def)

lemma w_self_record: "self_record w_gs now = w_self now"
  by (rule GameServer.equality) (simp_all add: w_self_def)

lemma w_gs_calls:
  "gsp_register w_gs now (self_record w_gs now) (s, d) = (fst (w_register now (w_self now) s), snd (w_register now (w_self now) s), d)"
  "renewHeartbeat w_gs [now] (s, d) = (snd (w_register now (w_self now) s), d)"
  by (simp_all add: mem_serving.registers on_fst_def w_stores w_self_record case_prod_beta)

lemma w_registers:
  "fst (w_register 0 (w_self 0) mem_empty) = Inr ()"
  "fst (w_register (5 * Second) (w_self (5 * Second)) (mem_pass 5000 w_up)) = Inr ()"
  by code_simp+

lemma w_served: "serving mem_canon w_deployment w_redis_stores w_gs mem_empty 9999 (w_late, w_mem_db)"
proof -
  let ?S = "serving mem_canon w_deployment w_redis_stores w_gs mem_empty"
  have c: "clock_ok 0" "clock_ok (5 * Second)" by (simp_all add: clock_ok_def DefaultServerTTL_def Second_def)
  have "registerGameServer w_gs 0 (mem_empty, w_mem_db) = (Inr (), w_up, w_mem_db)"
    by (simp add: registerGameServer_def w_gs_calls(1) w_registers(1) w_up_def)
  then have 1: "?S 0 (w_up, w_mem_db)" by (intro serving.Registered [of _ "[]" 0, OF _ c(1)]) simp_all
  have wait: "?S (n + d) (mem_pass d s, w_mem_db)" if "?S n (s, w_mem_db)" and "0 \<le> d" for n d s
    using serving.Other [OF that(1), of "Pass_Time d" w_mem_db] that(2) w_serving_setup(3) by (simp add: op_time_def)
  from wait [OF 1, of 5000] have 2: "?S 5000 (mem_pass 5000 w_up, w_mem_db)" by simp
  have 3: "?S 0 (w_beaten, w_mem_db)"
    using serving.Beat [OF 2 c(2)] w_registers(2) unfolding w_gs_calls w_beaten_def by simp
  from wait [OF this, of 9999] have "?S 9999 (mem_pass 9999 w_beaten, w_mem_db)" by simp
  from serving.Other [OF this, of "Register_Server 0 (w_server\<lparr>gs_ID := ''s2''\<rparr>)" w_mem_db] show ?thesis
    by (simp add: op_time_def mem_serving.identity w_late_def w_stores)
qed

lemma w_empty_view: "mem_view mem_empty = Map.empty"
  by (simp add: fun_eq_iff mem_view_def mem_empty_def)

lemmas w_serving = w_program w_serving_setup w_identity w_empty_view w_served [unfolded w_stores]


theorem crashed_server_gone_witness:
  "fst (w_get w_late) = Inr (w_self (5 * Second)) \<and> (\<exists>e. fst (w_get (mem_pass 10000 w_late)) = Inl e)"
proof -
  have g: "fst (w_get w_late) = Inr (w_self (5 * Second))" by code_simp
  have ops: "list_all (\<lambda>op. op_ok mem_canon op \<and> \<not> names_server ''s1'' op) [Pass_Time 10000]" by simp
  have t: "DefaultServerTTL \<le> elapsed [Pass_Time 10000] * Millisecond"
    by (simp add: elapsed_def op_time_def DefaultServerTTL_def Second_def Millisecond_def)
  from crashed_server_gone [OF w_serving ops t refl prod.collapse [symmetric] prod.collapse [symmetric]] g show ?thesis
    by (simp add: w_stores w_serving_setup(3))
qed

end
