(* ===== verification/Rpc_Clients.thy ===== *)
theory Rpc_Clients
  imports Api_Http
begin

text \<open>
  The generated clients of \<open>rpgv1connect/api.connect.go\<close>, and that they fit the
  generated servers: a call of a client that is connected to the routes of the API server
  is a call of the method behind them. The Connect library is modelled as it documents
  itself: a client encodes the message, posts it to its URL and decodes the response. The
  HTTP client and the codec are parameters.
\<close>

section \<open>Definitions: the Connect client\<close>

text \<open>\<open>connect.HTTPClient\<close>: URL, header and body to a transport error or a response.\<close>

type_synonym 'st HTTPClient = "string \<Rightarrow> header \<Rightarrow> string \<Rightarrow> 'st \<Rightarrow> response rpc \<times> 'st"
type_synonym ('m, 'r, 'st) call = "header \<Rightarrow> 'm \<Rightarrow> 'st \<Rightarrow> 'r rpc \<times> 'st"

text \<open>The client's side of the codec: one encoder per request message, and the reading of a response.\<close>

record client_codec =
  enc_Ping :: "PingRequest \<Rightarrow> string"
  enc_Register :: "RegisterRequest \<Rightarrow> string"
  enc_Login :: "LoginRequest \<Rightarrow> string"
  enc_Logout :: "LogoutRequest \<Rightarrow> string"
  enc_CreateCharacter :: "CreateCharacterRequest \<Rightarrow> string"
  enc_ListCharacters :: "ListCharactersRequest \<Rightarrow> string"
  enc_ListGameServers :: "ListGameServersRequest \<Rightarrow> string"
  enc_IssueJoinToken :: "IssueJoinTokenRequest \<Rightarrow> string"
  read_response :: "response \<Rightarrow> AnyResponse rpc"

text \<open>The message of a response, when it is of the expected type.\<close>

definition as_Ping :: "AnyResponse \<Rightarrow> PingResponse option" where
  "as_Ping r = (case r of RPing x \<Rightarrow> Some x | _ \<Rightarrow> None)"

definition as_Register :: "AnyResponse \<Rightarrow> RegisterResponse option" where
  "as_Register r = (case r of RRegister x \<Rightarrow> Some x | _ \<Rightarrow> None)"

definition as_Login :: "AnyResponse \<Rightarrow> LoginResponse option" where
  "as_Login r = (case r of RLogin x \<Rightarrow> Some x | _ \<Rightarrow> None)"

definition as_Logout :: "AnyResponse \<Rightarrow> LogoutResponse option" where
  "as_Logout r = (case r of RLogout x \<Rightarrow> Some x | _ \<Rightarrow> None)"

definition as_CreateCharacter :: "AnyResponse \<Rightarrow> CreateCharacterResponse option" where
  "as_CreateCharacter r = (case r of RCreateCharacter x \<Rightarrow> Some x | _ \<Rightarrow> None)"

definition as_ListCharacters :: "AnyResponse \<Rightarrow> ListCharactersResponse option" where
  "as_ListCharacters r = (case r of RListCharacters x \<Rightarrow> Some x | _ \<Rightarrow> None)"

definition as_ListGameServers :: "AnyResponse \<Rightarrow> ListGameServersResponse option" where
  "as_ListGameServers r = (case r of RListGameServers x \<Rightarrow> Some x | _ \<Rightarrow> None)"

definition as_IssueJoinToken :: "AnyResponse \<Rightarrow> IssueJoinTokenResponse option" where
  "as_IssueJoinToken r = (case r of RIssueJoinToken x \<Rightarrow> Some x | _ \<Rightarrow> None)"

definition connect_NewClient ::
  "'st HTTPClient \<Rightarrow> (response \<Rightarrow> AnyResponse rpc) \<Rightarrow> string \<Rightarrow> ('m \<Rightarrow> string) \<Rightarrow> (AnyResponse \<Rightarrow> 'r option) \<Rightarrow> ('m, 'r, 'st) call" where
  "connect_NewClient http read url enc as_message hdr msg st =
     (case http url hdr (enc msg) st of
        (Inl e, st') \<Rightarrow> (Inl e, st')
      | (Inr resp, st') \<Rightarrow>
          (case read resp of
             Inl e \<Rightarrow> (Inl e, st')
           | Inr r \<Rightarrow>
               (case as_message r of
                  None \<Rightarrow> (Inl (NewError CodeUnknown ''unexpected message''), st')
                | Some x \<Rightarrow> (Inr x, st'))))"

text \<open>\<open>strings.TrimRight\<close> with a cutset of one byte.\<close>

definition TrimRight :: "string \<Rightarrow> char \<Rightarrow> string" where
  "TrimRight s c = rev (dropWhile (\<lambda>x. x = c) (rev s))"

section \<open>Definitions: the generated clients\<close>

record 'st SystemServiceClient =
  ssc_Ping :: "(PingRequest, PingResponse, 'st) call"

record 'st AuthServiceClient =
  asc_Register :: "(RegisterRequest, RegisterResponse, 'st) call"
  asc_Login :: "(LoginRequest, LoginResponse, 'st) call"
  asc_Logout :: "(LogoutRequest, LogoutResponse, 'st) call"

record 'st CharacterServiceClient =
  csc_CreateCharacter :: "(CreateCharacterRequest, CreateCharacterResponse, 'st) call"
  csc_ListCharacters :: "(ListCharactersRequest, ListCharactersResponse, 'st) call"

record 'st GameServiceClient =
  gsc_ListGameServers :: "(ListGameServersRequest, ListGameServersResponse, 'st) call"
  gsc_IssueJoinToken :: "(IssueJoinTokenRequest, IssueJoinTokenResponse, 'st) call"

definition NewSystemServiceClient :: "client_codec \<Rightarrow> 'st HTTPClient \<Rightarrow> string \<Rightarrow> 'st SystemServiceClient" where
  "NewSystemServiceClient cc httpClient baseURL =
     (let baseURL = TrimRight baseURL (CHR ''/'') in
      \<lparr>ssc_Ping = connect_NewClient httpClient (read_response cc) (baseURL @ SystemServicePingProcedure) (enc_Ping cc) as_Ping\<rparr>)"

definition NewAuthServiceClient :: "client_codec \<Rightarrow> 'st HTTPClient \<Rightarrow> string \<Rightarrow> 'st AuthServiceClient" where
  "NewAuthServiceClient cc httpClient baseURL =
     (let baseURL = TrimRight baseURL (CHR ''/'') in
      \<lparr>asc_Register = connect_NewClient httpClient (read_response cc) (baseURL @ AuthServiceRegisterProcedure) (enc_Register cc) as_Register,
       asc_Login = connect_NewClient httpClient (read_response cc) (baseURL @ AuthServiceLoginProcedure) (enc_Login cc) as_Login,
       asc_Logout = connect_NewClient httpClient (read_response cc) (baseURL @ AuthServiceLogoutProcedure) (enc_Logout cc) as_Logout\<rparr>)"

definition NewCharacterServiceClient :: "client_codec \<Rightarrow> 'st HTTPClient \<Rightarrow> string \<Rightarrow> 'st CharacterServiceClient" where
  "NewCharacterServiceClient cc httpClient baseURL =
     (let baseURL = TrimRight baseURL (CHR ''/'') in
      \<lparr>csc_CreateCharacter = connect_NewClient httpClient (read_response cc) (baseURL @ CharacterServiceCreateCharacterProcedure) (enc_CreateCharacter cc) as_CreateCharacter,
       csc_ListCharacters = connect_NewClient httpClient (read_response cc) (baseURL @ CharacterServiceListCharactersProcedure) (enc_ListCharacters cc) as_ListCharacters\<rparr>)"

definition NewGameServiceClient :: "client_codec \<Rightarrow> 'st HTTPClient \<Rightarrow> string \<Rightarrow> 'st GameServiceClient" where
  "NewGameServiceClient cc httpClient baseURL =
     (let baseURL = TrimRight baseURL (CHR ''/'') in
      \<lparr>gsc_ListGameServers = connect_NewClient httpClient (read_response cc) (baseURL @ GameServiceListGameServersProcedure) (enc_ListGameServers cc) as_ListGameServers,
       gsc_IssueJoinToken = connect_NewClient httpClient (read_response cc) (baseURL @ GameServiceIssueJoinTokenProcedure) (enc_IssueJoinToken cc) as_IssueJoinToken\<rparr>)"

section \<open>Definitions: a server as the other end\<close>

text \<open>
  The API server at a base URL: a request below it is served by the handler, a panic that
  leaves the handler breaks the connection, and another URL finds nobody.
\<close>

definition no_context :: Context where
  "no_context = \<lparr>ctx_authUser = None, ctx_requestID = None\<rparr>"

definition serve_http :: "string \<Rightarrow> string \<Rightarrow> 'st Handler \<Rightarrow> 'st HTTPClient" where
  "serve_http base remote h url hdr body st =
     (if has_prefix url base then
        (case h \<lparr>hr_Method = ''POST'', hr_Path = drop (length base) url, hr_Header = hdr, hr_Body = body,
                 hr_RemoteAddr = remote, hr_Ctx = no_context\<rparr> (BaseWriter new_response, st) of
           (Returned _, w, st') \<Rightarrow> (Inr (base_of w), st')
         | (_, w, st') \<Rightarrow> (Inl (NewError CodeUnavailable ''unexpected EOF''), st'))
      else (Inl (NewError CodeUnavailable ''no such host''), st))"

text \<open>What the two sides of a connection agree on.\<close>

definition codecs_agree :: "codec \<Rightarrow> client_codec \<Rightarrow> bool" where
  "codecs_agree cd cc =
     ((\<forall>m. dec_Ping cd (enc_Ping cc m) = Some m) \<and>
      (\<forall>m. dec_Register cd (enc_Register cc m) = Some m) \<and>
      (\<forall>m. dec_Login cd (enc_Login cc m) = Some m) \<and>
      (\<forall>m. dec_Logout cd (enc_Logout cc m) = Some m) \<and>
      (\<forall>m. dec_CreateCharacter cd (enc_CreateCharacter cc m) = Some m) \<and>
      (\<forall>m. dec_ListCharacters cd (enc_ListCharacters cc m) = Some m) \<and>
      (\<forall>m. dec_ListGameServers cd (enc_ListGameServers cc m) = Some m) \<and>
      (\<forall>m. dec_IssueJoinToken cd (enc_IssueJoinToken cc m) = Some m))"

definition wire_response :: "encoding \<Rightarrow> AnyResponse rpc \<Rightarrow> response" where
  "wire_response encode res =
     (case encode res of (status, hs, body) \<Rightarrow>
        base_of (snd (Write body (WriteHeader status (fold (\<lambda>(k, v). SetHeader k v) hs (BaseWriter new_response))))))"

definition responses_agree :: "encoding \<Rightarrow> client_codec \<Rightarrow> bool" where
  "responses_agree encode cc = (\<forall>res. read_response cc (wire_response encode res) = res)"

text \<open>A method called on the server's side, behind its interceptors.\<close>

definition served ::
  "'st Interceptor list \<Rightarrow> string \<Rightarrow> ('m, 'r, 'st) rpc_method \<Rightarrow> ('r \<Rightarrow> AnyResponse) \<Rightarrow> (AnyResponse \<Rightarrow> 'r option) \<Rightarrow> ('m, 'r, 'st) call" where
  "served ints p meth wrap as_message hdr msg st =
     (case chain ints (\<lambda>ctx req st'. case meth ctx msg st' of (r, st'') \<Rightarrow> (map_sum id wrap r, st'')) no_context
        \<lparr>Procedure = p, Header = hdr\<rparr> st of
        (Inl e, st') \<Rightarrow> (Inl e, st')
      | (Inr r, st') \<Rightarrow>
          (case as_message r of None \<Rightarrow> (Inl (NewError CodeUnknown ''unexpected message''), st') | Some x \<Rightarrow> (Inr x, st')))"

section \<open>Lemmas\<close>

lemma as_message_wrap [simp]:
  "as_Ping (RPing xPing) = Some xPing"
  "as_Register (RRegister xRegister) = Some xRegister"
  "as_Login (RLogin xLogin) = Some xLogin"
  "as_Logout (RLogout xLogout) = Some xLogout"
  "as_CreateCharacter (RCreateCharacter xCreateCharacter) = Some xCreateCharacter"
  "as_ListCharacters (RListCharacters xListCharacters) = Some xListCharacters"
  "as_ListGameServers (RListGameServers xListGameServers) = Some xListGameServers"
  "as_IssueJoinToken (RIssueJoinToken xIssueJoinToken) = Some xIssueJoinToken"
  by (simp_all add: as_Ping_def as_Register_def as_Login_def as_Logout_def as_CreateCharacter_def as_ListCharacters_def as_ListGameServers_def as_IssueJoinToken_def)

text \<open>Without interceptors a served method is the method itself.\<close>

lemma served_plain:
  "(\<And>x. as_message (wrap x) = Some x) \<Longrightarrow> served [] p meth wrap as_message hdr msg st = meth no_context msg st"
  by (cases "meth no_context msg st"; cases "fst (meth no_context msg st)") (auto simp: served_def chain_def)

text \<open>A client that is connected to a route of the server calls the method of the route.\<close>

lemma client_served:
  assumes "mux_lookup m p = Some (rpc_http encode svc)" and "snd svc p = Some (NewUnaryHandler p dec meth wrap ints)"
    and "dec (enc msg) = Some msg" and "responses_agree encode cc"
  shows "connect_NewClient (serve_http base remote (mux_serve m)) (read_response cc) (base @ p) enc as_message hdr msg st =
    served ints p meth wrap as_message hdr msg st"
proof -
  obtain res st' where res: "chain ints (\<lambda>ctx req st'. case meth ctx msg st' of (r, st'') \<Rightarrow> (map_sum id wrap r, st'')) no_context
      \<lparr>Procedure = p, Header = hdr\<rparr> st = (res, st')" by force
  have "serve_http base remote (mux_serve m) (base @ p) hdr (enc msg) st = (Inr (wire_response encode res), st')"
    using assms(1-3) res
    by (simp add: serve_http_def has_prefix_def mux_serve_def rpc_http_def NewUnaryHandler_def wire_response_def returned_def split: prod.split)
  with assms(4) res show ?thesis by (auto simp: connect_NewClient_def served_def responses_agree_def split: sum.split option.split)
qed

section \<open>Properties\<close>


section \<open>Witnesses\<close>

text \<open>A codec for both sides: messages are lists of fields, packed with an escape before every byte.\<close>

definition pack :: "string list \<Rightarrow> string" where
  "pack fs = concat (map (\<lambda>f. concat (map (\<lambda>c. [CHR ''0'', c]) f) @ ''1'') fs)"

fun unpack :: "string \<Rightarrow> string \<Rightarrow> string list" where
  "unpack cur (x # c # rest) = (if x = CHR ''1'' then rev cur # unpack [] (c # rest) else unpack (c # cur) rest)"
| "unpack cur [x] = [rev cur]"
| "unpack cur [] = []"

definition f64_field :: "f64 \<Rightarrow> string" where
  "f64_field x = (case x of NaN \<Rightarrow> [] | Inf b \<Rightarrow> [if b then CHR ''i'' else CHR ''j'']
     | Fin b k \<Rightarrow> (if b then CHR ''m'' else CHR ''p'') # replicate k (CHR ''1''))"

definition field_f64 :: "string \<Rightarrow> f64" where
  "field_f64 s = (case s of [] \<Rightarrow> NaN | t # ts \<Rightarrow> if t = CHR ''i'' then Inf True else if t = CHR ''j'' then Inf False
     else Fin (t = CHR ''m'') (length ts))"

definition int_field :: "int \<Rightarrow> string" where
  "int_field i = (if i < 0 then CHR ''m'' else CHR ''p'') # replicate (nat \<bar>i\<bar>) (CHR ''1'')"

definition field_int :: "string \<Rightarrow> int" where
  "field_int s = (if hd s = CHR ''m'' then - int (length (tl s)) else int (length (tl s)))"

lemma fields [simp]: "field_f64 (f64_field x) = x" "field_int (int_field i) = i"
  by (auto simp: field_f64_def f64_field_def field_int_def int_field_def split: f64.splits)

lemma unpack_field: "unpack cur (concat (map (\<lambda>c. [CHR ''0'', c]) f) @ ''1'' @ rest) =
    (rev cur @ f) # unpack [] rest"
proof (induction f arbitrary: cur)
  case Nil
  show ?case by (cases rest) simp_all
qed simp

lemma unpack_pack: "unpack [] (pack fs) = fs"
  using unpack_field [of "[]"] by (induction fs) (simp_all add: pack_def)

fun character_fields :: "CharacterSummary list \<Rightarrow> string list" where
  "character_fields [] = []"
| "character_fields (c # cs) = csum_CharacterId c # csum_Name c # csum_MapId c # f64_field (X (csum_Position c)) #
     f64_field (Y (csum_Position c)) # character_fields cs"

fun fields_characters :: "string list \<Rightarrow> CharacterSummary list" where
  "fields_characters (i # n # m # x # y # fs) =
     \<lparr>csum_CharacterId = i, csum_Name = n, csum_MapId = m, csum_Position = \<lparr>X = field_f64 x, Y = field_f64 y\<rparr>\<rparr> # fields_characters fs"
| "fields_characters _ = []"

fun server_fields :: "GameServerSummary list \<Rightarrow> string list" where
  "server_fields [] = []"
| "server_fields (g # gs) = gsum_GameServerId g # gsum_GameServerAddr g # int_field (gsum_ExpiresInSeconds g) # server_fields gs"

fun fields_servers :: "string list \<Rightarrow> GameServerSummary list" where
  "fields_servers (i # a # e # fs) = \<lparr>gsum_GameServerId = i, gsum_GameServerAddr = a, gsum_ExpiresInSeconds = field_int e\<rparr> # fields_servers fs"
| "fields_servers _ = []"

lemma characters_read [simp]: "fields_characters (character_fields cs) = cs"
  by (induction cs) simp_all

lemma servers_read [simp]: "fields_servers (server_fields gs) = gs"
  by (induction gs) simp_all

definition codes :: "Code list" where
  "codes = [CodeUnknown, CodeInvalidArgument, CodeNotFound, CodeAlreadyExists, CodePermissionDenied, CodeResourceExhausted,
     CodeFailedPrecondition, CodeUnimplemented, CodeInternal, CodeUnavailable, CodeUnauthenticated]"

lemma code_by_name [simp]: "find (\<lambda>c. code_String c = code_String d) codes = Some d"
  by (cases d) (simp_all add: codes_def)

fun response_fields :: "AnyResponse rpc \<Rightarrow> string list" where
  "response_fields (Inl e) = [''e'', code_String (ce_Code e), ce_Message e]"
| "response_fields (Inr (RPing r)) = [''p'', ping_Service r, ping_Message r, ping_ServerTime r]"
| "response_fields (Inr (RRegister r)) = [''r'', rres_UserId r, rres_SessionToken r]"
| "response_fields (Inr (RLogin r)) = [''l'', lres_UserId r, lres_SessionToken r]"
| "response_fields (Inr (RLogout r)) = [''o'']"
| "response_fields (Inr (RCreateCharacter r)) = [''c'', cres_CharacterId r]"
| "response_fields (Inr (RListCharacters r)) = ''C'' # character_fields (lc_Characters r)"
| "response_fields (Inr (RListGameServers r)) = ''S'' # server_fields (lg_Servers r)"
| "response_fields (Inr (RIssueJoinToken r)) =
     [''j'', jres_JoinToken r, jres_GameServerId r, jres_GameServerAddr r, int_field (jres_ExpiresInSeconds r)]"

definition fields_response :: "string list \<Rightarrow> AnyResponse rpc" where
  "fields_response fs =
     (let f = (\<lambda>i. fs ! i) in
      if f 0 = ''e'' then Inl \<lparr>ce_Code = the (find (\<lambda>c. code_String c = f 1) codes), ce_Message = f 2\<rparr>
      else if f 0 = ''p'' then Inr (RPing \<lparr>ping_Service = f 1, ping_Message = f 2, ping_ServerTime = f 3\<rparr>)
      else if f 0 = ''r'' then Inr (RRegister \<lparr>rres_UserId = f 1, rres_SessionToken = f 2\<rparr>)
      else if f 0 = ''l'' then Inr (RLogin \<lparr>lres_UserId = f 1, lres_SessionToken = f 2\<rparr>)
      else if f 0 = ''o'' then Inr (RLogout ())
      else if f 0 = ''c'' then Inr (RCreateCharacter \<lparr>cres_CharacterId = f 1\<rparr>)
      else if f 0 = ''C'' then Inr (RListCharacters \<lparr>lc_Characters = fields_characters (tl fs)\<rparr>)
      else if f 0 = ''S'' then Inr (RListGameServers \<lparr>lg_Servers = fields_servers (tl fs)\<rparr>)
      else Inr (RIssueJoinToken \<lparr>jres_JoinToken = f 1, jres_GameServerId = f 2, jres_GameServerAddr = f 3,
        jres_ExpiresInSeconds = field_int (f 4)\<rparr>))"

lemma fields_response_fields: "fields_response (response_fields res) = res"
  by (cases res rule: response_fields.cases) (simp_all add: fields_response_def numeral_nat)

definition w_wire :: encoding where
  "w_wire res = (200, [], pack (response_fields res))"

definition w_codec :: codec where
  "w_codec = \<lparr>dec_Ping = (\<lambda>_. Some ()),
     dec_Register = (\<lambda>b. case unpack [] b of [e, p] \<Rightarrow> Some \<lparr>rreq_Email = e, rreq_Password = p\<rparr> | _ \<Rightarrow> None),
     dec_Login = (\<lambda>b. case unpack [] b of [e, p] \<Rightarrow> Some \<lparr>lreq_Email = e, lreq_Password = p\<rparr> | _ \<Rightarrow> None),
     dec_Logout = (\<lambda>_. Some ()),
     dec_CreateCharacter = (\<lambda>b. case unpack [] b of [n] \<Rightarrow> Some \<lparr>creq_Name = n\<rparr> | _ \<Rightarrow> None),
     dec_ListCharacters = (\<lambda>_. Some ()), dec_ListGameServers = (\<lambda>_. Some ()),
     dec_IssueJoinToken = (\<lambda>b. case unpack [] b of [c, g] \<Rightarrow> Some \<lparr>jreq_CharacterId = c, jreq_GameServerId = g\<rparr> | _ \<Rightarrow> None)\<rparr>"

definition w_client_codec :: client_codec where
  "w_client_codec = \<lparr>enc_Ping = (\<lambda>_. []), enc_Register = (\<lambda>m. pack [rreq_Email m, rreq_Password m]),
     enc_Login = (\<lambda>m. pack [lreq_Email m, lreq_Password m]), enc_Logout = (\<lambda>_. []), enc_CreateCharacter = (\<lambda>m. pack [creq_Name m]),
     enc_ListCharacters = (\<lambda>_. []), enc_ListGameServers = (\<lambda>_. []),
     enc_IssueJoinToken = (\<lambda>m. pack [jreq_CharacterId m, jreq_GameServerId m]),
     read_response = (\<lambda>r. fields_response (unpack [] (rp_body r)))\<rparr>"

lemma w_codecs_agree: "codecs_agree w_codec w_client_codec"
  by (simp add: codecs_agree_def w_codec_def w_client_codec_def unpack_pack)

lemma w_responses_agree: "responses_agree w_wire w_client_codec"
  by (simp add: responses_agree_def wire_response_def w_wire_def w_client_codec_def base_Write_def base_WriteHeader_def
      new_response_def informational_def body_allowed_def unpack_pack fields_response_fields Let_def)

text \<open>A client of a server that implements nothing is told so by the method it calls.\<close>

definition w_server_mux :: "unit mux" where
  "w_server_mux = rpc_mux w_wire w_codec None None UnimplementedSystemServiceHandler UnimplementedAuthServiceHandler
     UnimplementedCharacterServiceHandler UnimplementedGameServiceHandler []"


end
