(* ===== verification/Entry_Points.thy ===== *)
theory Entry_Points
  imports Api_App Game_App
begin

text \<open>
  The two processes from the outside: \<open>main\<close> of \<open>cmd/api\<close> and \<open>cmd/game\<close> over \<open>RunAPI\<close>
  and \<open>RunGame\<close>, with what a process leaves behind: the error it logged, its exit status
  and the log of the resources that it opened and closed.
\<close>

section \<open>Definitions\<close>

text \<open>\<open>NewRuntime\<close>: the runtime on the production dependencies, in the environment \<open>environ\<close>.\<close>

definition NewRuntime ::
  "((string \<Rightarrow> string option) \<Rightarrow> (string \<Rightarrow> string option)) \<Rightarrow> (string \<Rightarrow> string option) \<Rightarrow> (string \<Rightarrow> poolConfig result) \<Rightarrow> (poolConfig \<Rightarrow> unit result) \<Rightarrow> (poolConfig \<Rightarrow> unit result)
     \<Rightarrow> (RedisOptions \<Rightarrow> unit result) \<Rightarrow> Runtime result \<times> res_log" where
  "NewRuntime dotenv environ parse factory ping cping =
     NewRuntimeWithDeps (Load dotenv environ) (newPool parse factory ping) (NewClient cping)
       \<lparr>rd_LoadConfig = None, rd_NewPostgres = None, rd_NewRedis = None\<rparr> []"

text \<open>\<open>RunGame\<close>, with the run of the server it made.\<close>

definition RunGame ::
  "Runtime result \<times> res_log \<Rightarrow> (Runtime \<Rightarrow> 'gs result) \<Rightarrow> ('gs \<Rightarrow> unit result) \<Rightarrow> unit result \<Rightarrow> unit result \<times> res_log" where
  "RunGame start new_server run close_redis =
     run_service start
       (\<lambda>rt. bindE (mapErr (\<lambda>e. Wrap ''create game server'' [e]) (new_server rt)) run)
       close_redis"

text \<open>The end of a process: the errors that it logged at last, and its exit status.\<close>

record process_end =
  pe_logged :: "(string \<times> gerr) list"
  pe_status :: int

definition Fatal :: "string \<Rightarrow> gerr \<Rightarrow> process_end" where
  "Fatal msg err = \<lparr>pe_logged = [(msg, err)], pe_status = 1\<rparr>"

text \<open>A \<open>main\<close> that returns ends the process with status 0.\<close>

definition main_api :: "unit result \<Rightarrow> process_end" where
  "main_api run = (case run of Inl err \<Rightarrow> Fatal ''api server failed'' err | Inr _ \<Rightarrow> \<lparr>pe_logged = [], pe_status = 0\<rparr>)"

definition main_game :: "unit result \<Rightarrow> process_end" where
  "main_game run = (case run of Inl err \<Rightarrow> Fatal ''game server failed'' err | Inr _ \<Rightarrow> \<lparr>pe_logged = [], pe_status = 0\<rparr>)"

section \<open>Lemmas\<close>

lemma run_service_ok:
  "(\<exists>u. fst (run_service start serve close_redis) = Inr u) \<longleftrightarrow> (\<exists>rt u. fst start = Inr rt \<and> serve rt = Inr u)"
  by (cases start; cases "fst start") (auto simp: run_service_def)

lemma main_status:
  "pe_status (main_api r) = 0 \<longleftrightarrow> (\<exists>u. r = Inr u)" "pe_status (main_game r) = 0 \<longleftrightarrow> (\<exists>u. r = Inr u)"
  "length (pe_logged (main_api r)) = nat (pe_status (main_api r))" "length (pe_logged (main_game r)) = nat (pe_status (main_game r))"
  by (cases r; simp add: main_api_def main_game_def Fatal_def)+

lemma Run_ok: "(\<exists>u. fst (Run pb gs now steps order (initial_game s)) = Inr u) \<longleftrightarrow> (\<exists>u. fst (registerGameServer gs now s) = Inr u)"
  by (cases "registerGameServer gs now s"; cases "fst (registerGameServer gs now s)") (auto simp: Run_def initial_game_def)

section \<open>Properties\<close>

text \<open>
  C31. Both processes end cleanly: whatever the environment, the database, Redis and the
  server do, the process has closed every connection of its runtime, in reverse order. The
  API process exits with status 0 exactly if the configuration could be loaded, the runtime
  came up, the server could be made, and it ended by a stop signal with an orderly shutdown
  or a closed listener; the game process exactly if its server could be made and registered,
  however its loop and its heartbeats went. Otherwise the process logs one error and exits
  with status 1.
\<close>

theorem processes_end_cleanly:
  "let start = NewRuntime dotenv environ parse factory ping cping;
       api = RunAPI start new_api ev close_redis;
       game = RunGame start (\<lambda>rt. app_NewGameServer new_host js jsv ready redis pool (rt_Config rt) sid)
         (\<lambda>gs. fst (Run pb gs now steps order (initial_game s))) close_redis
   in still_open [] (snd api) = Some [] \<and> still_open [] (snd game) = Some [] \<and>
      (pe_status (main_api (fst api)) = 0 \<longleftrightarrow>
        (\<exists>rt srv. fst start = Inr rt \<and> new_api rt = Inr srv) \<and> (ev = ListenClosed \<or> ev = CtxDone (Inr ()))) \<and>
      (pe_status (main_game (fst game)) = 0 \<longleftrightarrow>
        (\<exists>rt gs u. fst start = Inr rt \<and> app_NewGameServer new_host js jsv ready redis pool (rt_Config rt) sid = Inr gs \<and>
           fst (registerGameServer gs now s) = Inr u)) \<and>
      (case fst start of Inl e \<Rightarrow> True | Inr rt \<Rightarrow> Load dotenv environ = Inr (rt_Config rt)) \<and>
      length (pe_logged (main_api (fst api))) = nat (pe_status (main_api (fst api))) \<and>
      length (pe_logged (main_game (fst game))) = nat (pe_status (main_game (fst game)))"
proof -
  have ev: "(\<exists>u. fst (api_Run ev) = Inr u) \<longleftrightarrow> ev = ListenClosed \<or> ev = CtxDone (Inr ())"
    by (auto simp: api_Run_def split: serve_event.splits sum.splits)
  have load: "case fst (NewRuntime dotenv environ parse factory ping cping) of Inl e \<Rightarrow> True | Inr rt \<Rightarrow> Load dotenv environ = Inr (rt_Config rt)"
    by (auto simp: NewRuntime_def runtime_config split: sum.splits)
  have game: "(\<exists>rt u. fst start = Inr rt \<and> bindE (mapErr (\<lambda>e. Wrap ''create game server'' [e])
        (app_NewGameServer new_host js jsv ready redis pool (rt_Config rt) sid))
        (\<lambda>gs. fst (Run pb gs now steps order (initial_game s))) = Inr u) \<longleftrightarrow>
      (\<exists>rt gs u. fst start = Inr rt \<and> app_NewGameServer new_host js jsv ready redis pool (rt_Config rt) sid = Inr gs \<and>
           fst (registerGameServer gs now s) = Inr u)" for start
    using Run_ok [of pb _ now steps order s] by (auto simp: bindE_eq_Inr mapErr_eq_Inr)
  show ?thesis
    unfolding Let_def main_status RunAPI_def RunGame_def run_service_ok game
    by (simp add: NewRuntime_def run_service_closes bindE_eq_Inr load [unfolded NewRuntime_def] flip: ev) (auto simp: mapErr_eq_Inr)
qed

end
