(* ===== verification/Logger.thy ===== *)
theory Logger
  imports Config
begin

text \<open>
  Logger construction, \<open>internal/logger/logger.go\<close>: level names, output format and the
  options of a logger. The handlers of \<open>log/slog\<close> are described by their parameters.
\<close>

datatype Level = LevelDebug | LevelInfo | LevelWarn | LevelError

text \<open>The levels of \<open>log/slog\<close> with their numbers, which order them.\<close>

fun level_value :: "Level \<Rightarrow> int" where
  "level_value LevelDebug = -4"
| "level_value LevelInfo = 0"
| "level_value LevelWarn = 4"
| "level_value LevelError = 8"

lemma level_value_inject: "level_value a = level_value b \<longleftrightarrow> a = b"
  by (cases a; cases b) simp_all

instantiation Level :: linorder
begin

definition less_eq_Level :: "Level \<Rightarrow> Level \<Rightarrow> bool" where
  "less_eq_Level a b = (level_value a \<le> level_value b)"

definition less_Level :: "Level \<Rightarrow> Level \<Rightarrow> bool" where
  "less_Level a b = (level_value a < level_value b)"

instance
  by standard (auto simp: less_eq_Level_def less_Level_def level_value_inject)

end

text \<open>\<open>strings.ToLower\<close> beyond ASCII is the argument \<open>uni\<close>.\<close>

definition ParseLevel :: "(string \<Rightarrow> string) \<Rightarrow> string \<Rightarrow> Level" where
  "ParseLevel uni level =
     (let l = ToLower uni (TrimSpace level) in
      if l = ''debug'' then LevelDebug
      else if l = ''info'' then LevelInfo
      else if l = ''warn'' then LevelWarn
      else if l = ''error'' then LevelError
      else LevelInfo)"

datatype log_handler = JSONHandler string Level bool | TextHandler string Level bool

definition buildHandler :: "(string \<Rightarrow> string) \<Rightarrow> string \<Rightarrow> string \<Rightarrow> string \<Rightarrow> bool \<Rightarrow> log_handler" where
  "buildHandler uni out level format addSource =
     (if ToLower uni (TrimSpace format) = ''json'' then JSONHandler out (ParseLevel uni level) addSource
      else TextHandler out (ParseLevel uni level) addSource)"

record logger_Options =
  lo_Level :: string
  lo_Format :: string
  lo_Output :: "string option"
  lo_AddSource :: bool
  lo_SetDefault :: bool
  lo_Attrs :: "string list"

record logger =
  lg_handler :: log_handler
  lg_attrs :: "string list"

text \<open>The new logger and the process-wide default after the call.\<close>

definition logger_New :: "(string \<Rightarrow> string) \<Rightarrow> logger_Options \<Rightarrow> logger \<Rightarrow> logger \<times> logger" where
  "logger_New uni opts std =
     (let out = (case lo_Output opts of None \<Rightarrow> ''os.Stdout'' | Some w \<Rightarrow> w);
          log = \<lparr>lg_handler = buildHandler uni out (lo_Level opts) (lo_Format opts) (lo_AddSource opts), lg_attrs = []\<rparr>;
          log = (if lo_Attrs opts \<noteq> [] then log\<lparr>lg_attrs := lo_Attrs opts\<rparr> else log)
      in (log, if lo_SetDefault opts then log else std))"

text \<open>\<open>defaultLogger\<close> of \<open>internal/app/runtime.go\<close>.\<close>

definition defaultLogger :: "(string \<Rightarrow> string) \<Rightarrow> Config \<Rightarrow> string \<Rightarrow> logger \<Rightarrow> logger \<times> logger" where
  "defaultLogger uni cfg serviceName std =
     logger_New uni \<lparr>lo_Level = LogLevel cfg, lo_Format = LogFormat cfg, lo_Output = None, lo_AddSource = True,
       lo_SetDefault = True, lo_Attrs = [''service'', serviceName]\<rparr> std"

text \<open>The level names that the configuration admits are exactly told apart.\<close>

lemma ParseLevel_names:
  "map (ParseLevel uni) [''debug'', ''info'', ''warn'', ''error''] = [LevelDebug, LevelInfo, LevelWarn, LevelError]"
proof -
  have "map TrimSpace [''debug'', ''info'', ''warn'', ''error''] = [''debug'', ''info'', ''warn'', ''error'']" by code_simp
  moreover have "map (\<lambda>s. (is_ascii s, map ascii_lower s)) [''debug'', ''info'', ''warn'', ''error''] =
      [(True, ''debug''), (True, ''info''), (True, ''warn''), (True, ''error'')]" by code_simp
  ultimately show ?thesis by (simp add: ParseLevel_def ToLower_def)
qed

text \<open>A handler writes the records from its level upwards.\<close>

fun Enabled :: "log_handler \<Rightarrow> Level \<Rightarrow> bool" where
  "Enabled (JSONHandler out l src) r = (l \<le> r)"
| "Enabled (TextHandler out l src) r = (l \<le> r)"

lemma top_level: "l \<le> LevelError"
  by (cases l) (simp_all add: less_eq_Level_def)

text \<open>
  Whatever the options say, the new logger is made for the level they name, writes errors,
  and carries the given attributes; only with \<open>SetDefault\<close> does it become the default.
\<close>

lemma logger_threshold:
  "Enabled (lg_handler (fst (logger_New uni opts std))) r = (ParseLevel uni (lo_Level opts) \<le> r)"
  "Enabled (lg_handler (fst (logger_New uni opts std))) LevelError"
  "lg_attrs (fst (logger_New uni opts std)) = lo_Attrs opts"
  "snd (logger_New uni opts std) = (if lo_SetDefault opts then fst (logger_New uni opts std) else std)"
  by (simp_all add: logger_New_def buildHandler_def Let_def top_level)

text \<open>So the error with which \<open>Fatal\<close> ends a process that has made its logger is always written.\<close>

lemma fatal_visible: "Enabled (lg_handler (snd (defaultLogger uni cfg name std))) LevelError"
  by (simp add: defaultLogger_def logger_threshold top_level)

end
