(* ===== verification/Spec2Isabelle.thy ===== *)
theory Spec2Isabelle
  imports Handoff Server_Presence Rpc_Clients Entry_Points Logger
begin

text \<open>
  Verification of the authoritative multiplayer RPG backend.

  \<^bold>\<open>The program.\<close> Two processes share one PostgreSQL database and one Redis server. The API
  process (\<open>cmd/api\<close>, \<open>app.RunAPI\<close>) serves accounts, characters and the handoff to a game
  server over ConnectRPC. A game process (\<open>cmd/game\<close>, \<open>app.RunGame\<close>) runs the authoritative
  simulation for peers that are connected over ENet. A client registers or logs in and gets
  a session token, creates a character, asks the API for a join token, and presents it to
  the game server that the token names; that server consumes the token, takes the
  character's lock, loads the character and admits the peer. The processes meet only in the
  two stores: join tokens, sessions, locks, registry entries and rate limits are Redis keys,
  users and characters are PostgreSQL rows.

  \<^bold>\<open>Conventions.\<close> A Go string is a list of bytes (HOL \<open>string\<close>); a call that may fail returns
  \<open>gerr + 'a\<close>, where \<open>gerr\<close> is a tree of wrapped sentinels and opaque errors with
  \<open>errors.Is\<close>; a call that may panic returns \<open>Returned x\<close> or \<open>Panicked\<close>; state is passed
  explicitly. Durations are integers in nanoseconds, counters and ticks 64-bit words, floats
  IEEE doubles built from their sign, exponent and mantissa. A nil receiver or a nil
  dependency is \<open>None\<close>. The order in which a Go map is iterated, the clock, fresh UUIDs and
  random bytes are arguments. Code outside of the repository (Redis, PostgreSQL, ENet,
  Argon2id, encoding/json, protobuf, the ConnectRPC encoding, Unicode tables, IDNA and
  net/mail) is a parameter; what the proofs need of it is stated as the assumptions of a
  locale or as a hypothesis.

  \<^bold>\<open>Theories, bottom up.\<close>

  \<^item> \<open>Rpg_Prelude\<close>: result type, shared lemmas, the collection \<open>go_defs\<close>. \<open>Go_Strings\<close>,
    \<open>Go_Float64\<close>, \<open>Go_Time\<close>, \<open>Go_Base64\<close>, \<open>Go_Json\<close>: what the code uses of the Go standard
    library (trimming, splitting, UTF-8, decimal numbers; float arithmetic and rounding;
    durations; raw base64; the interface of encoding/json).
  \<^item> \<open>Domain\<close> (\<open>domain/\<close>): entities and sentinel errors. \<open>Validate\<close> (\<open>validate/validate.go\<close>).
  \<^item> \<open>Cache_Keys\<close> (\<open>cache/keys.go\<close>): key construction; keys of different families or
    identifiers differ. \<open>Redis_Client\<close> (\<open>cache/redis.go\<close>, \<open>store/redis/errors.go\<close>): the
    client as a record of operations, the locale \<open>redis_server\<close> with the documented laws of
    each command over an abstract key space \<open>kv\<close>, \<open>redis_clock\<close> with the passage of time, and
    an executable instance \<open>mem_redis\<close>. \<open>Keyspace\<close>: typed keys, and \<open>keeps_to\<close>, which says that
    a step changes keys of certain families only.
  \<^item> \<open>Character_Locks\<close>, \<open>Join_Tokens\<close>, \<open>Sessions\<close>, \<open>Game_Servers\<close>, \<open>Rate_Limit\<close>
    (\<open>store/redis/*.go\<close>): each store with its Lua scripts. The locales \<open>character_locker\<close>,
    \<open>join_token_store\<close>, \<open>session_map\<close> and \<open>server_registry\<close> state what a client of the store may
    rely on, free of keys and commands; \<open>sublocale\<close> shows that the store over any
    \<open>redis_server\<close> gives it, and an interpretation instantiates it.
  \<^item> \<open>Postgres\<close> (\<open>store/postgres/*.go\<close>, \<open>db/tx.go\<close>): one parameter per query, row scanning,
    error classification, and transactions with panics. \<open>Auth\<close> (\<open>auth/*.go\<close>): passwords, the
    encoded hash and its parser, opaque tokens. \<open>Services\<close> (\<open>service/*.go\<close>,
    \<open>store/interfaces.go\<close>): registration, login, characters and the handoff, with the locale
    \<open>auth_backend\<close>.
  \<^item> \<open>World\<close> and \<open>Simulation\<close> (\<open>game/world.go\<close>, \<open>session.go\<close>, \<open>simulation.go\<close>,
    \<open>snapshot.go\<close>). \<open>Game_Join\<close> (\<open>game/join.go\<close>, \<open>packets.go\<close>): the handshake over
    the locale \<open>join_backend\<close>. \<open>Enet_Host\<close> (\<open>game/enet.go\<close>): addresses and the wrapper of the ENet host.
    \<open>Game_Server\<close> (\<open>game/server.go\<close>, \<open>broadcast.go\<close>): events, main
    loop, heartbeat, shutdown, and a run that interleaves loop and heartbeat. \<open>Game_Backend\<close>: the stores of a game server give the
    handshake's locale. \<open>Game_App\<close> (\<open>app/game*.go\<close>): the wired process. \<open>Cluster\<close>: several
    of them on one Redis, as a step relation in which the store calls of their handlers
    interleave, processes start, stop and crash, and time passes, over the locale
    \<open>cluster_stores\<close>. \<open>Redis_Program\<close>: every sequence of operations of the five Redis stores,
    over the locale \<open>redis_program\<close>; it discharges the well-formedness of the key space that
    the other theories assume. \<open>Server_Presence\<close>: the heartbeat of a game server among these
    operations, over the locale \<open>serving_process\<close>.
  \<^item> \<open>Config\<close> (\<open>config/*.go\<close>), \<open>App_Runtime\<close> (\<open>app/runtime.go\<close>, \<open>factories.go\<close>,
    \<open>cache/redis.go\<close>, \<open>db/postgres.go\<close>): startup and shutdown as a log of opened and closed
    resources. \<open>Logger\<close> (\<open>logger/logger.go\<close>). \<open>Metrics\<close> (\<open>observability/metrics.go\<close>).
  \<^item> \<open>Rpc_Protocol\<close> (\<open>protocol/rpg/v1\<close>): messages, procedure names, dispatch. \<open>Api_Rpc\<close>
    (\<open>api/errors.go\<close>, \<open>auth.go\<close>, \<open>context.go\<close>, \<open>ratelimit.go\<close>, \<open>logging.go\<close>,
    \<open>observability/rpc.go\<close>, \<open>api/handlers\<close>): interceptors and handlers. \<open>Api_Http\<close> (the other
    files of \<open>api/\<close>, \<open>observability/http.go\<close>): response writers, middleware, routes, server.
    \<open>Rpc_Clients\<close>: the generated clients against the routes of the server.
    \<open>Api_App\<close> (\<open>app/api*.go\<close>): the wired process, over the locale \<open>api_stores\<close>. \<open>Handoff\<close>: the
    path from the API to a game server. \<open>Entry_Points\<close> (\<open>cmd/*/main.go\<close>): the processes from
    the outside.

  \<^bold>\<open>State.\<close> The stores are one state \<open>'s \<times> 'd\<close> (Redis and PostgreSQL); a game process adds the
  record \<open>game\<close> (world, sessions, log of what was asked of ENet and of the health server), the API the
  record \<open>api_state\<close> (metrics, log). One round of \<open>runGameLoop\<close> takes what the environment
  provides in it (an ENet event, the time, the map orders) and is otherwise a function; a
  run of the loop is a list of rounds, a run of the process a list of rounds and heartbeats.

  \<^bold>\<open>What is shown.\<close> Of the composed system: each character has one session on a running
  game server, with its entity and its lock, and across all servers as long as no session
  outlives its lock (beyond that, a theorem shows the double session); a join succeeds only with a token that the API
  issued for this user, character and server, and then does succeed; protected procedures
  are closed to callers without a live session through the whole HTTP stack; who registers
  can log in; a join always ends, after at most four store calls, with one answer; a
  generated client calls exactly the method it names. Of the stores together: from an empty
  Redis, whatever the processes do, every key is well typed, the session index holds and
  tokens are canonical, and no store touches the keys of another; a game server is listed while
  its heartbeat works and gone when it has stopped for the time to live. Of each store: mutual exclusion and expiry of locks, single use and round trip
  of tokens, the session index invariant and complete revocation, exact listings, exact
  rate limits. Of the simulation: independence of map order, bounded speed, the bounded rate
  of the loop. Of startup: configurations in range, no leaked connection, ENet taken up and given back in order, and an exit status that tells
  how the process ended. Some theorems
  prove a defect: a NaN direction, a second join by a playing peer, another spelling of a
  character ID, labels escaped twice, rate limits by a client's own header.

  \<^bold>\<open>Bounds and fuel.\<close> Trimming and UTF-8 decoding recurse on fuel, the length of the input,
  and each step consumes at least one byte; \<open>trim_left_fuel_done\<close> shows that it is enough. All other
  recursion is structural or has a termination proof.

  \<^bold>\<open>Not modelled.\<close> Mutexes and the interleaving of goroutines inside of a process: every
  operation is one step, and a heartbeat comes between two rounds of the loop; between processes the
  store calls interleave (\<open>Cluster\<close>). Contexts, deadlines
  and timeouts. Sockets, the ENet protocol and the HTTP server below the handler, with the
  redirects of \<open>ServeMux\<close> for unclean paths. The wire format of protobuf and ConnectRPC. Fused
  multiply-add, which Go permits on some platforms. Generated gRPC stubs and
  descriptors, which the program does not call; \<open>testutil\<close>, migrations, documentation and CI. Log output of the game process.
\<close>

end
